(* ===== verification/Prelude.thy ===== *)
theory Prelude
  imports Main "HOL-Library.AList" "HOL-Library.Sublist"
begin

text \<open>
  Shared vocabulary of the development: the outcome of running a piece of Go code (it
  returns, it blocks for ever, it panics), Go's maps with string keys as association
  lists, and the generic lemmas the components share.

  A Go function whose body may block on a channel or panic is modelled by a function into
  \<open>'a outcome\<close>; sequencing is \<open>and_then\<close>. A Go map is modelled by the association list
  of its entries, in the order in which a \<open>range\<close> loop visits them (Go leaves that order
  open; the components prove which results do not depend on it).
\<close>

named_theorems outcome_simps \<open>rewriting of sequenced outcomes\<close>
named_theorems step_defs \<open>definitions unfolded when a single operation is executed\<close>

section \<open>Outcomes\<close>

datatype 'a outcome = Returns 'a | Blocks | Panics

primrec and_then :: "'a outcome \<Rightarrow> ('a \<Rightarrow> 'b outcome) \<Rightarrow> 'b outcome" where
  "and_then (Returns a) f = f a"
| "and_then Blocks f = Blocks"
| "and_then Panics f = Panics"

lemma and_then_assoc [outcome_simps]:
  "and_then (and_then m f) g = and_then m (\<lambda>x. and_then (f x) g)"
  by (cases m) simp_all

lemma and_then_eq_Returns [outcome_simps]:
  "and_then m f = Returns b \<longleftrightarrow> (\<exists>a. m = Returns a \<and> f a = Returns b)"
  by (cases m) simp_all

lemma Returns_eq_and_then [outcome_simps]:
  "Returns b = and_then m f \<longleftrightarrow> (\<exists>a. m = Returns a \<and> Returns b = f a)"
  by (cases m) simp_all

lemma and_then_eq_Panics [outcome_simps]:
  "and_then m f = Panics \<longleftrightarrow> m = Panics \<or> (\<exists>a. m = Returns a \<and> f a = Panics)"
  by (cases m) simp_all

lemma and_then_eq_Blocks [outcome_simps]:
  "and_then m f = Blocks \<longleftrightarrow> m = Blocks \<or> (\<exists>a. m = Returns a \<and> f a = Blocks)"
  by (cases m) simp_all

lemma and_then_cong [fundef_cong]:
  "m = m' \<Longrightarrow> (\<And>a. m' = Returns a \<Longrightarrow> f a = f' a) \<Longrightarrow> and_then m f = and_then m' f'"
  by (cases m') auto

section \<open>Go maps with string keys\<close>

type_synonym 'v gomap = "(string \<times> 'v) list"

definition has_key :: "'v gomap \<Rightarrow> string \<Rightarrow> bool" where
  "has_key m k \<longleftrightarrow> map_of m k \<noteq> None"

definition wf_map :: "'v gomap \<Rightarrow> bool" where
  "wf_map m \<longleftrightarrow> distinct (map fst m)"

lemma has_key_iff_fst: "has_key m k \<longleftrightarrow> k \<in> fst ` set m"
  by (simp add: has_key_def map_of_eq_None_iff)

lemma has_key_Nil [simp]: "\<not> has_key [] k"
  by (simp add: has_key_def)

lemma has_key_Cons [simp]: "has_key ((k', v) # m) k \<longleftrightarrow> k = k' \<or> has_key m k"
  by (simp add: has_key_def)

lemma has_key_update [simp]: "has_key (AList.update k v m) k' \<longleftrightarrow> k' = k \<or> has_key m k'"
  by (simp add: has_key_def update_conv')

lemma has_key_delete [simp]: "has_key (AList.delete k m) k' \<longleftrightarrow> k' \<noteq> k \<and> has_key m k'"
  by (simp add: has_key_def delete_conv')

lemma map_of_update_same [simp]: "map_of (AList.update k v m) k = Some v"
  by (simp add: update_conv')

lemma map_of_update_other [simp]: "k' \<noteq> k \<Longrightarrow> map_of (AList.update k v m) k' = map_of m k'"
  by (simp add: update_conv')

lemma map_of_delete_same [simp]: "map_of (AList.delete k m) k = None"
  by (simp add: delete_conv')

lemma map_of_delete_other [simp]: "k' \<noteq> k \<Longrightarrow> map_of (AList.delete k m) k' = map_of m k'"
  by (simp add: delete_conv')

lemma wf_map_Nil [simp]: "wf_map []"
  by (simp add: wf_map_def)

lemma wf_map_update [simp]: "wf_map m \<Longrightarrow> wf_map (AList.update k v m)"
  by (simp add: wf_map_def distinct_update)

lemma wf_map_delete [simp]: "wf_map m \<Longrightarrow> wf_map (AList.delete k m)"
  by (simp add: wf_map_def distinct_delete)

lemma wf_map_filter: "wf_map m \<Longrightarrow> wf_map (filter P m)"
  by (auto simp: wf_map_def distinct_map inj_on_def)

lemma update_fresh: "\<not> has_key m k \<Longrightarrow> AList.update k v m = m @ [(k, v)]"
  by (induction m) (auto simp: has_key_def split: if_splits)

lemma set_update_cases:
  "x \<in> set (AList.update k v m) \<Longrightarrow> x = (k, v) \<or> x \<in> set m"
  by (induction m) (auto split: if_splits)

lemma set_update_subset: "set (AList.update k v m) \<subseteq> insert (k, v) (set m)"
  using set_update_cases by fastforce

lemma delete_fresh [simp]: "\<not> has_key m k \<Longrightarrow> AList.delete k m = m"
  by (induction m) (auto simp: has_key_def AList.delete_eq split: if_splits)

lemma delete_update_same [simp]: "AList.delete k (AList.update k v m) = AList.delete k m"
  by (induction m) (auto simp: AList.delete_eq)

lemma update_twice [simp]: "AList.update k v (AList.update k w m) = AList.update k v m"
  by (induction m) auto

lemma delete_eq_other: "AList.delete n a = AList.delete n b \<Longrightarrow> k \<noteq> n \<Longrightarrow> map_of a k = map_of b k"
  by (metis map_of_delete_other)

section \<open>Lists\<close>

definition keep_last :: "nat \<Rightarrow> 'a list \<Rightarrow> 'a list" where
  "keep_last n xs = drop (length xs - n) xs"

lemma length_keep_last [simp]: "length (keep_last n xs) = min n (length xs)"
  by (simp add: keep_last_def min_def)

lemma keep_last_all [simp]: "length xs \<le> n \<Longrightarrow> keep_last n xs = xs"
  by (simp add: keep_last_def)

lemma keep_last_append: "keep_last n (keep_last n xs @ ys) = keep_last n (xs @ ys)"
proof (cases "length xs \<le> n")
  case False
  let ?k = "length xs - n"
  from False have len: "length (drop ?k xs) = n"
    and k: "length xs + length ys - n = ?k + length ys" by simp_all
  then have "keep_last n (drop ?k xs @ ys) = drop (length ys) (drop ?k xs @ ys)"
    by (simp add: keep_last_def)
  also have "\<dots> = drop (length ys) (drop ?k xs) @ drop (length ys - n) ys"
    using len by (simp only: drop_append)
  also have "\<dots> = keep_last n (xs @ ys)"
    using k False by (simp add: keep_last_def add.commute)
  finally show ?thesis by (simp add: keep_last_def)
qed simp

lemma keep_last_snoc: "keep_last n (keep_last n xs @ [x]) = keep_last n (xs @ [x])"
  by (rule keep_last_append)

lemma subseq_keep_last: "subseq (keep_last n xs) xs"
  unfolding keep_last_def by (rule suffix_imp_subseq) (rule suffix_drop)

definition somes :: "'a option list \<Rightarrow> 'a list" where
  "somes xs = List.map_filter (\<lambda>x. x) xs"

lemma somes_simps [simp]:
  "somes [] = []" "somes (None # xs) = somes xs" "somes (Some x # xs) = x # somes xs"
  by (simp_all add: somes_def map_filter_simps)

lemma somes_append [simp]: "somes (xs @ ys) = somes xs @ somes ys"
proof (induction xs)
  case (Cons x xs)
  then show ?case by (cases x) simp_all
qed simp

lemma somes_map_Some [simp]: "somes (map Some xs) = xs"
  by (induction xs) simp_all

lemma subseq_somes: "subseq xs ys \<Longrightarrow> subseq (somes xs) (somes ys)"
proof (induction rule: list_emb.induct)
  case (list_emb_Cons xs ys y)
  then show ?case by (cases y) auto
next
  case (list_emb_Cons2 x y xs ys)
  then show ?case by (cases x) auto
qed simp

lemma set_keep_last: "set (keep_last n xs) \<subseteq> set xs"
  by (auto simp: keep_last_def dest: in_set_dropD)

end
