(* ===== verification/GoErrors.thy ===== *)
theory GoErrors
  imports Prelude
begin

text \<open>
  The error values of the program. Every sentinel the modelled packages declare with
  \<^verbatim>\<open>bg.Error("...")\<close> is a constructor, under the name it has in the source; an error that
  comes from a library (gRPC, bbolt, snacl, the operating system) is \<open>Foreign\<close> with its
  text. \<open>error_msg\<close> is the text of the declaration. \<^verbatim>\<open>bg.Error\<close> is a string type, so the
  comparisons \<^verbatim>\<open>err == ErrX\<close> of the code compare texts: the distinctness theorem says that
  no two sentinels are confused by them.
  A handler of the gRPC API answers with \<^verbatim>\<open>status.Error(code, text)\<close> or with a bare error;
  \<open>rpc_error\<close> records which.
\<close>

datatype (plugins only: code size) go_error =
    ErrInvalidType | ErrServiceAlreadyStarted | ErrServiceAlreadyStopped | ErrNoError
  | ErrAlreadyRecording | ErrAlreadyStoppedRecording | ErrPollingIntervalTooSmall
  | ErrMacSvcNil | ErrAlreadySubscribed | ErrInvalidPluginName | ErrInvalidRequestType
  | ErrDuplicateMacConstraints | ErrUnknownPermission
  | ErrSourceAlreadyRegistered | ErrListenerAlreadyRegistered
  | ErrInvalidPluginExec | ErrPluginExecNotFound | ErrInvalidPluginType
  | ErrPluginNotStarted
  | ErrInvalidPluginString | ErrDuplicatePluginName | ErrUnregsiteredPlugin
  | ErrPluginNotReady | ErrPluginTimeout
  | ErrMissingRootKeyID | ErrValidatorNil | ErrValidatorMethodAlreadyRegistered
  | ErrMetadataFromContext | ErrUnexpectedMacNumber | ErrKeyNotInContext
  | ErrAlreadyUnlocked | ErrContextRootKeyID | ErrKeyValueForbidden | ErrPasswordRequired
  | ErrStoreLocked | ErrRootKeyBucketNotFound | ErrEncKeyNotFound | ErrDeletionForbidden
  | ErrRootKeyIDNotFound
  | ErrCantGetPeerFromContext | ErrInvalidListOfPlugins | ErrUnauthorizedPluginAction
  | ErrNoMacaroonsFromContext
  | ErrWaitingToStart | ErrDaemonLocked | ErrDaemonUnlocked | ErrRPCStarting
  | ErrInvalidRPCState
  | ErrPasswordAlreadySet | ErrPasswordNotSet | ErrWrongPassword | ErrUnlockTimeout
  | ErrBucketNotFound
  | ErrGRPCMiddlewareNil | ErrEmptyPermissionsList | ErrInvalidMacEntity
  | ErrInvalidMacAction | ErrDeprecatedAction
  | ErrHealthServiceAlreadyRegistered | ErrUnregisteredHealthService
  | ErrShutdown
  | DeadlineExceeded
  | Foreign string

text \<open>The sentinels of the package \<^verbatim>\<open>errors\<close>.\<close>

definition errors_msg :: "go_error \<Rightarrow> string option" where
  "errors_msg e =
     (case e of
        ErrInvalidType \<Rightarrow> Some ''invalid type''
      | ErrServiceAlreadyStarted \<Rightarrow> Some ''service already started''
      | ErrServiceAlreadyStopped \<Rightarrow> Some ''service already stopped''
      | ErrNoError \<Rightarrow> Some ''expected an error and got none''
      | ErrAlreadyRecording \<Rightarrow> Some ''already recording''
      | ErrAlreadyStoppedRecording \<Rightarrow> Some ''already stopped recording''
      | ErrPollingIntervalTooSmall \<Rightarrow> Some ''inputted polling interval smaller than minimum required value''
      | ErrMacSvcNil \<Rightarrow> Some ''macaroon service uninitialized''
      | ErrAlreadySubscribed \<Rightarrow> Some ''subscriber with given name already subscribed''
      | ErrInvalidPluginName \<Rightarrow> Some ''invalid plugin name''
      | ErrInvalidRequestType \<Rightarrow> Some ''request is not a valid type''
      | ErrDuplicateMacConstraints \<Rightarrow> Some ''duplicate macaroon constraints for given path''
      | ErrUnknownPermission \<Rightarrow> Some ''unknown permission for given method''
      | _ \<Rightarrow> None)"

text \<open>The sentinels of \<^verbatim>\<open>plugins/service.go\<close>, \<^verbatim>\<open>plugins/config.go\<close> and the queue package.\<close>

definition plugins_msg :: "go_error \<Rightarrow> string option" where
  "plugins_msg e =
     (case e of
        ErrInvalidPluginString \<Rightarrow> Some ''invalid plugin string''
      | ErrDuplicatePluginName \<Rightarrow> Some ''identical plugin names''
      | ErrUnregsiteredPlugin \<Rightarrow> Some ''given plugin not in plugin registry''
      | ErrPluginNotReady \<Rightarrow> Some ''plugin not ready''
      | ErrPluginTimeout \<Rightarrow> Some ''plugin timed out''
      | ErrInvalidPluginExec \<Rightarrow> Some ''invalid plugin executable''
      | ErrPluginExecNotFound \<Rightarrow> Some ''plugin executable not found''
      | ErrInvalidPluginType \<Rightarrow> Some ''invalid plugin type''
      | ErrPluginNotStarted \<Rightarrow> Some ''plugin not started''
      | ErrSourceAlreadyRegistered \<Rightarrow> Some ''source already registered''
      | ErrListenerAlreadyRegistered \<Rightarrow> Some ''listener already registered''
      | _ \<Rightarrow> None)"

text \<open>The sentinels of the package \<^verbatim>\<open>macaroons\<close>.\<close>

definition macaroons_msg :: "go_error \<Rightarrow> string option" where
  "macaroons_msg e =
     (case e of
        ErrMissingRootKeyID \<Rightarrow> Some ''missing root key ID''
      | ErrValidatorNil \<Rightarrow> Some ''validator cannot be nil''
      | ErrValidatorMethodAlreadyRegistered \<Rightarrow> Some ''external validator for method already registered''
      | ErrMetadataFromContext \<Rightarrow> Some ''unable to get metadata from context''
      | ErrUnexpectedMacNumber \<Rightarrow> Some ''unexpected number of macaroons''
      | ErrKeyNotInContext \<Rightarrow> Some ''key is not in the context''
      | ErrAlreadyUnlocked \<Rightarrow> Some ''macaroon store already unlocked''
      | ErrContextRootKeyID \<Rightarrow> Some ''failed to read root key ID from context''
      | ErrKeyValueForbidden \<Rightarrow> Some ''root key ID value is not allowed''
      | ErrPasswordRequired \<Rightarrow> Some ''a non-nil password is required''
      | ErrStoreLocked \<Rightarrow> Some ''macaroon store is locked''
      | ErrRootKeyBucketNotFound \<Rightarrow> Some ''root key bucket not found''
      | ErrEncKeyNotFound \<Rightarrow> Some ''macaroon encryption key not found''
      | ErrDeletionForbidden \<Rightarrow> Some ''the specified ID cannot be deleted''
      | ErrRootKeyIDNotFound \<Rightarrow> Some ''root key with id doesn't exist''
      | ErrCantGetPeerFromContext \<Rightarrow> Some ''unable to get peer info from context''
      | ErrInvalidListOfPlugins \<Rightarrow> Some ''invalid list of plugins''
      | ErrUnauthorizedPluginAction \<Rightarrow> Some ''unauthorized plugin action''
      | ErrNoMacaroonsFromContext \<Rightarrow> Some ''no macaroons received from context''
      | _ \<Rightarrow> None)"

text \<open>The sentinels of the gRPC interceptor, the unlocker, the RPC server and the health
  service.\<close>

definition services_msg :: "go_error \<Rightarrow> string option" where
  "services_msg e =
     (case e of
        ErrWaitingToStart \<Rightarrow> Some ''waiting to start, RPC services not available''
      | ErrDaemonLocked \<Rightarrow> Some ''daemon locked, unlock it to enable full RPC access''
      | ErrDaemonUnlocked \<Rightarrow> Some ''daemon already unlocked, unlocker service is no longer available''
      | ErrRPCStarting \<Rightarrow> Some ''the RPC server is in the process of starting up, but not yet ready to accept calls''
      | ErrInvalidRPCState \<Rightarrow> Some ''invalid RPC state''
      | ErrPasswordAlreadySet \<Rightarrow> Some ''password has already been set''
      | ErrPasswordNotSet \<Rightarrow> Some ''password has not been set''
      | ErrWrongPassword \<Rightarrow> Some ''wrong password''
      | ErrUnlockTimeout \<Rightarrow> Some ''login timed out''
      | ErrBucketNotFound \<Rightarrow> Some ''bucket not found''
      | ErrGRPCMiddlewareNil \<Rightarrow> Some ''gRPC middleware uninitialized''
      | ErrEmptyPermissionsList \<Rightarrow> Some ''empty permissions list''
      | ErrInvalidMacEntity \<Rightarrow> Some ''invalid macaroon permission entity''
      | ErrInvalidMacAction \<Rightarrow> Some ''invalid macaroon permission action''
      | ErrDeprecatedAction \<Rightarrow> Some ''deprecated rpc command''
      | ErrHealthServiceAlreadyRegistered \<Rightarrow> Some ''health service already registered''
      | ErrUnregisteredHealthService \<Rightarrow> Some ''unregistered health service''
      | ErrShutdown \<Rightarrow> Some ''shutting down''
      | _ \<Rightarrow> None)"

text \<open>\<^verbatim>\<open>err.Error()\<close>.\<close>

definition error_msg :: "go_error \<Rightarrow> string" where
  "error_msg e =
     (case e of
        Foreign s \<Rightarrow> s
      | DeadlineExceeded \<Rightarrow> ''context deadline exceeded''
      | _ \<Rightarrow>
          (case errors_msg e of Some s \<Rightarrow> s | None \<Rightarrow>
          (case plugins_msg e of Some s \<Rightarrow> s | None \<Rightarrow>
          (case macaroons_msg e of Some s \<Rightarrow> s | None \<Rightarrow>
          (case services_msg e of Some s \<Rightarrow> s | None \<Rightarrow> '''')))))"

text \<open>The sentinels, in the order of the packages that declare them.\<close>

definition sentinels :: "go_error list" where
  "sentinels =
     [ErrInvalidType, ErrServiceAlreadyStarted, ErrServiceAlreadyStopped, ErrNoError,
     ErrAlreadyRecording, ErrAlreadyStoppedRecording, ErrPollingIntervalTooSmall,
     ErrMacSvcNil, ErrAlreadySubscribed, ErrInvalidPluginName, ErrInvalidRequestType,
     ErrDuplicateMacConstraints, ErrUnknownPermission, ErrSourceAlreadyRegistered,
     ErrListenerAlreadyRegistered, ErrInvalidPluginExec, ErrPluginExecNotFound,
     ErrInvalidPluginType, ErrPluginNotStarted, ErrInvalidPluginString,
     ErrDuplicatePluginName, ErrUnregsiteredPlugin, ErrPluginNotReady, ErrPluginTimeout,
     ErrMissingRootKeyID, ErrValidatorNil, ErrValidatorMethodAlreadyRegistered,
     ErrMetadataFromContext, ErrUnexpectedMacNumber, ErrKeyNotInContext, ErrAlreadyUnlocked,
     ErrContextRootKeyID, ErrKeyValueForbidden, ErrPasswordRequired, ErrStoreLocked,
     ErrRootKeyBucketNotFound, ErrEncKeyNotFound, ErrDeletionForbidden, ErrRootKeyIDNotFound,
     ErrCantGetPeerFromContext, ErrInvalidListOfPlugins, ErrUnauthorizedPluginAction,
     ErrNoMacaroonsFromContext, ErrWaitingToStart, ErrDaemonLocked, ErrDaemonUnlocked,
     ErrRPCStarting, ErrInvalidRPCState, ErrPasswordAlreadySet, ErrPasswordNotSet,
     ErrWrongPassword, ErrUnlockTimeout, ErrBucketNotFound, ErrGRPCMiddlewareNil,
     ErrEmptyPermissionsList, ErrInvalidMacEntity, ErrInvalidMacAction, ErrDeprecatedAction,
     ErrHealthServiceAlreadyRegistered, ErrUnregisteredHealthService, ErrShutdown]"

definition is_sentinel :: "go_error \<Rightarrow> bool" where
  "is_sentinel e \<longleftrightarrow> (case e of Foreign _ \<Rightarrow> False | DeadlineExceeded \<Rightarrow> False | _ \<Rightarrow> True)"

text \<open>\<^verbatim>\<open>err == sentinel\<close>: the same dynamic type, and for \<^verbatim>\<open>bg.Error\<close> the same text.\<close>

definition same_error :: "go_error \<Rightarrow> go_error \<Rightarrow> bool" where
  "same_error e e' \<longleftrightarrow> is_sentinel e \<and> is_sentinel e' \<and> error_msg e = error_msg e'"

lemma sentinel_texts_distinct: "distinct (map error_msg sentinels)"
  by code_simp

lemma is_sentinel_listed: "is_sentinel e \<Longrightarrow> e \<in> set sentinels"
  by (cases e) (simp_all add: is_sentinel_def sentinels_def)

lemma same_error_iff: "is_sentinel e \<Longrightarrow> same_error e' e \<longleftrightarrow> e' = e"
  using sentinel_texts_distinct is_sentinel_listed
  by (auto simp: same_error_def distinct_map inj_on_def)

text \<open>
  \<^verbatim>\<open>bg.Error(text)\<close>: the sentinel with that text if there is one. The program rebuilds errors
  this way from the messages a plugin sends, so that a sentinel survives the trip.
\<close>

definition bg_error :: "string \<Rightarrow> go_error" where
  "bg_error s = (case find (\<lambda>e. error_msg e = s) sentinels of Some e \<Rightarrow> e | None \<Rightarrow> Foreign s)"

lemma error_msg_bg_error: "error_msg (bg_error s) = s"
  by (auto simp: bg_error_def error_msg_def [of "Foreign s"] find_Some_iff split: option.splits)

lemma find_distinct:
  "distinct (map f xs) \<Longrightarrow> x \<in> set xs \<Longrightarrow> find (\<lambda>y. f y = f x) xs = Some x"
  by (induction xs) auto

lemma bg_error_sentinel: "is_sentinel e \<Longrightarrow> bg_error (error_msg e) = e"
  using find_distinct [OF sentinel_texts_distinct is_sentinel_listed]
  by (simp add: bg_error_def)

text \<open>An error from the other side of a gRPC connection: a status, or any other error.
  \<open>from_status\<close> is the conversion \<^verbatim>\<open>if st, ok := status.FromError(err); ok { err =
  bg.Error(st.Message()) }\<close>.\<close>

datatype remote_error = StatusError string | PlainError go_error

primrec from_status :: "remote_error \<Rightarrow> go_error" where
  "from_status (StatusError msg) = bg_error msg"
| "from_status (PlainError e) = e"

section \<open>Answers of gRPC handlers\<close>

datatype rpc_code =
    OK | Internal | InvalidArgument | FailedPrecondition | PermissionDenied
  | AlreadyExists | DeadlineExceededCode | Unimplemented | Aborted

datatype rpc_error = Status rpc_code string | Bare go_error

section \<open>Sentinels on the wire\<close>

text \<open>
  Sentinel errors can be compared by text: a sentinel sent by a plugin as the message of a
  gRPC status and rebuilt by \<^verbatim>\<open>bg.Error(st.Message())\<close> is the same sentinel again, and no
  other error of the program compares equal to it.
\<close>

theorem sentinels_survive_the_wire:
  assumes "is_sentinel e"
  shows "from_status (StatusError (error_msg e)) = e \<and> (\<forall>e'. same_error e' e \<longleftrightarrow> e' = e)"
  using bg_error_sentinel [OF assms] same_error_iff [OF assms] by simp

theorem sentinels_survive_the_wire_witness:
  "is_sentinel ErrAlreadyRecording \<and>
   from_status (StatusError ''already recording'') = ErrAlreadyRecording"
proof -
  have "is_sentinel ErrAlreadyRecording" "error_msg ErrAlreadyRecording = ''already recording''"
    by (simp_all add: is_sentinel_def error_msg_def errors_msg_def)
  with sentinels_survive_the_wire [of ErrAlreadyRecording] show ?thesis by simp
qed

end
