(* ===== verification/Channel.thy ===== *)
theory Channel
  imports GoErrors
begin

text \<open>
  Go channels and the subscriber lists built on them. A channel holds what is buffered, its
  capacity, whether it is closed and, for the model, the values its receiver has already
  taken and whether a receiver is waiting for it. A send appends when there is room;
  on a full channel it waits for the receiver, which takes the oldest value, or blocks for
  ever when no receiver is there; on a closed channel it panics.

  \<open>notify\<close> is the loop that \<^verbatim>\<open>Queue.Push\<close> and \<^verbatim>\<open>PluginInstance.updateListeners\<close> share: it
  closes and drops the subscribers that have disconnected and sends the news to the others,
  in the order the map iteration visits them.
\<close>

record 'a chan =
  chan_buf :: "'a list"
  chan_cap :: nat
  chan_closed :: bool
  chan_taken :: "'a list"
  chan_reader :: bool

definition make_chan :: "nat \<Rightarrow> 'a chan" where
  "make_chan n = \<lparr>chan_buf = [], chan_cap = n, chan_closed = False, chan_taken = [],
     chan_reader = False\<rparr>"

definition chan_send :: "'a \<Rightarrow> 'a chan \<Rightarrow> 'a chan outcome" where
  "chan_send v c =
     (if chan_closed c then Panics
      else if length (chan_buf c) < chan_cap c then Returns (c\<lparr>chan_buf := chan_buf c @ [v]\<rparr>)
      else if chan_reader c then
        (case chan_buf c @ [v] of
           x # xs \<Rightarrow> Returns (c\<lparr>chan_taken := chan_taken c @ [x], chan_buf := xs\<rparr>)
         | [] \<Rightarrow> Blocks)
      else Blocks)"

definition chan_close :: "'a chan \<Rightarrow> 'a chan outcome" where
  "chan_close c = (if chan_closed c then Panics else Returns (c\<lparr>chan_closed := True\<rparr>))"

text \<open>\<^verbatim>\<open><-c\<close>: a buffered value first, the zero value (\<open>None\<close>) from a closed channel.\<close>

definition chan_recv :: "'a chan \<Rightarrow> ('a option \<times> 'a chan) outcome" where
  "chan_recv c =
     (case chan_buf c of
        x # xs \<Rightarrow> Returns (Some x, c\<lparr>chan_buf := xs, chan_taken := chan_taken c @ [x]\<rparr>)
      | [] \<Rightarrow> if chan_closed c then Returns (None, c) else Blocks)"

text \<open>Everything ever sent, in order: the values taken, then the ones still buffered.\<close>

definition chan_history :: "'a chan \<Rightarrow> 'a list" where
  "chan_history c = chan_taken c @ chan_buf c"

definition can_send :: "'a chan \<Rightarrow> bool" where
  "can_send c \<longleftrightarrow> \<not> chan_closed c \<and> (length (chan_buf c) < chan_cap c \<or> chan_reader c)"

lemma chan_send_returns: "can_send c \<longleftrightarrow> (\<exists>c'. chan_send v c = Returns c')"
  by (auto simp: can_send_def chan_send_def split: list.splits)

lemma chan_send_history: "chan_send v c = Returns c' \<Longrightarrow> chan_history c' = chan_history c @ [v]"
  by (auto simp: chan_send_def chan_history_def split: if_splits list.splits)

lemma chan_send_frame:
  "chan_send v c = Returns c' \<Longrightarrow>
     chan_closed c' = chan_closed c \<and> chan_reader c' = chan_reader c \<and> chan_cap c' = chan_cap c"
  by (auto simp: chan_send_def split: if_splits list.splits)

lemma chan_send_bound:
  "chan_send v c = Returns c' \<Longrightarrow> length (chan_buf c) \<le> chan_cap c \<Longrightarrow>
     length (chan_buf c') \<le> chan_cap c'"
  by (cases "chan_buf c") (auto simp: chan_send_def split: if_splits)

lemma chan_recv_history: "chan_recv c = Returns (x, c') \<Longrightarrow> chan_history c' = chan_history c"
  by (auto simp: chan_recv_def chan_history_def split: if_splits list.splits)

section \<open>Subscribers\<close>

record 'a listener =
  IsConnected :: bool
  Signal :: "'a chan"

fun notify :: "'a \<Rightarrow> 'a listener gomap \<Rightarrow> 'a listener gomap outcome" where
  "notify v [] = Returns []"
| "notify v ((n, l) # ls) =
     (if \<not> IsConnected l then
        and_then (chan_close (Signal l)) (\<lambda>_. notify v ls)
      else
        and_then (chan_send v (Signal l)) (\<lambda>c.
        and_then (notify v ls) (\<lambda>ls'. Returns ((n, l\<lparr>Signal := c\<rparr>) # ls'))))"

definition open_listeners :: "'a listener gomap \<Rightarrow> bool" where
  "open_listeners ls \<longleftrightarrow> (\<forall>(n, l) \<in> set ls. \<not> chan_closed (Signal l))"

definition attended :: "'a listener gomap \<Rightarrow> bool" where
  "attended ls \<longleftrightarrow> (\<forall>(n, l) \<in> set ls. IsConnected l \<longrightarrow> chan_reader (Signal l))"

definition connected :: "'a listener gomap \<Rightarrow> string list" where
  "connected ls = map fst (filter (\<lambda>(n, l). IsConnected l) ls)"

lemma open_listeners_Nil [simp]: "open_listeners []"
  and attended_Nil [simp]: "attended []"
  by (simp_all add: open_listeners_def attended_def)

lemma open_listeners_Cons [simp]:
  "open_listeners ((n, l) # ls) \<longleftrightarrow> \<not> chan_closed (Signal l) \<and> open_listeners ls"
  and attended_Cons [simp]:
  "attended ((n, l) # ls) \<longleftrightarrow> (IsConnected l \<longrightarrow> chan_reader (Signal l)) \<and> attended ls"
  by (simp_all add: open_listeners_def attended_def)

lemma open_listeners_update:
  "open_listeners ls \<Longrightarrow> \<not> chan_closed (Signal l) \<Longrightarrow> open_listeners (AList.update n l ls)"
  unfolding open_listeners_def by (auto dest!: set_update_cases)

lemma attended_update:
  "attended ls \<Longrightarrow> (IsConnected l \<longrightarrow> chan_reader (Signal l)) \<Longrightarrow>
     attended (AList.update n l ls)"
  unfolding attended_def by (auto dest!: set_update_cases)

text \<open>With a receiver behind every connected subscriber the loop returns, keeps exactly the
  connected ones and leaves each of them one more value to read.\<close>

lemma notify_attended:
  "open_listeners ls \<Longrightarrow> attended ls \<Longrightarrow>
     \<exists>ls'. notify v ls = Returns ls' \<and> open_listeners ls' \<and> attended ls' \<and>
       map fst ls' = connected ls"
proof (induction ls)
  case Nil
  then show ?case by (simp add: connected_def)
next
  case (Cons a ls)
  obtain n l where a: "a = (n, l)" by force
  from Cons obtain ls' where ls': "notify v ls = Returns ls'" "open_listeners ls'"
      "attended ls'" "map fst ls' = connected ls"
    using a by auto
  show ?case
  proof (cases "IsConnected l")
    case False
    with Cons.prems ls' a show ?thesis by (simp add: chan_close_def connected_def)
  next
    case True
    with Cons.prems a obtain c where c: "chan_send v (Signal l) = Returns c"
      using chan_send_returns [of "Signal l" v] by (auto simp: can_send_def)
    with True Cons.prems ls' a show ?thesis
      using chan_send_frame [OF c] by (simp add: connected_def)
  qed
qed

lemma notify_returns:
  assumes "notify v ls = Returns ls'"
  shows "list_all2 (\<lambda>(n, l) (n', l'). n' = n \<and> IsConnected l' \<and>
           chan_history (Signal l') = chan_history (Signal l) @ [v])
         (filter (\<lambda>(n, l). IsConnected l) ls) ls'"
  using assms
proof (induction v ls arbitrary: ls' rule: notify.induct)
  case (2 v n l ls)
  then show ?case
    by (auto simp: outcome_simps chan_send_history split: if_splits)
qed simp

lemma notify_not_panics: "open_listeners ls \<Longrightarrow> notify v ls \<noteq> Panics"
  by (induction ls)
    (auto simp: outcome_simps chan_close_def chan_send_def split: if_splits list.splits)

lemma notify_keys: "notify v ls = Returns ls' \<Longrightarrow> map fst ls' = connected ls"
  by (induction v ls arbitrary: ls' rule: notify.induct)
    (auto simp: outcome_simps connected_def split: if_splits)

lemma notify_open:
  "notify v ls = Returns ls' \<Longrightarrow> open_listeners ls \<Longrightarrow> open_listeners ls'"
  by (induction v ls arbitrary: ls' rule: notify.induct)
    (auto simp: outcome_simps chan_send_frame split: if_splits)

lemma notify_wf: "notify v ls = Returns ls' \<Longrightarrow> wf_map ls \<Longrightarrow> wf_map ls'"
  by (metis notify_keys wf_map_def connected_def distinct_map_filter)

lemma notify_keeps_connected:
  "notify v ls = Returns ls' \<Longrightarrow> map_of ls n = Some l \<Longrightarrow> IsConnected l \<Longrightarrow>
     \<exists>l'. map_of ls' n = Some l' \<and> IsConnected l'"
proof (induction v ls arbitrary: ls' rule: notify.induct)
  case (2 v m k ls)
  then show ?case by (auto simp: outcome_simps split: if_splits)
qed simp

lemma notify_no_new: "notify v ls = Returns ls' \<Longrightarrow> \<not> has_key ls n \<Longrightarrow> \<not> has_key ls' n"
  by (induction v ls arbitrary: ls' rule: notify.induct)
    (auto simp: outcome_simps split: if_splits)

end
