(* ===== verification/Queue.thy ===== *)
theory Queue
  imports Channel
begin

text \<open>
  The package \<^verbatim>\<open>queue\<close>, file \<^verbatim>\<open>queue/queue.go\<close>: a bounded queue of frames that drops its
  oldest frame when it is full and tells its subscribers, over channels of capacity 2, how
  many frames it holds (plus one, so that the zero value of a closed channel is not a
  length). \<open>frame option\<close> is the Go pointer \<^verbatim>\<open>*proto.Frame\<close>: \<open>None\<close> is \<^verbatim>\<open>nil\<close>, which \<open>Pop\<close>
  returns on an empty queue and which nothing stops a caller from pushing.

  The locale \<open>fifo\<close> is the interface the consumers of a queue rely on; \<open>bounded_fifo\<close>
  extends it with what a producer may expect. Both are interpreted on the operations of
  the model.
\<close>

record frame =
  Source :: string
  FrameType :: string
  Timestamp :: int
  Payload :: string

record queue =
  q_items :: "frame option list"
  q_listeners :: "nat listener gomap"
  q_limit :: int

text \<open>The sizes \<^verbatim>\<open>queue/manager.go\<close> gives to the queue of a source and of a listener.\<close>

definition defaultSrcQueueSize :: int where
  "defaultSrcQueueSize = 10"

definition defaultLisQueueSize :: int where
  "defaultLisQueueSize = 20"

definition NewQueue :: "int \<Rightarrow> queue" where
  "NewQueue queueLimit = \<lparr>q_items = [], q_listeners = [], q_limit = queueLimit\<rparr>"

definition Pop :: "queue \<Rightarrow> frame option \<times> queue" where
  "Pop q =
     (case q_items q of
        item # rest \<Rightarrow> (item, q\<lparr>q_items := rest\<rparr>)
      | [] \<Rightarrow> (None, q\<lparr>q_items := []\<rparr>))"

text \<open>The part of \<open>Push\<close> that changes the frames: \<^verbatim>\<open>q.queue[1:]\<close> of an empty slice panics.\<close>

definition enqueue :: "frame option \<Rightarrow> queue \<Rightarrow> queue outcome" where
  "enqueue v q =
     and_then
       (if int (length (q_items q)) = q_limit q then
          (case q_items q of [] \<Rightarrow> Panics | _ # rest \<Rightarrow> Returns rest)
        else Returns (q_items q))
       (\<lambda>kept. Returns (q\<lparr>q_items := kept @ [v]\<rparr>))"

definition Push :: "frame option \<Rightarrow> queue \<Rightarrow> queue outcome" where
  "Push v q =
     and_then (enqueue v q) (\<lambda>q1.
     and_then (notify (length (q_items q1) + 1) (q_listeners q1)) (\<lambda>ls.
     Returns (q1\<lparr>q_listeners := ls\<rparr>)))"

definition Subscribe :: "string \<Rightarrow> queue \<Rightarrow> (go_error + nat chan) \<times> queue" where
  "Subscribe name q =
     (if has_key (q_listeners q) name then (Inl ErrAlreadySubscribed, q)
      else let l = \<lparr>IsConnected = True, Signal = make_chan 2\<rparr>
           in (Inr (Signal l), q\<lparr>q_listeners := AList.update name l (q_listeners q)\<rparr>))"

text \<open>The closure \<open>Subscribe\<close> returns. It dereferences the map entry, so it panics when the
  entry is gone.\<close>

definition unsub :: "string \<Rightarrow> queue \<Rightarrow> queue outcome" where
  "unsub name q =
     (case map_of (q_listeners q) name of
        None \<Rightarrow> Panics
      | Some l \<Rightarrow>
          Returns (q\<lparr>q_listeners :=
            AList.update name (l\<lparr>IsConnected := False\<rparr>) (q_listeners q)\<rparr>))"

definition wf_queue :: "queue \<Rightarrow> bool" where
  "wf_queue q \<longleftrightarrow> 0 < q_limit q \<and> int (length (q_items q)) \<le> q_limit q \<and>
     wf_map (q_listeners q) \<and> open_listeners (q_listeners q)"

text \<open>\<^verbatim>\<open>for i := 0; i < n; i++ { x := q.Pop(); ... }\<close>, for any queue.\<close>

primrec pops :: "('q \<Rightarrow> 'a \<times> 'q) \<Rightarrow> nat \<Rightarrow> 'q \<Rightarrow> 'a list \<times> 'q" where
  "pops pop 0 q = ([], q)"
| "pops pop (Suc n) q =
     (case pop q of (x, q1) \<Rightarrow> case pops pop n q1 of (xs, q2) \<Rightarrow> (x # xs, q2))"

fun pushes :: "('a \<Rightarrow> 'q \<Rightarrow> 'q outcome) \<Rightarrow> 'a list \<Rightarrow> 'q \<Rightarrow> 'q outcome" where
  "pushes push [] q = Returns q"
| "pushes push (x # xs) q = and_then (push x q) (pushes push xs)"

section \<open>The interface of a queue\<close>

locale fifo =
  fixes pop :: "'q \<Rightarrow> 'a \<times> 'q"
    and nothing :: 'a
    and contents :: "'q \<Rightarrow> 'a list"
    and invar :: "'q \<Rightarrow> bool"
  assumes pop_empty: "invar q \<Longrightarrow> contents q = [] \<Longrightarrow>
            fst (pop q) = nothing \<and> contents (snd (pop q)) = []"
    and pop_first: "invar q \<Longrightarrow> contents q = x # xs \<Longrightarrow>
            fst (pop q) = x \<and> contents (snd (pop q)) = xs"
    and pop_invar: "invar q \<Longrightarrow> invar (snd (pop q))"
begin

lemma pop_contents:
  "invar q \<Longrightarrow> fst (pop q) = (case contents q of [] \<Rightarrow> nothing | x # xs \<Rightarrow> x) \<and>
     contents (snd (pop q)) = tl (contents q)"
  by (cases "contents q") (simp_all add: pop_empty pop_first)

lemma pops_contents:
  "invar q \<Longrightarrow> pops pop n q = (xs, q') \<Longrightarrow>
     xs = take n (contents q) @ replicate (n - length (contents q)) nothing \<and>
     contents q' = drop n (contents q) \<and> invar q'"
proof (induction n arbitrary: q xs)
  case (Suc n)
  obtain x q1 where pop: "pop q = (x, q1)" by force
  obtain ys where ys: "pops pop n q1 = (ys, q')" and xs: "xs = x # ys"
    using Suc.prems(2) pop by (auto split: prod.splits)
  have q1: "invar q1" "x = (case contents q of [] \<Rightarrow> nothing | a # as \<Rightarrow> a)"
      "contents q1 = tl (contents q)"
    using pop_invar [OF Suc.prems(1)] pop_contents [OF Suc.prems(1)] pop by simp_all
  then show ?case
    using Suc.IH [OF q1(1) ys] xs by (cases "contents q") simp_all
qed simp

text \<open>Asking for at least as many elements as there are empties the queue.\<close>

lemma pops_drains:
  "invar q \<Longrightarrow> length (contents q) \<le> n \<Longrightarrow> pops pop n q = (xs, q') \<Longrightarrow>
     xs = contents q @ replicate (n - length (contents q)) nothing \<and> contents q' = []"
  using pops_contents [of q n xs q'] by simp

end

locale bounded_fifo = fifo pop nothing contents invar
  for pop :: "'q \<Rightarrow> 'a \<times> 'q" and nothing :: 'a and contents :: "'q \<Rightarrow> 'a list"
    and invar :: "'q \<Rightarrow> bool" +
  fixes push :: "'a \<Rightarrow> 'q \<Rightarrow> 'q outcome"
    and bound :: "'q \<Rightarrow> nat"
  assumes push_contents: "invar q \<Longrightarrow> push x q = Returns q' \<Longrightarrow>
            contents q' = keep_last (bound q) (contents q @ [x]) \<and> bound q' = bound q \<and> invar q'"
    and bound_pos: "invar q \<Longrightarrow> 0 < bound q"
    and contents_bound: "invar q \<Longrightarrow> length (contents q) \<le> bound q"
begin

lemma pushes_contents:
  "invar q \<Longrightarrow> pushes push xs q = Returns q' \<Longrightarrow>
     contents q' = keep_last (bound q) (contents q @ xs) \<and> bound q' = bound q \<and> invar q'"
proof (induction xs arbitrary: q)
  case Nil
  then show ?case by (simp add: contents_bound)
next
  case (Cons x xs)
  then obtain q1 where q1: "push x q = Returns q1" "pushes push xs q1 = Returns q'"
    by (auto simp: outcome_simps)
  note p = push_contents [OF Cons.prems(1) q1(1)]
  have "keep_last (bound q) (keep_last (bound q) (contents q @ [x]) @ xs) =
      keep_last (bound q) (contents q @ x # xs)"
    by (simp add: keep_last_append)
  then show ?case
    using Cons.IH [of q1] p q1(2) by simp
qed

end

section \<open>The queue of the program provides it\<close>

lemma Pop_simps [simp]:
  "q_limit (snd (Pop q)) = q_limit q" "q_listeners (snd (Pop q)) = q_listeners q"
  "q_items (snd (Pop q)) = tl (q_items q)"
  by (simp_all add: Pop_def split: list.splits)

lemma wf_NewQueue: "0 < n \<Longrightarrow> wf_queue (NewQueue n)"
  by (simp add: wf_queue_def NewQueue_def)

lemma wf_Pop: "wf_queue q \<Longrightarrow> wf_queue (snd (Pop q))"
  by (auto simp: wf_queue_def)

lemma enqueue_returns:
  assumes "wf_queue q"
  shows "enqueue v q = Returns (q\<lparr>q_items := keep_last (nat (q_limit q)) (q_items q @ [v])\<rparr>)"
proof (cases "int (length (q_items q)) = q_limit q")
  case True
  with assms obtain x xs where xs: "q_items q = x # xs"
    by (cases "q_items q") (auto simp: wf_queue_def)
  with True have "nat (q_limit q) = Suc (length xs)" by simp
  with True xs show ?thesis by (simp add: enqueue_def keep_last_def)
next
  case False
  with assms have "length (q_items q @ [v]) \<le> nat (q_limit q)"
    by (simp add: wf_queue_def) linarith
  with False show ?thesis by (simp add: enqueue_def)
qed

lemma Push_eq:
  assumes "wf_queue q"
  shows "Push v q =
    and_then (notify (min (nat (q_limit q)) (Suc (length (q_items q))) + 1) (q_listeners q))
      (\<lambda>ls. Returns (q\<lparr>q_items := keep_last (nat (q_limit q)) (q_items q @ [v]),
                       q_listeners := ls\<rparr>))"
  by (simp add: Push_def enqueue_returns [OF assms])

lemma Push_returns:
  assumes "wf_queue q" and "Push v q = Returns q'"
  shows "q_items q' = keep_last (nat (q_limit q)) (q_items q @ [v])" and "q_limit q' = q_limit q"
    and "wf_queue q'"
  using assms
  by (auto simp: Push_eq outcome_simps wf_queue_def dest: notify_open notify_wf)

lemma wf_Subscribe: "wf_queue q \<Longrightarrow> wf_queue (snd (Subscribe n q))"
  by (auto simp: Subscribe_def wf_queue_def make_chan_def Let_def open_listeners_update)

lemma wf_unsub: "wf_queue q \<Longrightarrow> unsub n q = Returns q' \<Longrightarrow> wf_queue q'"
  by (auto simp: unsub_def wf_queue_def split: option.splits intro!: open_listeners_update)
    (auto simp: open_listeners_def dest: map_of_SomeD)

interpretation frames: bounded_fifo Pop None q_items wf_queue Push "\<lambda>q. nat (q_limit q)"
proof
  fix q :: queue and x :: "frame option" and xs q'
  show "wf_queue q \<Longrightarrow> q_items q = [] \<Longrightarrow> fst (Pop q) = None \<and> q_items (snd (Pop q)) = []"
    by (simp add: Pop_def)
  show "wf_queue q \<Longrightarrow> q_items q = x # xs \<Longrightarrow> fst (Pop q) = x \<and> q_items (snd (Pop q)) = xs"
    by (simp add: Pop_def)
  show "wf_queue q \<Longrightarrow> wf_queue (snd (Pop q))"
    by (rule wf_Pop)
  show "wf_queue q \<Longrightarrow> Push x q = Returns q' \<Longrightarrow>
      q_items q' = keep_last (nat (q_limit q)) (q_items q @ [x]) \<and>
      nat (q_limit q') = nat (q_limit q) \<and> wf_queue q'"
    using Push_returns [of q x q'] by simp
  show "wf_queue q \<Longrightarrow> 0 < nat (q_limit q)"
    by (simp add: wf_queue_def)
  show "wf_queue q \<Longrightarrow> length (q_items q) \<le> nat (q_limit q)"
    by (simp add: wf_queue_def) linarith
qed

lemma Push_attended:
  assumes "wf_queue q" and "attended (q_listeners q)"
  shows "\<exists>q'. Push v q = Returns q' \<and> attended (q_listeners q') \<and>
    map fst (q_listeners q') = connected (q_listeners q)"
proof -
  from assms have "open_listeners (q_listeners q)" by (simp add: wf_queue_def)
  from notify_attended [OF this assms(2)] obtain ls where
      "notify (min (nat (q_limit q)) (Suc (length (q_items q))) + 1) (q_listeners q) = Returns ls"
      "attended ls" "map fst ls = connected (q_listeners q)"
    by blast
  then show ?thesis by (simp add: Push_eq [OF assms(1)] del: min_Suc_Suc)
qed

text \<open>The result of a push that cannot block, as a term the simplifier can carry around.\<close>

definition pushed :: "frame option \<Rightarrow> queue \<Rightarrow> queue" where
  "pushed v q = (case Push v q of Returns q' \<Rightarrow> q' | _ \<Rightarrow> q)"

lemma Push_pushed:
  assumes "wf_queue q" and "attended (q_listeners q)"
  shows "Push v q = Returns (pushed v q)" "wf_queue (pushed v q)"
    "attended (q_listeners (pushed v q))"
  using Push_attended [OF assms, of v] Push_returns [OF assms(1), of v]
  by (auto simp: pushed_def)

section \<open>Properties\<close>

text \<open>
  C21. A queue of size \<open>limit\<close> into which any sequence of frames is pushed gives back, popped
  as often as it was pushed, exactly the newest \<open>limit\<close> of them in the order of the pushes,
  and \<^verbatim>\<open>nil\<close> after that; no push blocks or panics.
\<close>

theorem queue_keeps_newest_in_order:
  assumes "0 < limit"
  shows "\<exists>q. pushes Push fs (NewQueue limit) = Returns q \<and>
    fst (pops Pop (length fs) q) =
      keep_last (nat limit) fs @ replicate (length fs - nat limit) None"
proof -
  have "\<exists>q'. pushes Push xs q = Returns q'" if "wf_queue q" "q_listeners q = []" for xs q
    using that
  proof (induction xs arbitrary: q)
    case (Cons x xs)
    then obtain q1 where q1: "Push x q = Returns q1" "q_listeners q1 = []"
      by (simp add: Push_eq)
    with Cons show ?case using Push_returns(3) [of q x q1] by simp
  qed simp
  from this [OF wf_NewQueue [OF assms]] obtain q where q: "pushes Push fs (NewQueue limit) = Returns q"
    by (auto simp: NewQueue_def)
  from frames.pushes_contents [OF wf_NewQueue [OF assms] q]
  have c: "q_items q = keep_last (nat limit) fs" and wf: "wf_queue q"
    by (simp_all add: NewQueue_def)
  obtain xs q' where "pops Pop (length fs) q = (xs, q')" by force
  from frames.pops_drains [OF wf _ this] this c q show ?thesis
    by (auto simp: min_def)
qed

text \<open>
  A subscription ends cleanly once: after \<open>Subscribe\<close> and its \<open>unsub\<close>, the next push
  removes the subscriber without sending to it, after which the name can be subscribed
  again; but calling the same \<open>unsub\<close> again at that point panics.
\<close>

theorem unsub_once:
  assumes "wf_queue q" and "q_listeners q = []"
  shows "\<exists>c q1 q2 q3. Subscribe n q = (Inr c, q1) \<and> unsub n q1 = Returns q2 \<and>
    Push v q2 = Returns q3 \<and> \<not> has_key (q_listeners q3) n \<and> unsub n q3 = Panics"
proof -
  let ?l = "\<lparr>IsConnected = True, Signal = make_chan 2\<rparr> :: nat listener"
  let ?q2 = "q\<lparr>q_listeners := [(n, ?l\<lparr>IsConnected := False\<rparr>)]\<rparr>"
  have sub: "Subscribe n q = (Inr (Signal ?l), q\<lparr>q_listeners := [(n, ?l)]\<rparr>)"
    and uns: "unsub n (q\<lparr>q_listeners := [(n, ?l)]\<rparr>) = Returns ?q2"
    using assms(2) by (simp_all add: Subscribe_def unsub_def)
  have "wf_queue (snd (Subscribe n q))" by (rule wf_Subscribe [OF assms(1)])
  with sub have "wf_queue (q\<lparr>q_listeners := [(n, ?l)]\<rparr>)" by simp
  from wf_unsub [OF this uns] obtain q3 where "Push v ?q2 = Returns q3" "q_listeners q3 = []"
    by (simp add: Push_eq chan_close_def make_chan_def)
  with sub uns show ?thesis by (auto simp: unsub_def)
qed

theorem queue_keeps_newest_in_order_witness:
  "(0::int) < 2 \<and> (\<exists>q. pushes Push [None, None, None] (NewQueue 2) = Returns q \<and>
    fst (pops Pop (length [None, None, None]) q) =
      keep_last (nat 2) [None, None, None] @ replicate (length [None, None, None] - nat 2) None)"
  using queue_keeps_newest_in_order [of 2 "[None, None, None]"] by simp

theorem unsub_once_witness:
  "wf_queue (NewQueue defaultSrcQueueSize) \<and>
   (\<exists>c q1 q2 q3. Subscribe ''s'' (NewQueue defaultSrcQueueSize) = (Inr c, q1) \<and>
     unsub ''s'' q1 = Returns q2 \<and> Push None q2 = Returns q3 \<and>
     \<not> has_key (q_listeners q3) ''s'' \<and> unsub ''s'' q3 = Panics)"
proof -
  have "wf_queue (NewQueue defaultSrcQueueSize)" and "q_listeners (NewQueue defaultSrcQueueSize) = []"
    by (simp_all add: wf_NewQueue defaultSrcQueueSize_def) (simp add: NewQueue_def)
  from unsub_once [OF this, of "''s''" None] this show ?thesis by blast
qed

end
