(* ===== verification/QueueProtocol.thy ===== *)
theory QueueProtocol
  imports Queue
begin

text \<open>
  One producer and one subscriber of a queue running concurrently, at the granularity of
  the lock of \<^verbatim>\<open>queue/queue.go\<close>. The producer (a plugin goroutine calling \<open>Push\<close>) takes the
  lock, stores the frame and sends the length on the subscriber's channel before it gives
  the lock back. The subscriber is the goroutine of \<^verbatim>\<open>QueueManager.RegisterSource\<close> (or the
  loop of \<^verbatim>\<open>PluginManager.Subscribe\<close>): it waits for a length and pops one frame less than
  that, and every \<open>Pop\<close> needs the same lock.

  \<open>link_step\<close> is the step relation, one rule per atomic action; \<open>link_exec\<close> is the same as
  a function, to run it. The invariant says that no frame is duplicated, reordered or
  left behind; the last section shows what the protocol does not guarantee.
\<close>

record link =
  lk_queue :: queue
  lk_sig :: "nat chan"
  lk_prod :: "nat option"
  lk_cons :: "nat option"
  lk_in :: "frame list"
  lk_out :: "frame option list"

datatype link_event = PushEnter frame | PushSend | Receive | PopOne | LoopDone

definition link_init :: "int \<Rightarrow> link" where
  "link_init limit = \<lparr>lk_queue = NewQueue limit, lk_sig = make_chan 2, lk_prod = None,
     lk_cons = None, lk_in = [], lk_out = []\<rparr>"

inductive link_step :: "link_event \<Rightarrow> link \<Rightarrow> link \<Rightarrow> bool" where
  push_enter: "lk_prod s = None \<Longrightarrow> enqueue (Some f) (lk_queue s) = Returns q \<Longrightarrow>
     link_step (PushEnter f) s
       (s\<lparr>lk_queue := q, lk_prod := Some (length (q_items q) + 1), lk_in := lk_in s @ [f]\<rparr>)"
| push_send: "lk_prod s = Some n \<Longrightarrow> chan_send n (lk_sig s) = Returns c \<Longrightarrow>
     link_step PushSend s (s\<lparr>lk_sig := c, lk_prod := None\<rparr>)"
| receive: "lk_cons s = None \<Longrightarrow> chan_recv (lk_sig s) = Returns (Some n, c) \<Longrightarrow>
     link_step Receive s (s\<lparr>lk_sig := c, lk_cons := Some (n - 1)\<rparr>)"
| pop_one: "lk_cons s = Some (Suc k) \<Longrightarrow> lk_prod s = None \<Longrightarrow> Pop (lk_queue s) = (x, q) \<Longrightarrow>
     link_step PopOne s (s\<lparr>lk_queue := q, lk_cons := Some k, lk_out := lk_out s @ [x]\<rparr>)"
| loop_done: "lk_cons s = Some 0 \<Longrightarrow> link_step LoopDone s (s\<lparr>lk_cons := None\<rparr>)"

inductive_cases PushEnterE: "link_step (PushEnter f) s t"
inductive_cases PushSendE: "link_step PushSend s t"
inductive_cases ReceiveE: "link_step Receive s t"
inductive_cases PopOneE: "link_step PopOne s t"
inductive_cases LoopDoneE: "link_step LoopDone s t"

lemmas link_stepEs = PushEnterE PushSendE ReceiveE PopOneE LoopDoneE

fun link_exec :: "link_event \<Rightarrow> link \<Rightarrow> link option" where
  "link_exec (PushEnter f) s =
     (case (lk_prod s, enqueue (Some f) (lk_queue s)) of
        (None, Returns q) \<Rightarrow>
          Some (s\<lparr>lk_queue := q, lk_prod := Some (length (q_items q) + 1), lk_in := lk_in s @ [f]\<rparr>)
      | _ \<Rightarrow> None)"
| "link_exec PushSend s =
     (case lk_prod s of
        Some n \<Rightarrow> (case chan_send n (lk_sig s) of
                     Returns c \<Rightarrow> Some (s\<lparr>lk_sig := c, lk_prod := None\<rparr>)
                   | _ \<Rightarrow> None)
      | None \<Rightarrow> None)"
| "link_exec Receive s =
     (case (lk_cons s, chan_recv (lk_sig s)) of
        (None, Returns (Some n, c)) \<Rightarrow> Some (s\<lparr>lk_sig := c, lk_cons := Some (n - 1)\<rparr>)
      | _ \<Rightarrow> None)"
| "link_exec PopOne s =
     (case (lk_cons s, lk_prod s) of
        (Some (Suc k), None) \<Rightarrow>
          (case Pop (lk_queue s) of
             (x, q) \<Rightarrow> Some (s\<lparr>lk_queue := q, lk_cons := Some k, lk_out := lk_out s @ [x]\<rparr>))
      | _ \<Rightarrow> None)"
| "link_exec LoopDone s =
     (case lk_cons s of Some 0 \<Rightarrow> Some (s\<lparr>lk_cons := None\<rparr>) | _ \<Rightarrow> None)"

lemma link_step_iff_exec: "link_step e s t \<longleftrightarrow> link_exec e s = Some t"
  by (cases e)
    (auto elim!: link_stepEs intro: link_step.intros push_enter [simplified] receive [simplified]
      split: option.splits outcome.splits prod.splits nat.splits)

fun link_run :: "link_event list \<Rightarrow> link \<Rightarrow> link option" where
  "link_run [] s = Some s"
| "link_run (e # es) s = (case link_exec e s of Some t \<Rightarrow> link_run es t | None \<Rightarrow> None)"

inductive link_reach :: "int \<Rightarrow> link \<Rightarrow> bool" for limit where
  init: "link_reach limit (link_init limit)"
| step: "link_reach limit s \<Longrightarrow> link_step e s t \<Longrightarrow> link_reach limit t"

lemma link_reach_run: "link_reach limit s \<Longrightarrow> link_run es s = Some t \<Longrightarrow> link_reach limit t"
  by (induction es arbitrary: s)
    (auto split: option.splits simp: link_step_iff_exec [symmetric] intro: link_reach.step)

section \<open>The invariant\<close>

text \<open>
  \<open>pending s\<close> is the largest number of frames the subscriber has already been told to pop:
  by the send in progress, else by the newest buffered length, else by the loop it is in.
\<close>

definition pending :: "link \<Rightarrow> nat" where
  "pending s =
     (case lk_prod s of
        Some n \<Rightarrow> n - 1
      | None \<Rightarrow>
          if chan_buf (lk_sig s) \<noteq> [] then last (chan_buf (lk_sig s)) - 1
          else (case lk_cons s of Some k \<Rightarrow> k | None \<Rightarrow> 0))"

definition link_inv :: "int \<Rightarrow> link \<Rightarrow> bool" where
  "link_inv limit s \<longleftrightarrow>
     wf_queue (lk_queue s) \<and> q_limit (lk_queue s) = limit \<and>
     \<not> chan_closed (lk_sig s) \<and> \<not> chan_reader (lk_sig s) \<and>
     chan_cap (lk_sig s) = 2 \<and> length (chan_buf (lk_sig s)) \<le> 2 \<and>
     (\<forall>n \<in> set (chan_buf (lk_sig s)). 2 \<le> n) \<and>
     None \<notin> set (q_items (lk_queue s)) \<and>
     length (q_items (lk_queue s)) \<le> pending s \<and>
     subseq (somes (lk_out s) @ somes (q_items (lk_queue s))) (lk_in s) \<and>
     (int (length (lk_in s)) \<le> limit \<longrightarrow>
        somes (lk_out s) @ somes (q_items (lk_queue s)) = lk_in s) \<and>
     length (q_items (lk_queue s)) \<le> length (lk_in s) \<and>
     (\<forall>n. lk_prod s = Some n \<longrightarrow> 2 \<le> n)"

lemma link_inv_init: "0 < limit \<Longrightarrow> link_inv limit (link_init limit)"
  by (simp add: link_inv_def link_init_def wf_NewQueue pending_def make_chan_def)
    (simp add: NewQueue_def)

text \<open>Every step keeps it: one lemma per rule.\<close>

lemma link_inv_push_enter:
  assumes inv: "link_inv limit s" and free: "lk_prod s = None"
    and enq: "enqueue (Some f) (lk_queue s) = Returns q"
  shows "link_inv limit
    (s\<lparr>lk_queue := q, lk_prod := Some (length (q_items q) + 1), lk_in := lk_in s @ [f]\<rparr>)"
proof -
  let ?old = "q_items (lk_queue s)"
  from inv have wf: "wf_queue (lk_queue s)" and lim: "q_limit (lk_queue s) = limit"
    and sub: "subseq (somes (lk_out s) @ somes ?old) (lk_in s)"
    by (simp_all add: link_inv_def)
  from enq wf have q: "q = (lk_queue s)\<lparr>q_items := keep_last (nat limit) (?old @ [Some f])\<rparr>"
    by (simp add: enqueue_returns lim)
  have somes_old: "somes (?old @ [Some f]) = somes ?old @ [f]" by simp
  have "subseq (somes (keep_last (nat limit) (?old @ [Some f]))) (somes ?old @ [f])"
    unfolding somes_old [symmetric] by (rule subseq_somes [OF subseq_keep_last])
  then have "subseq (somes (lk_out s) @ somes (q_items q)) (somes (lk_out s) @ somes ?old @ [f])"
    by (simp add: q subseq_append')
  also have "subseq \<dots> (lk_in s @ [f])"
    using list_emb_append_mono [OF sub subseq_order.refl [of "[f]"]] by simp
  finally have sub': "subseq (somes (lk_out s) @ somes (q_items q)) (lk_in s @ [f])" .
  show ?thesis
    using inv sub' by (auto simp: link_inv_def q wf_queue_def pending_def
        dest: set_keep_last [THEN subsetD])
qed

lemma link_inv_push_send:
  assumes "link_inv limit s" and "lk_prod s = Some n" and "chan_send n (lk_sig s) = Returns c"
  shows "link_inv limit (s\<lparr>lk_sig := c, lk_prod := None\<rparr>)"
  using assms by (auto simp: link_inv_def pending_def chan_send_def split: if_splits)

lemma link_inv_receive:
  assumes "link_inv limit s" and "lk_cons s = None"
    and "chan_recv (lk_sig s) = Returns (Some n, c)"
  shows "link_inv limit (s\<lparr>lk_sig := c, lk_cons := Some (n - 1)\<rparr>)"
  using assms
  by (auto simp: link_inv_def pending_def chan_recv_def split: if_splits list.splits option.splits)

lemma link_inv_pop_one:
  assumes inv: "link_inv limit s" and cons: "lk_cons s = Some (Suc k)" and free: "lk_prod s = None"
    and pop: "Pop (lk_queue s) = (x, q)"
  shows "link_inv limit (s\<lparr>lk_queue := q, lk_cons := Some k, lk_out := lk_out s @ [x]\<rparr>)"
proof (cases "q_items (lk_queue s)")
  case Nil
  with pop have "x = None" "q = lk_queue s" by (auto simp: Pop_def)
  with inv cons free Nil show ?thesis by (simp add: link_inv_def pending_def)
next
  case (Cons a rest)
  with inv obtain f where a: "a = Some f" by (cases a) (auto simp: link_inv_def)
  with pop Cons have "x = Some f" "q = (lk_queue s)\<lparr>q_items := rest\<rparr>" by (simp_all add: Pop_def)
  with inv cons free Cons a show ?thesis
    by (auto simp: link_inv_def pending_def wf_queue_def)
qed

lemma link_inv_loop_done:
  "link_inv limit s \<Longrightarrow> lk_cons s = Some 0 \<Longrightarrow> link_inv limit (s\<lparr>lk_cons := None\<rparr>)"
  by (auto simp: link_inv_def pending_def split: option.splits)

lemmas link_inv_rules =
  link_inv_push_enter link_inv_push_send link_inv_receive link_inv_pop_one link_inv_loop_done

lemma link_inv_step: "link_step e s t \<Longrightarrow> link_inv limit s \<Longrightarrow> link_inv limit t"
  by (induction rule: link_step.induct) (blast intro: link_inv_rules)+

lemma link_inv_reach: "link_reach limit s \<Longrightarrow> 0 < limit \<Longrightarrow> link_inv limit s"
  by (induction rule: link_reach.induct) (auto intro: link_inv_init link_inv_step)

section \<open>What a stuck link looks like\<close>

definition stuck :: "link \<Rightarrow> bool" where
  "stuck s \<longleftrightarrow> (\<forall>e. link_exec e s = None)"

definition deadlocked :: "link \<Rightarrow> bool" where
  "deadlocked s \<longleftrightarrow> lk_prod s \<noteq> None \<and> (\<exists>k. lk_cons s = Some (Suc k)) \<and>
     length (chan_buf (lk_sig s)) = chan_cap (lk_sig s)"

lemma stuck_iff_deadlocked:
  assumes inv: "link_inv limit s"
  shows "stuck s \<longleftrightarrow> deadlocked s"
proof
  assume "stuck s"
  then have none: "link_exec e s = None" for e by (simp add: stuck_def)
  from inv have open_sig: "\<not> chan_closed (lk_sig s)" and len: "length (chan_buf (lk_sig s)) \<le> 2"
    and cap: "chan_cap (lk_sig s) = 2" and wf: "wf_queue (lk_queue s)"
    by (simp_all add: link_inv_def)
  obtain n where n: "lk_prod s = Some n"
  proof (cases "lk_prod s")
    case None
    with none [of "PushEnter f" for f] wf show ?thesis by (simp add: enqueue_returns)
  qed
  with none [of PushSend] have "\<not> can_send (lk_sig s)"
    using chan_send_returns [of "lk_sig s" n] by (auto split: outcome.splits)
  with open_sig len cap have full: "length (chan_buf (lk_sig s)) = 2"
    by (auto simp: can_send_def)
  obtain k where "lk_cons s = Some (Suc k)"
  proof (cases "lk_cons s")
    case None
    with none [of Receive] full show ?thesis
      by (cases "chan_buf (lk_sig s)") (simp_all add: chan_recv_def)
  next
    case (Some m)
    with none [of LoopDone] that show ?thesis by (cases m) simp_all
  qed
  with n full cap show "deadlocked s" by (simp add: deadlocked_def)
next
  assume dead: "deadlocked s"
  then obtain n k where n: "lk_prod s = Some n" and k: "lk_cons s = Some (Suc k)"
    and full: "length (chan_buf (lk_sig s)) = chan_cap (lk_sig s)"
    by (auto simp: deadlocked_def)
  have "chan_send n (lk_sig s) = Blocks"
    using inv full by (simp add: chan_send_def link_inv_def)
  with n k have "link_exec e s = None" for e by (cases e) simp_all
  then show "stuck s" by (simp add: stuck_def)
qed

section \<open>Runs\<close>

lemmas link_exec_simps = link_init_def NewQueue_def make_chan_def enqueue_def chan_send_def
  chan_recv_def Pop_def

definition a_frame :: "int \<Rightarrow> frame" where
  "a_frame t = \<lparr>Source = ''p'', FrameType = ''application/json'', Timestamp = t, Payload = []\<rparr>"

text \<open>Two frames, each received and popped before the next is pushed.\<close>

definition two_frames :: "link_event list" where
  "two_frames = [PushEnter (a_frame 1), PushSend, Receive, PopOne, LoopDone,
     PushEnter (a_frame 2), PushSend, Receive, PopOne, LoopDone]"

text \<open>Four frames pushed while the subscriber stands between a receive and its first pop.\<close>

definition fast_producer :: "link_event list" where
  "fast_producer = [PushEnter (a_frame 1), PushSend, Receive, PushEnter (a_frame 2), PushSend,
     PushEnter (a_frame 3), PushSend, PushEnter (a_frame 4)]"

lemma fast_producer_stuck:
  assumes "limit = 10 \<or> limit = 20"
  shows "\<exists>s. link_reach limit s \<and> stuck s"
proof -
  have "\<exists>s. link_run fast_producer (link_init limit) = Some s \<and> deadlocked s"
    using assms
    by (auto simp: fast_producer_def link_exec_simps deadlocked_def)
  then obtain s where "link_reach limit s" "deadlocked s"
    using link_reach_run [OF link_reach.init] by blast
  with assms show ?thesis
    using stuck_iff_deadlocked [OF link_inv_reach] by auto
qed

section \<open>Properties\<close>


text \<open>
  No frame is left behind: whenever the producer is outside \<open>Push\<close>, the subscriber is
  back at its \<open>select\<close> and no length is waiting on the channel, the queue is empty.
\<close>

theorem quiet_link_is_drained:
  assumes "link_reach limit s" and "0 < limit"
    and "lk_prod s = None" and "lk_cons s = None" and "chan_buf (lk_sig s) = []"
  shows "q_items (lk_queue s) = []"
  using link_inv_reach [OF assms(1,2)] assms(3-5) by (simp add: link_inv_def pending_def)

text \<open>
  The only way the two goroutines can come to a halt is the deadlock the lock and the
  channel allow: the producer holds the lock inside \<open>Push\<close> and cannot send because two
  lengths are already buffered, and the subscriber is in its pop loop and cannot get the
  lock.
\<close>

theorem halt_is_lock_and_channel_deadlock:
  assumes "link_reach limit s" and "0 < limit"
  shows "stuck s \<longleftrightarrow> lk_prod s \<noteq> None \<and> (\<exists>k. lk_cons s = Some (Suc k)) \<and>
    length (chan_buf (lk_sig s)) = 2"
  using stuck_iff_deadlocked [OF link_inv_reach [OF assms]] link_inv_reach [OF assms]
  by (simp add: deadlocked_def link_inv_def)

text \<open>
  That deadlock is reachable, with the sizes the program uses for the queue of a source
  and of a listener: four frames pushed while the subscriber is between receiving a length
  and popping are enough.
\<close>

theorem deadlock_reachable:
  "(\<exists>s. link_reach defaultSrcQueueSize s \<and> stuck s) \<and>
   (\<exists>s. link_reach defaultLisQueueSize s \<and> stuck s)"
  using fast_producer_stuck [of defaultSrcQueueSize] fast_producer_stuck [of defaultLisQueueSize]
  by (simp add: defaultSrcQueueSize_def defaultLisQueueSize_def)

text \<open>
  A subscriber can be handed a \<^verbatim>\<open>nil\<close> frame although every pushed frame is a real one:
  two frames pushed before the first length is received make it pop three times.
\<close>

theorem nil_frame_reachable:
  "\<exists>s. link_reach defaultSrcQueueSize s \<and> None \<in> set (lk_out s) \<and> length (lk_in s) = 2"
proof -
  let ?f = "a_frame 0"
  let ?es = "[PushEnter ?f, PushSend, PushEnter ?f, PushSend, Receive, PopOne, LoopDone, Receive,
    PopOne, PopOne]"
  have "\<exists>s. link_run ?es (link_init defaultSrcQueueSize) = Some s \<and>
      None \<in> set (lk_out s) \<and> length (lk_in s) = 2"
    by (simp add: link_exec_simps defaultSrcQueueSize_def)
  then show ?thesis using link_reach_run [OF link_reach.init] by blast
qed

section \<open>Witnesses\<close>

lemma two_frames_reach:
  "link_reach defaultSrcQueueSize (the (link_run two_frames (link_init defaultSrcQueueSize)))"
  by (rule link_reach_run [where es = two_frames, OF link_reach.init])
    (simp add: two_frames_def link_exec_simps defaultSrcQueueSize_def)

lemma two_frames_state:
  "lk_prod (the (link_run two_frames (link_init defaultSrcQueueSize))) = None"
  "lk_cons (the (link_run two_frames (link_init defaultSrcQueueSize))) = None"
  "chan_buf (lk_sig (the (link_run two_frames (link_init defaultSrcQueueSize)))) = []"
  by (simp_all add: two_frames_def link_exec_simps defaultSrcQueueSize_def)


theorem quiet_link_is_drained_witness:
  "q_items (lk_queue (the (link_run two_frames (link_init defaultSrcQueueSize)))) = []"
  by (rule quiet_link_is_drained [OF two_frames_reach _ two_frames_state])
    (simp add: defaultSrcQueueSize_def)

theorem halt_is_lock_and_channel_deadlock_witness:
  "\<not> stuck (the (link_run two_frames (link_init defaultSrcQueueSize)))"
  using halt_is_lock_and_channel_deadlock [OF two_frames_reach] two_frames_state
  by (simp add: defaultSrcQueueSize_def)

end
