(* ===== verification/QueueManager.thy ===== *)
theory QueueManager
  imports Queue
begin

text \<open>
  File \<^verbatim>\<open>queue/manager.go\<close>: the manager that copies the frames of every source (a plugin) to
  the queues of that source's listeners. \<open>queue_manager\<close> is the struct; the goroutine that
  \<open>RegisterSource\<close> starts is recorded in \<open>forwarders\<close>, and its steps are \<open>forwarder_start\<close>
  (it subscribes to the new queue), \<open>forward\<close> (it has received a length) and
  \<open>forwarder_exit\<close> (it returns, running its deferred calls). The queue of a source is the
  one in \<open>incomingQueues\<close>: the pointer the caller of \<open>RegisterSource\<close> holds.
\<close>

datatype forwarder = Starting | Running | Finished

record queue_manager =
  incomingQueues :: "queue gomap"
  outgoingQueues :: "queue gomap gomap"
  quitChans :: "unit chan gomap"
  wgs :: "nat gomap"
  forwarders :: "forwarder gomap"

definition queueManagerName :: string where
  "queueManagerName = ''queue-manager''"

definition NewQueueManager :: queue_manager where
  "NewQueueManager = \<lparr>incomingQueues = [], outgoingQueues = [], quitChans = [], wgs = [],
     forwarders = []\<rparr>"

section \<open>Sources\<close>

definition RegisterSource :: "string \<Rightarrow> queue_manager \<Rightarrow> (go_error + queue) \<times> queue_manager" where
  "RegisterSource name m =
     (if has_key (incomingQueues m) name then (Inl ErrSourceAlreadyRegistered, m)
      else
        let newQ = NewQueue defaultSrcQueueSize in
        (Inr newQ,
         m\<lparr>incomingQueues := AList.update name newQ (incomingQueues m),
           quitChans := AList.update name (make_chan 0) (quitChans m),
           wgs := AList.update name 1 (wgs m),
           forwarders := AList.update name Starting (forwarders m)\<rparr>))"

text \<open>The goroutine subscribes to its queue, or logs the error and returns.\<close>

definition forwarder_start :: "string \<Rightarrow> queue_manager \<Rightarrow> queue_manager" where
  "forwarder_start name m =
     (case map_of (incomingQueues m) name of
        None \<Rightarrow> m
      | Some q \<Rightarrow>
          (case Subscribe queueManagerName q of
             (Inl _, _) \<Rightarrow>
               m\<lparr>forwarders := AList.update name Finished (forwarders m),
                 wgs := AList.update name 0 (wgs m)\<rparr>
           | (Inr _, q') \<Rightarrow>
               m\<lparr>incomingQueues := AList.update name q' (incomingQueues m),
                 forwarders := AList.update name Running (forwarders m)\<rparr>))"

text \<open>The deferred \<open>unsub\<close> and \<open>wg.Done\<close>.\<close>

definition forwarder_exit :: "string \<Rightarrow> queue_manager \<Rightarrow> queue_manager outcome" where
  "forwarder_exit name m =
     (case map_of (incomingQueues m) name of
        None \<Rightarrow> Returns m
      | Some q \<Rightarrow>
          and_then (unsub queueManagerName q) (\<lambda>q'. Returns
            (m\<lparr>incomingQueues := AList.update name q' (incomingQueues m),
               forwarders := AList.update name Finished (forwarders m),
               wgs := AList.update name 0 (wgs m)\<rparr>)))"

fun push_all :: "frame option \<Rightarrow> queue gomap \<Rightarrow> queue gomap outcome" where
  "push_all f [] = Returns []"
| "push_all f ((n, q) # qs) =
     and_then (Push f q) (\<lambda>q'. and_then (push_all f qs) (\<lambda>qs'. Returns ((n, q') # qs')))"

definition outgoing :: "queue_manager \<Rightarrow> string \<Rightarrow> queue gomap" where
  "outgoing m source =
     (case map_of (outgoingQueues m) source of Some qs \<Rightarrow> qs | None \<Rightarrow> [])"

text \<open>The loop \<^verbatim>\<open>for i := 0; i < qLength-1; i++\<close>: pop a frame, push it to every listener.\<close>

fun forward_frames :: "string \<Rightarrow> nat \<Rightarrow> queue_manager \<Rightarrow> queue_manager outcome" where
  "forward_frames name 0 m = Returns m"
| "forward_frames name (Suc k) m =
     (case map_of (incomingQueues m) name of
        None \<Rightarrow> Returns m
      | Some q \<Rightarrow>
          (case Pop q of (f, q') \<Rightarrow>
             and_then (push_all f (outgoing m name)) (\<lambda>qs.
             forward_frames name k
               (m\<lparr>incomingQueues := AList.update name q' (incomingQueues m),
                  outgoingQueues :=
                    (if has_key (outgoingQueues m) name
                     then AList.update name qs (outgoingQueues m) else outgoingQueues m)\<rparr>))))"

text \<open>One turn of the goroutine's \<open>select\<close> that receives the length \<open>qLength\<close>.\<close>

definition forward :: "string \<Rightarrow> nat \<Rightarrow> queue_manager \<Rightarrow> queue_manager outcome" where
  "forward name qLength m =
     (if qLength = 0 then forwarder_exit name m
      else forward_frames name (qLength - 1) m)"

text \<open>
  The deregistering closure: close the quit channel (closing a channel that is missing from
  the map, or closed already, panics), wait for the goroutine, delete the entries. A
  goroutine that has not subscribed yet does so first and then leaves.
\<close>

definition await_forwarder :: "string \<Rightarrow> queue_manager \<Rightarrow> queue_manager outcome" where
  "await_forwarder name m =
     (case map_of (forwarders m) name of
        Some Starting \<Rightarrow>
          (let m1 = forwarder_start name m in
           if map_of (forwarders m1) name = Some Running then forwarder_exit name m1
           else Returns m1)
      | Some Running \<Rightarrow> forwarder_exit name m
      | _ \<Rightarrow> Returns m)"

definition deregister_source :: "string \<Rightarrow> queue_manager \<Rightarrow> queue_manager outcome" where
  "deregister_source name m =
     (case map_of (quitChans m) name of
        None \<Rightarrow> Panics
      | Some c \<Rightarrow>
          and_then (chan_close c) (\<lambda>c'.
          and_then (await_forwarder name (m\<lparr>quitChans := AList.update name c' (quitChans m)\<rparr>))
            (\<lambda>m1. Returns
              (m1\<lparr>wgs := AList.delete name (wgs m1),
                  quitChans := AList.delete name (quitChans m1),
                  incomingQueues := AList.delete name (incomingQueues m1)\<rparr>))))"

section \<open>Listeners\<close>

definition RegisterListener ::
  "string \<Rightarrow> string \<Rightarrow> queue_manager \<Rightarrow> (go_error + queue) \<times> queue_manager" where
  "RegisterListener source name m =
     (let m1 = (if \<not> has_key (outgoingQueues m) source
                then m\<lparr>outgoingQueues := AList.update source [] (outgoingQueues m)\<rparr> else m) in
      if has_key (outgoing m1 source) name then (Inl ErrListenerAlreadyRegistered, m1)
      else
        let newQ = NewQueue defaultLisQueueSize in
        (Inr newQ,
         m1\<lparr>outgoingQueues :=
           AList.update source (AList.update name newQ (outgoing m1 source)) (outgoingQueues m1)\<rparr>))"

definition deregister_listener :: "string \<Rightarrow> string \<Rightarrow> queue_manager \<Rightarrow> queue_manager" where
  "deregister_listener source name m =
     (if has_key (outgoingQueues m) source
      then m\<lparr>outgoingQueues :=
        AList.update source (AList.delete name (outgoing m source)) (outgoingQueues m)\<rparr>
      else m)"

text \<open>\<open>Shutdown\<close> closes the quit channels in turn and waits for each goroutine; it leaves the
  maps as they are.\<close>

fun shutdown_chans :: "(string \<times> unit chan) list \<Rightarrow> queue_manager \<Rightarrow> queue_manager outcome" where
  "shutdown_chans [] m = Returns m"
| "shutdown_chans ((name, c) # cs) m =
     and_then (chan_close c) (\<lambda>c'.
     and_then (await_forwarder name (m\<lparr>quitChans := AList.update name c' (quitChans m)\<rparr>))
       (shutdown_chans cs))"

definition Shutdown :: "queue_manager \<Rightarrow> queue_manager outcome" where
  "Shutdown m = shutdown_chans (quitChans m) m"

section \<open>Well-formed managers\<close>

definition subscribed :: "queue \<Rightarrow> bool" where
  "subscribed q \<longleftrightarrow> (\<exists>l. map_of (q_listeners q) queueManagerName = Some l \<and> IsConnected l)"

definition source_ok :: "queue \<Rightarrow> forwarder option \<Rightarrow> bool" where
  "source_ok q f \<longleftrightarrow> wf_queue q \<and>
     (f = Some Starting \<longrightarrow> \<not> has_key (q_listeners q) queueManagerName) \<and>
     (f = Some Running \<longrightarrow> subscribed q)"

definition wf_manager :: "queue_manager \<Rightarrow> bool" where
  "wf_manager m \<longleftrightarrow>
     wf_map (incomingQueues m) \<and> wf_map (quitChans m) \<and>
     (\<forall>n. has_key (quitChans m) n \<longleftrightarrow> has_key (incomingQueues m) n) \<and>
     (\<forall>n c. map_of (quitChans m) n = Some c \<longrightarrow> \<not> chan_closed c) \<and>
     (\<forall>n q. map_of (incomingQueues m) n = Some q \<longrightarrow> source_ok q (map_of (forwarders m) n)) \<and>
     (\<forall>s qs n q. map_of (outgoingQueues m) s = Some qs \<longrightarrow> map_of qs n = Some q \<longrightarrow> wf_queue q)"

lemma wf_NewQueueManager: "wf_manager NewQueueManager"
  by (simp add: wf_manager_def NewQueueManager_def)

lemma wf_RegisterSource: "wf_manager m \<Longrightarrow> wf_manager (snd (RegisterSource n m))"
  by (auto simp: RegisterSource_def Let_def wf_manager_def source_ok_def wf_NewQueue
      defaultSrcQueueSize_def make_chan_def update_conv')
    (simp add: NewQueue_def)

lemma outgoing_wf: "wf_manager m \<Longrightarrow> map_of (outgoing m s) n = Some q \<Longrightarrow> wf_queue q"
  by (auto simp: outgoing_def wf_manager_def split: option.splits)

lemma wf_set_outgoing:
  "wf_manager m \<Longrightarrow> (\<And>n q. map_of qs n = Some q \<Longrightarrow> wf_queue q) \<Longrightarrow>
     wf_manager (m\<lparr>outgoingQueues := AList.update s qs (outgoingQueues m)\<rparr>)"
  by (auto simp: wf_manager_def update_conv' split: if_splits)

lemma wf_RegisterListener: "wf_manager m \<Longrightarrow> wf_manager (snd (RegisterListener s n m))"
proof -
  assume wf: "wf_manager m"
  let ?m1 = "if \<not> has_key (outgoingQueues m) s
    then m\<lparr>outgoingQueues := AList.update s [] (outgoingQueues m)\<rparr> else m"
  from wf wf_set_outgoing [OF wf, of "[]" s] have wf1: "wf_manager ?m1" by simp
  have "wf_queue q"
    if "map_of (AList.update n (NewQueue defaultLisQueueSize) (outgoing ?m1 s)) k = Some q" for k q
  proof (cases "k = n")
    case True
    with that have "q = NewQueue defaultLisQueueSize" by simp
    then show ?thesis by (simp add: wf_NewQueue defaultLisQueueSize_def)
  next
    case False
    with that outgoing_wf [OF wf1, of s k q] show ?thesis by simp
  qed
  then have "wf_manager (?m1\<lparr>outgoingQueues := AList.update s
      (AList.update n (NewQueue defaultLisQueueSize) (outgoing ?m1 s)) (outgoingQueues ?m1)\<rparr>)"
    by (rule wf_set_outgoing [OF wf1])
  with wf1 show ?thesis
    by (auto simp: RegisterListener_def Let_def)
qed

lemma wf_deregister_listener: "wf_manager m \<Longrightarrow> wf_manager (deregister_listener s n m)"
  by (auto simp: deregister_listener_def delete_conv' intro!: wf_set_outgoing
      dest: outgoing_wf split: if_splits)

text \<open>The goroutine of a source always comes to its end when it is told to quit.\<close>

lemma Subscribe_manager:
  assumes "\<not> has_key (q_listeners q) queueManagerName"
  shows "Subscribe queueManagerName q =
      (Inr (make_chan 2), snd (Subscribe queueManagerName q))"
    and "subscribed (snd (Subscribe queueManagerName q))"
  using assms by (simp_all add: Subscribe_def Let_def subscribed_def)

lemma unsub_subscribed:
  "subscribed q \<Longrightarrow> \<exists>q'. unsub queueManagerName q = Returns q'"
  by (auto simp: subscribed_def unsub_def)

lemma forwarder_exit_ok:
  assumes "map_of (incomingQueues m) n = Some q" and "subscribed q" and "wf_queue q"
  shows "\<exists>q'. forwarder_exit n m = Returns
      (m\<lparr>incomingQueues := AList.update n q' (incomingQueues m),
         forwarders := AList.update n Finished (forwarders m),
         wgs := AList.update n 0 (wgs m)\<rparr>) \<and> wf_queue q'"
  using assms unsub_subscribed [of q]
  by (auto simp: forwarder_exit_def intro: wf_unsub)

lemma await_forwarder_ok:
  assumes q: "map_of (incomingQueues m) n = Some q" and ok: "source_ok q (map_of (forwarders m) n)"
  shows "\<exists>m'. await_forwarder n m = Returns m' \<and>
    quitChans m' = quitChans m \<and> outgoingQueues m' = outgoingQueues m \<and>
    AList.delete n (wgs m') = AList.delete n (wgs m) \<and>
    AList.delete n (incomingQueues m') = AList.delete n (incomingQueues m) \<and>
    AList.delete n (forwarders m') = AList.delete n (forwarders m)"
proof (cases "map_of (forwarders m) n")
  case (Some f)
  show ?thesis
  proof (cases f)
    case Starting
    let ?q1 = "snd (Subscribe queueManagerName q)"
    let ?m1 = "m\<lparr>incomingQueues := AList.update n ?q1 (incomingQueues m),
      forwarders := AList.update n Running (forwarders m)\<rparr>"
    from ok Some Starting have no: "\<not> has_key (q_listeners q) queueManagerName" "wf_queue q"
      by (simp_all add: source_ok_def)
    have sub: "Subscribe queueManagerName q = (Inr (make_chan 2), ?q1)"
      by (rule Subscribe_manager(1) [OF no(1)])
    then have start: "forwarder_start n m = ?m1"
      by (subst forwarder_start_def) (cases "Subscribe queueManagerName q", simp add: q)
    from forwarder_exit_ok [of ?m1 n ?q1] Subscribe_manager(2) [OF no(1)] wf_Subscribe [OF no(2)]
    obtain q' where "forwarder_exit n ?m1 = Returns
      (?m1\<lparr>incomingQueues := AList.update n q' (incomingQueues ?m1),
         forwarders := AList.update n Finished (forwarders ?m1), wgs := AList.update n 0 (wgs ?m1)\<rparr>)"
      by auto
    with Some Starting start show ?thesis
      by (simp add: await_forwarder_def Let_def)
  next
    case Running
    with ok Some have "subscribed q" "wf_queue q" by (simp_all add: source_ok_def)
    from forwarder_exit_ok [OF q this] Some Running show ?thesis
      by (auto simp: await_forwarder_def)
  next
    case Finished
    with Some show ?thesis by (simp add: await_forwarder_def)
  qed
qed (simp add: await_forwarder_def)

lemma source_ok_Push:
  assumes "source_ok q f" and "Push v q = Returns q'"
  shows "source_ok q' f"
proof -
  from assms(1) have wf: "wf_queue q" by (simp add: source_ok_def)
  from assms(2) obtain n ls where n: "notify n (q_listeners q) = Returns ls"
      "q_listeners q' = ls"
    by (auto simp: Push_eq [OF wf] outcome_simps)
  with assms(1) notify_keeps_connected [OF n(1)] notify_no_new [OF n(1)] Push_returns(3) [OF wf assms(2)]
  show ?thesis by (fastforce simp: source_ok_def subscribed_def)
qed

section \<open>Copying frames to the listeners\<close>

definition feeds :: "frame option list \<Rightarrow> queue \<Rightarrow> queue \<Rightarrow> bool" where
  "feeds fs q q' \<longleftrightarrow>
     q_items q' = keep_last (nat (q_limit q)) (q_items q @ fs) \<and> q_limit q' = q_limit q \<and>
     wf_queue q' \<and> attended (q_listeners q')"

definition all_fed :: "frame option list \<Rightarrow> queue gomap \<Rightarrow> queue gomap \<Rightarrow> bool" where
  "all_fed fs = list_all2 (\<lambda>(n, q) (n', q'). n' = n \<and> feeds fs q q')"

definition ready :: "queue gomap \<Rightarrow> bool" where
  "ready qs \<longleftrightarrow> (\<forall>(n, q) \<in> set qs. wf_queue q \<and> attended (q_listeners q))"

lemma feeds_append: "feeds fs q q' \<Longrightarrow> feeds gs q' q'' \<Longrightarrow> feeds (fs @ gs) q q''"
  by (simp add: feeds_def keep_last_append flip: append_assoc)

lemma all_fed_append: "all_fed fs qs qs' \<Longrightarrow> all_fed gs qs' qs'' \<Longrightarrow> all_fed (fs @ gs) qs qs''"
  unfolding all_fed_def by (erule (1) list_all2_trans [rotated]) (auto intro: feeds_append)

lemma feeds_Nil: "wf_queue q \<Longrightarrow> attended (q_listeners q) \<Longrightarrow> feeds [] q q"
  using frames.contents_bound [of q] by (simp add: feeds_def)

lemma all_fed_Nil: "ready qs \<Longrightarrow> all_fed [] qs qs"
  by (auto simp: all_fed_def ready_def list_all2_same feeds_Nil)

lemma all_fed_ready: "all_fed fs qs qs' \<Longrightarrow> ready qs'"
  unfolding all_fed_def
  by (induction rule: list_all2_induct) (auto simp: ready_def feeds_def)

lemma push_all_fed: "ready qs \<Longrightarrow> \<exists>qs'. push_all f qs = Returns qs' \<and> all_fed [f] qs qs'"
proof (induction f qs rule: push_all.induct)
  case (2 f n q qs)
  then have wf: "wf_queue q" and att: "attended (q_listeners q)" and rest: "ready qs"
    by (simp_all add: ready_def)
  from Push_attended [OF wf att] obtain q' where q': "Push f q = Returns q'"
    and "attended (q_listeners q')" by blast
  then have "feeds [f] q q'" using Push_returns [OF wf q'] by (simp add: feeds_def)
  with "2.IH" [OF q' rest] q' show ?case by (auto simp: all_fed_def)
qed (simp add: all_fed_def)

text \<open>The copying loop in terms of the queue interface: what \<open>k\<close> pops of the source give is
  what every listener of that source is fed.\<close>

lemma forward_frames_fed:
  assumes "map_of (incomingQueues m) name = Some q" and "wf_queue q" and "ready (outgoing m name)"
  shows "\<exists>m'. forward_frames name k m = Returns m' \<and>
    map_of (incomingQueues m') name = Some (snd (pops Pop k q)) \<and>
    all_fed (fst (pops Pop k q)) (outgoing m name) (outgoing m' name) \<and>
    (\<forall>s. s \<noteq> name \<longrightarrow> map_of (incomingQueues m') s = map_of (incomingQueues m) s \<and>
       outgoing m' s = outgoing m s)"
  using assms
proof (induction k arbitrary: m q)
  case 0
  then show ?case by (simp add: all_fed_Nil)
next
  case (Suc k)
  obtain f q1 where pop: "Pop q = (f, q1)" by force
  from push_all_fed [OF Suc.prems(3)] obtain qs where
    qs: "push_all f (outgoing m name) = Returns qs" "all_fed [f] (outgoing m name) qs" by blast
  let ?m1 = "m\<lparr>incomingQueues := AList.update name q1 (incomingQueues m),
    outgoingQueues := (if has_key (outgoingQueues m) name
      then AList.update name qs (outgoingQueues m) else outgoingQueues m)\<rparr>"
  have out: "outgoing ?m1 name = qs"
  proof (cases "has_key (outgoingQueues m) name")
    case False
    with qs(2) show ?thesis
      by (auto simp: outgoing_def has_key_def all_fed_def split: option.splits)
  qed (simp add: outgoing_def)
  have other: "outgoing ?m1 s = outgoing m s" if "s \<noteq> name" for s
    using that by (simp add: outgoing_def)
  have wf1: "wf_queue q1" using wf_Pop [OF Suc.prems(2)] pop by simp
  have in1: "map_of (incomingQueues ?m1) name = Some q1" by simp
  have rdy: "ready (outgoing ?m1 name)" unfolding out by (rule all_fed_ready [OF qs(2)])
  from Suc.IH [OF in1 wf1 rdy] obtain m' where
    m': "forward_frames name k ?m1 = Returns m'"
      "map_of (incomingQueues m') name = Some (snd (pops Pop k q1))"
      "all_fed (fst (pops Pop k q1)) qs (outgoing m' name)"
      "\<forall>s. s \<noteq> name \<longrightarrow> map_of (incomingQueues m') s = map_of (incomingQueues ?m1) s \<and>
         outgoing m' s = outgoing ?m1 s"
    unfolding out by blast
  have "forward_frames name (Suc k) m = Returns m'"
    using Suc.prems(1) pop qs(1) m'(1) by simp
  moreover have "all_fed (fst (pops Pop (Suc k) q)) (outgoing m name) (outgoing m' name)"
    using all_fed_append [OF qs(2) m'(3)] pop by (simp add: split_beta)
  ultimately show ?case
    using m'(2,4) pop other by (simp add: split_beta)
qed

section \<open>Shutting down\<close>

lemma shutdown_chans_ok:
  assumes "distinct (map fst cs)"
    and "\<forall>(n, c) \<in> set cs. \<not> chan_closed c \<and>
      (\<exists>q. map_of (incomingQueues m) n = Some q \<and> source_ok q (map_of (forwarders m) n))"
  shows "\<exists>m'. shutdown_chans cs m = Returns m' \<and>
    (\<forall>n \<in> fst ` set cs. \<exists>c. map_of (quitChans m') n = Some c \<and> chan_closed c) \<and>
    (\<forall>n. n \<notin> fst ` set cs \<longrightarrow> map_of (quitChans m') n = map_of (quitChans m) n)"
  using assms
proof (induction cs arbitrary: m)
  case (Cons a cs)
  obtain n c where a: "a = (n, c)" by force
  let ?c = "c\<lparr>chan_closed := True\<rparr>"
  let ?m = "m\<lparr>quitChans := AList.update n ?c (quitChans m)\<rparr>"
  have "(n, c) \<in> set (a # cs)" using a by simp
  from bspec [OF Cons.prems(2) this] obtain q where q: "map_of (incomingQueues ?m) n = Some q"
      "source_ok q (map_of (forwarders ?m) n)" and open_c: "\<not> chan_closed c"
    by auto
  from await_forwarder_ok [OF q] obtain m1 where m1: "await_forwarder n ?m = Returns m1"
      "quitChans m1 = quitChans ?m"
      "AList.delete n (incomingQueues m1) = AList.delete n (incomingQueues ?m)"
      "AList.delete n (forwarders m1) = AList.delete n (forwarders ?m)"
    by blast
  have "\<forall>(k, d) \<in> set cs. \<not> chan_closed d \<and>
      (\<exists>q. map_of (incomingQueues m1) k = Some q \<and> source_ok q (map_of (forwarders m1) k))"
  proof safe
    fix k d
    assume kd: "(k, d) \<in> set cs"
    with Cons.prems(1) a have ne: "k \<noteq> n" by force
    from kd have "(k, d) \<in> set (a # cs)" by simp
    from bspec [OF Cons.prems(2) this] obtain q where "\<not> chan_closed d"
        "map_of (incomingQueues m) k = Some q" "source_ok q (map_of (forwarders m) k)"
      by auto
    then show "chan_closed d \<Longrightarrow> False"
      and "\<exists>q. map_of (incomingQueues m1) k = Some q \<and> source_ok q (map_of (forwarders m1) k)"
      using delete_eq_other [OF m1(3) ne] delete_eq_other [OF m1(4) ne] by simp_all
  qed
  moreover have dist: "distinct (map fst cs)" "n \<notin> fst ` set cs" using Cons.prems(1) a by simp_all
  ultimately obtain m' where m': "shutdown_chans cs m1 = Returns m'"
      "\<forall>k \<in> fst ` set cs. \<exists>c. map_of (quitChans m') k = Some c \<and> chan_closed c"
      "\<forall>k. k \<notin> fst ` set cs \<longrightarrow> map_of (quitChans m') k = map_of (quitChans m1) k"
    using Cons.IH [OF dist(1)] by blast
  have step: "shutdown_chans (a # cs) m = Returns m'"
    using a open_c m1(1) m'(1) by (simp add: chan_close_def)
  have here: "map_of (quitChans m') n = Some ?c" using m'(3) dist(2) m1(2) by simp
  have "\<exists>c. map_of (quitChans m') k = Some c \<and> chan_closed c" if "k \<in> fst ` set (a # cs)" for k
  proof (cases "k = n")
    case True
    with here show ?thesis by simp
  next
    case False
    with that a have "k \<in> fst ` set cs" by auto
    with m'(2) show ?thesis by blast
  qed
  moreover have "map_of (quitChans m') k = map_of (quitChans m) k"
    if "k \<notin> fst ` set (a # cs)" for k
  proof -
    from that a have "k \<noteq> n" "k \<notin> fst ` set cs" by auto
    with m'(3) m1(2) show ?thesis by simp
  qed
  ultimately show ?case using step by blast
qed simp

lemma wf_manager_source:
  assumes "wf_manager m" and "map_of (quitChans m) n = Some c"
  shows "\<not> chan_closed c"
    and "\<exists>q. map_of (incomingQueues m) n = Some q \<and> source_ok q (map_of (forwarders m) n)"
proof -
  show "\<not> chan_closed c" using assms unfolding wf_manager_def by blast
  have "has_key (incomingQueues m) n"
    using assms unfolding wf_manager_def by (metis has_key_def option.distinct(1))
  then obtain q where "map_of (incomingQueues m) n = Some q" unfolding has_key_def by blast
  moreover from this have "source_ok q (map_of (forwarders m) n)"
    using assms(1) unfolding wf_manager_def by blast
  ultimately show "\<exists>q. map_of (incomingQueues m) n = Some q \<and>
    source_ok q (map_of (forwarders m) n)" by blast
qed

lemma Shutdown_ok:
  assumes "wf_manager m"
  shows "\<exists>m'. Shutdown m = Returns m' \<and>
    (\<forall>n. has_key (quitChans m) n \<longrightarrow> (\<exists>c. map_of (quitChans m') n = Some c \<and> chan_closed c))"
proof -
  from assms have dist: "distinct (map fst (quitChans m))"
    unfolding wf_manager_def wf_map_def by blast
  have "\<forall>(n, c) \<in> set (quitChans m). \<not> chan_closed c \<and>
      (\<exists>q. map_of (incomingQueues m) n = Some q \<and> source_ok q (map_of (forwarders m) n))"
    using wf_manager_source [OF assms] map_of_is_SomeI [OF dist] by blast
  from shutdown_chans_ok [OF dist this] show ?thesis
    unfolding Shutdown_def has_key_iff_fst by blast
qed

section \<open>Properties\<close>

text \<open>
  One turn of a source's goroutine that received the length \<open>n\<close> pops \<open>n - 1\<close> frames
  (with \<^verbatim>\<open>nil\<close> for those that are not there) and appends exactly these, in order, to the
  queue of every listener of that source, keeping the newest where a queue overflows. The
  queues of the other sources and of their listeners are untouched.
\<close>

theorem forward_copies_to_every_listener:
  assumes "map_of (incomingQueues m) name = Some q" and "wf_queue q"
    and "ready (outgoing m name)" and "0 < n"
  shows "\<exists>m' q'. forward name n m = Returns m' \<and>
    map_of (incomingQueues m') name = Some q' \<and> q_items q' = drop (n - 1) (q_items q) \<and>
    all_fed (take (n - 1) (q_items q) @ replicate (n - 1 - length (q_items q)) None)
      (outgoing m name) (outgoing m' name) \<and>
    (\<forall>s. s \<noteq> name \<longrightarrow> map_of (incomingQueues m') s = map_of (incomingQueues m) s \<and>
       outgoing m' s = outgoing m s)"
proof -
  obtain fs q' where p: "pops Pop (n - 1) q = (fs, q')" by force
  with forward_frames_fed [OF assms(1-3), of "n - 1"] frames.pops_contents [OF assms(2) p] assms(4)
  show ?thesis by (auto simp: forward_def)
qed

text \<open>
  Registering a source that is not registered gives it a queue; registering it again is
  refused and changes nothing; its deregistering closure returns (the goroutine is told to
  quit and does) and leaves the manager's maps of sources, quit channels and listeners as
  they were before.
\<close>

theorem register_deregister_source:
  assumes "wf_manager m" and "\<not> has_key (incomingQueues m) n"
  shows "\<exists>q m1 m2. RegisterSource n m = (Inr q, m1) \<and>
    RegisterSource n m1 = (Inl ErrSourceAlreadyRegistered, m1) \<and>
    deregister_source n m1 = Returns m2 \<and>
    incomingQueues m2 = incomingQueues m \<and> quitChans m2 = quitChans m \<and>
    outgoingQueues m2 = outgoingQueues m"
proof -
  let ?q = "NewQueue defaultSrcQueueSize"
  let ?m1 = "snd (RegisterSource n m)"
  have reg: "RegisterSource n m = (Inr ?q, ?m1)"
    and again: "RegisterSource n ?m1 = (Inl ErrSourceAlreadyRegistered, ?m1)"
    using assms(2) by (simp_all add: RegisterSource_def Let_def)
  have no_quit: "\<not> has_key (quitChans m) n" using assms by (simp add: wf_manager_def)
  let ?c = "(make_chan 0 :: unit chan)\<lparr>chan_closed := True\<rparr>"
  let ?m = "?m1\<lparr>quitChans := AList.update n ?c (quitChans ?m1)\<rparr>"
  have q: "map_of (incomingQueues ?m) n = Some ?q" "source_ok ?q (map_of (forwarders ?m) n)"
    using assms(2)
    by (simp_all add: RegisterSource_def Let_def source_ok_def wf_NewQueue defaultSrcQueueSize_def)
      (simp add: NewQueue_def)
  from await_forwarder_ok [OF q] obtain m' where m': "await_forwarder n ?m = Returns m'"
      "quitChans m' = quitChans ?m" "outgoingQueues m' = outgoingQueues ?m"
      "AList.delete n (incomingQueues m') = AList.delete n (incomingQueues ?m)"
    by blast
  from m'(1) have "deregister_source n ?m1 = Returns (m'\<lparr>wgs := AList.delete n (wgs m'),
      quitChans := AList.delete n (quitChans m'), incomingQueues := AList.delete n (incomingQueues m')\<rparr>)"
    using assms(2)
    by (simp add: deregister_source_def RegisterSource_def Let_def chan_close_def make_chan_def)
  moreover have "AList.delete n (incomingQueues m') = incomingQueues m"
      "AList.delete n (quitChans m') = quitChans m"
    using m' assms(2) no_quit by (simp_all add: RegisterSource_def Let_def)
  ultimately show ?thesis
    using reg again m'(3) assms(2) by (simp add: RegisterSource_def Let_def)
qed

text \<open>
  \<open>Shutdown\<close> stops every goroutine and returns, but it leaves the closed quit channels in
  the map: deregistering any source afterwards closes a closed channel and panics.
\<close>

theorem deregister_after_shutdown_panics:
  assumes "wf_manager m" and "has_key (incomingQueues m) n"
  shows "\<exists>m'. Shutdown m = Returns m' \<and> deregister_source n m' = Panics"
proof -
  from assms have "has_key (quitChans m) n" by (simp add: wf_manager_def)
  with Shutdown_ok [OF assms(1)] show ?thesis
    by (auto simp: deregister_source_def chan_close_def)
qed

text \<open>A manager with one source holding two frames and one listener of it.\<close>

definition two_frames_waiting :: queue where
  "two_frames_waiting = (NewQueue defaultSrcQueueSize)\<lparr>q_items :=
     [Some \<lparr>Source = ''p'', FrameType = ''json'', Timestamp = 1, Payload = ''a''\<rparr>,
      Some \<lparr>Source = ''p'', FrameType = ''json'', Timestamp = 2, Payload = ''b''\<rparr>]\<rparr>"

definition demo_manager :: queue_manager where
  "demo_manager =
     (snd (RegisterListener ''p'' ''c'' NewQueueManager))
       \<lparr>incomingQueues := [(''p'', two_frames_waiting)]\<rparr>"

lemmas demo_simps = demo_manager_def two_frames_waiting_def NewQueueManager_def Let_def
  RegisterListener_def NewQueue_def outgoing_def defaultSrcQueueSize_def defaultLisQueueSize_def
  wf_queue_def

theorem forward_copies_to_every_listener_witness:
  "\<exists>m' q'. forward ''p'' 3 demo_manager = Returns m' \<and>
    map_of (incomingQueues m') ''p'' = Some q' \<and> q_items q' = [] \<and>
    all_fed (q_items two_frames_waiting) (outgoing demo_manager ''p'') (outgoing m' ''p'')"
proof -
  have "map_of (incomingQueues demo_manager) ''p'' = Some two_frames_waiting"
    "wf_queue two_frames_waiting" "ready (outgoing demo_manager ''p'')"
    by (simp_all add: demo_simps ready_def)
  from forward_copies_to_every_listener [OF this, of 3] show ?thesis
    by (auto simp: two_frames_waiting_def)
qed

theorem register_deregister_source_witness:
  "wf_manager NewQueueManager \<and> \<not> has_key (incomingQueues NewQueueManager) ''p'' \<and>
   (\<exists>q m1 m2. RegisterSource ''p'' NewQueueManager = (Inr q, m1) \<and>
     RegisterSource ''p'' m1 = (Inl ErrSourceAlreadyRegistered, m1) \<and>
     deregister_source ''p'' m1 = Returns m2 \<and>
     incomingQueues m2 = incomingQueues NewQueueManager)"
proof -
  have "\<not> has_key (incomingQueues NewQueueManager) ''p''" by (simp add: NewQueueManager_def)
  from register_deregister_source [OF wf_NewQueueManager this] this wf_NewQueueManager
  show ?thesis by blast
qed

theorem deregister_after_shutdown_panics_witness:
  "\<exists>m'. Shutdown (snd (RegisterSource ''p'' NewQueueManager)) = Returns m' \<and>
     deregister_source ''p'' m' = Panics"
proof -
  have "has_key (incomingQueues (snd (RegisterSource ''p'' NewQueueManager))) ''p''"
    by (simp add: RegisterSource_def Let_def NewQueueManager_def)
  from deregister_after_shutdown_panics [OF wf_RegisterSource [OF wf_NewQueueManager] this]
  show ?thesis .
qed

end
