(* ===== verification/Regexes.thy ===== *)
theory Regexes
  imports Prelude
begin

text \<open>
  The fragment of Go's \<^verbatim>\<open>regexp\<close> that \<^verbatim>\<open>utils/general.go\<close> uses: character classes, \<^verbatim>\<open>+\<close>,
  \<^verbatim>\<open>?\<close> and concatenation, anchored at both ends. \<open>rx_lang\<close> says which strings an expression
  describes; \<open>rx_match\<close> decides it by derivatives, and \<open>rx_match_lang\<close> relates the two.
\<close>

datatype rx =
    Nothing
  | Empty
  | Class "char list"
  | Seq rx rx
  | Alt rx rx
  | Star rx

definition Plus :: "rx \<Rightarrow> rx" where
  "Plus r = Seq r (Star r)"

definition Opt :: "rx \<Rightarrow> rx" where
  "Opt r = Alt Empty r"

inductive rx_lang :: "rx \<Rightarrow> string \<Rightarrow> bool" where
  lang_Empty: "rx_lang Empty []"
| lang_Class: "c \<in> set cs \<Longrightarrow> rx_lang (Class cs) [c]"
| lang_Seq: "rx_lang r s \<Longrightarrow> rx_lang r' s' \<Longrightarrow> rx_lang (Seq r r') (s @ s')"
| lang_Alt1: "rx_lang r s \<Longrightarrow> rx_lang (Alt r r') s"
| lang_Alt2: "rx_lang r' s \<Longrightarrow> rx_lang (Alt r r') s"
| lang_Star_Nil: "rx_lang (Star r) []"
| lang_Star: "rx_lang r s \<Longrightarrow> rx_lang (Star r) s' \<Longrightarrow> rx_lang (Star r) (s @ s')"

inductive_cases lang_NothingE [elim!]: "rx_lang Nothing s"
inductive_cases lang_EmptyE [elim!]: "rx_lang Empty s"
inductive_cases lang_ClassE [elim!]: "rx_lang (Class cs) s"
inductive_cases lang_SeqE: "rx_lang (Seq r r') s"
inductive_cases lang_AltE: "rx_lang (Alt r r') s"

inductive_simps lang_Empty_iff [simp]: "rx_lang Empty s"
inductive_simps lang_Class_iff [simp]: "rx_lang (Class cs) s"
inductive_simps lang_Seq_iff: "rx_lang (Seq r r') s"
inductive_simps lang_Alt_iff [simp]: "rx_lang (Alt r r') s"

primrec nullable :: "rx \<Rightarrow> bool" where
  "nullable Nothing \<longleftrightarrow> False"
| "nullable Empty \<longleftrightarrow> True"
| "nullable (Class _) \<longleftrightarrow> False"
| "nullable (Seq r r') \<longleftrightarrow> nullable r \<and> nullable r'"
| "nullable (Alt r r') \<longleftrightarrow> nullable r \<or> nullable r'"
| "nullable (Star _) \<longleftrightarrow> True"

primrec deriv :: "char \<Rightarrow> rx \<Rightarrow> rx" where
  "deriv c Nothing = Nothing"
| "deriv c Empty = Nothing"
| "deriv c (Class cs) = (if c \<in> set cs then Empty else Nothing)"
| "deriv c (Seq r r') =
     (if nullable r then Alt (Seq (deriv c r) r') (deriv c r') else Seq (deriv c r) r')"
| "deriv c (Alt r r') = Alt (deriv c r) (deriv c r')"
| "deriv c (Star r) = Seq (deriv c r) (Star r)"

definition rx_match :: "rx \<Rightarrow> string \<Rightarrow> bool" where
  "rx_match r s \<longleftrightarrow> nullable (fold deriv s r)"

lemma nullable_lang: "nullable r \<longleftrightarrow> rx_lang r []"
  by (induction r) (auto simp: lang_Seq_iff intro: lang_Star_Nil)

lemma lang_Star_Cons: "rx_lang (Star r) (c # s) \<longleftrightarrow>
  (\<exists>u v. s = u @ v \<and> rx_lang r (c # u) \<and> rx_lang (Star r) v)"
proof
  have "\<lbrakk>rx_lang q w; q = Star r; w = c # s\<rbrakk> \<Longrightarrow>
      \<exists>u v. s = u @ v \<and> rx_lang r (c # u) \<and> rx_lang (Star r) v" for q w
  proof (induction q w arbitrary: s rule: rx_lang.induct)
    case (lang_Star r' t t')
    then show ?case by (cases t) auto
  qed auto
  then show "rx_lang (Star r) (c # s) \<Longrightarrow>
      \<exists>u v. s = u @ v \<and> rx_lang r (c # u) \<and> rx_lang (Star r) v" by blast
qed (auto dest: lang_Star)

lemma lang_Seq_Cons: "rx_lang (Seq r r') (c # s) \<longleftrightarrow>
  (\<exists>u v. s = u @ v \<and> rx_lang r (c # u) \<and> rx_lang r' v) \<or> rx_lang r [] \<and> rx_lang r' (c # s)"
  by (auto simp: lang_Seq_iff Cons_eq_append_conv)

lemma deriv_lang: "rx_lang (deriv c r) s \<longleftrightarrow> rx_lang r (c # s)"
proof (induction r arbitrary: s)
  case (Seq r r')
  then show ?case
    by (simp add: lang_Seq_Cons nullable_lang lang_Seq_iff [of "deriv c r" r'])
next
  case (Star r)
  then show ?case by (simp add: lang_Star_Cons lang_Seq_iff)
qed auto

lemma rx_match_lang: "rx_match r s \<longleftrightarrow> rx_lang r s"
  unfolding rx_match_def
  by (induction s arbitrary: r) (simp_all add: nullable_lang deriv_lang)

lemma rx_match_simps [simp]:
  "rx_match Empty s \<longleftrightarrow> s = []"
  "rx_match (Class cs) s \<longleftrightarrow> (\<exists>c \<in> set cs. s = [c])"
  "rx_match (Alt r r') s \<longleftrightarrow> rx_match r s \<or> rx_match r' s"
  "rx_match (Seq r r') s \<longleftrightarrow> (\<exists>u v. s = u @ v \<and> rx_match r u \<and> rx_match r' v)"
  by (auto simp: rx_match_lang lang_Seq_iff)

lemma rx_match_Star_Class [simp]: "rx_match (Star (Class cs)) s \<longleftrightarrow> set s \<subseteq> set cs"
  unfolding rx_match_lang
  by (induction s) (auto simp: lang_Star_Cons intro: lang_Star_Nil)

lemma rx_match_Plus_Class [simp]:
  "rx_match (Plus (Class cs)) s \<longleftrightarrow> s \<noteq> [] \<and> set s \<subseteq> set cs" (is "?l \<longleftrightarrow> ?r")
proof
  show "?l \<Longrightarrow> ?r" by (auto simp: Plus_def)
next
  assume ?r
  then obtain c t where "s = [c] @ t" "c \<in> set cs" "set t \<subseteq> set cs" by (cases s) auto
  then show ?l unfolding Plus_def by (simp only: rx_match_simps rx_match_Star_Class) blast
qed

lemma rx_match_Opt [simp]: "rx_match (Opt r) s \<longleftrightarrow> s = [] \<or> rx_match r s"
  by (simp add: Opt_def)

end
