(* ===== verification/PluginConfig.thy ===== *)
theory PluginConfig
  imports Regexes GoErrors
begin

text \<open>
  What a plugin may be called: \<^verbatim>\<open>plugins/config.go\<close>, the validators of
  \<^verbatim>\<open>utils/general.go\<close>, and from \<^verbatim>\<open>plugins/service.go\<close> the conversion of a plugin's type and
  the operating system's suffix of its executable. Whether a file exists is a parameter.
\<close>

record plugin_config =
  Name :: string
  Type :: string
  ExecName :: string
  Timeout :: int
  MaxTimeouts :: int

datatype plugin_type = PLUGIN_DATASOURCE | PLUGIN_CONTROLLER

definition DATASOURCE_STR :: string where
  "DATASOURCE_STR = ''datasource''"

definition CONTROLLER_STR :: string where
  "CONTROLLER_STR = ''controller''"

definition defaultPluginTimeout :: int where
  "defaultPluginTimeout = 30"

definition defaultPluginMaxTimeouts :: int where
  "defaultPluginMaxTimeouts = 3"

definition alnum_chars :: "char list" where
  "alnum_chars = ''abcdefghijklmnopqrstuvwxyzABCDEFGHIJKLMNOPQRSTUVWXYZ0123456789''"

text \<open>\<^verbatim>\<open>^[a-zA-Z0-9_-]+$\<close> and \<^verbatim>\<open>^[a-zA-Z0-9_-]+(\.[a-zA-Z0-9]+)?$\<close>.\<close>

definition pluginNameRegex :: rx where
  "pluginNameRegex = Plus (Class (alnum_chars @ ''_-''))"

definition pluginExecRegex :: rx where
  "pluginExecRegex =
     Seq (Plus (Class (alnum_chars @ ''_-''))) (Opt (Seq (Class ''.'') (Plus (Class alnum_chars))))"

definition ValidatePluginName :: "string \<Rightarrow> bool" where
  "ValidatePluginName name = rx_match pluginNameRegex name"

definition ValidatePluginExec :: "string \<Rightarrow> bool" where
  "ValidatePluginExec exec = rx_match pluginExecRegex exec"

fun StrInStrSlice :: "string list \<Rightarrow> string \<Rightarrow> bool" where
  "StrInStrSlice [] str \<longleftrightarrow> False"
| "StrInStrSlice (s # strSlice) str \<longleftrightarrow> (if str = s then True else StrInStrSlice strSlice str)"

lemma StrInStrSlice_iff [simp]: "StrInStrSlice xs x \<longleftrightarrow> x \<in> set xs"
  by (induction xs) auto

text \<open>\<^verbatim>\<open>filepath.Join(pluginDir, exec)\<close> of a directory and a clean file name.\<close>

definition plugin_path :: "string \<Rightarrow> string \<Rightarrow> string" where
  "plugin_path dir exec = dir @ ''/'' @ exec"

definition ValidatePluginConfig ::
  "(string \<Rightarrow> bool) \<Rightarrow> plugin_config \<Rightarrow> string \<Rightarrow> bool \<Rightarrow> go_error option \<times> plugin_config" where
  "ValidatePluginConfig FileExists cfg pluginDir isTesting =
     (if \<not> ValidatePluginName (Name cfg) then (Some ErrInvalidPluginName, cfg)
      else if \<not> ValidatePluginExec (ExecName cfg) then (Some ErrInvalidPluginExec, cfg)
      else if Type cfg \<noteq> DATASOURCE_STR \<and> Type cfg \<noteq> CONTROLLER_STR
        then (Some ErrInvalidPluginType, cfg)
      else if \<not> isTesting \<and> \<not> FileExists (plugin_path pluginDir (ExecName cfg))
        then (Some ErrPluginExecNotFound, cfg)
      else
        let cfg1 = (if Timeout cfg = 0 then cfg\<lparr>Timeout := defaultPluginTimeout\<rparr> else cfg) in
        (None, if MaxTimeouts cfg1 = 0 then cfg1\<lparr>MaxTimeouts := defaultPluginMaxTimeouts\<rparr>
               else cfg1))"

definition windowsExecExt :: string where
  "windowsExecExt = ''.exe''"

definition macExecNameExt :: string where
  "macExecNameExt = ''_macos''"

definition ChangeCfgExec :: "string \<Rightarrow> plugin_config list \<Rightarrow> plugin_config list" where
  "ChangeCfgExec os cfgs =
     (if os = ''windows'' then map (\<lambda>c. c\<lparr>ExecName := ExecName c @ windowsExecExt\<rparr>) cfgs
      else if os = ''darwin'' then map (\<lambda>c. c\<lparr>ExecName := ExecName c @ macExecNameExt\<rparr>) cfgs
      else cfgs)"

definition getPluginCodeFromType :: "string \<Rightarrow> plugin_type \<times> go_error option" where
  "getPluginCodeFromType typeStr =
     (if typeStr = DATASOURCE_STR then (PLUGIN_DATASOURCE, None)
      else if typeStr = CONTROLLER_STR then (PLUGIN_CONTROLLER, None)
      else (PLUGIN_DATASOURCE, Some ErrInvalidPluginType))"

section \<open>What the expressions accept\<close>

lemma ValidatePluginName_iff:
  "ValidatePluginName n \<longleftrightarrow> n \<noteq> [] \<and> set n \<subseteq> set (alnum_chars @ ''_-'')"
  by (simp only: ValidatePluginName_def pluginNameRegex_def rx_match_Plus_Class)

lemma ValidatePluginExec_iff:
  "ValidatePluginExec e \<longleftrightarrow> (\<exists>b x. e = b @ x \<and> ValidatePluginName b \<and>
     (x = [] \<or> (\<exists>y. x = CHR ''.'' # y \<and> y \<noteq> [] \<and> set y \<subseteq> set alnum_chars)))"
  unfolding ValidatePluginExec_def pluginExecRegex_def ValidatePluginName_iff
  by (simp only: rx_match_simps rx_match_Plus_Class rx_match_Opt) auto

text \<open>The characters that separate paths, file extensions and the fields of a macaroon caveat.\<close>

definition separators :: string where
  "separators = CHR 0x5C # ''/:. ,''"

lemma plain_chars: "set (alnum_chars @ ''_-'') \<inter> set separators = {}"
  by code_simp

lemma ValidatePluginName_plain:
  "ValidatePluginName n \<Longrightarrow> c \<in> set separators \<Longrightarrow> c \<notin> set n"
  using plain_chars by (auto simp only: ValidatePluginName_iff)

text \<open>
  C37. An executable name that passes validation names a file in the plugin directory itself:
  it is not empty, it is neither \<^verbatim>\<open>.\<close> nor \<^verbatim>\<open>..\<close>, it contains no path separator of Unix or
  Windows, no blank and at most one dot, which neither starts nor ends it.
\<close>

theorem validated_exec_stays_in_plugin_dir:
  assumes "ValidatePluginExec e"
  shows "e \<noteq> [] \<and> e \<noteq> ''.'' \<and> e \<noteq> ''..'' \<and> set e \<inter> (set separators - {CHR ''.''}) = {} \<and>
    length (filter (\<lambda>c. c = CHR ''.'') e) \<le> 1 \<and> hd e \<noteq> CHR ''.'' \<and> last e \<noteq> CHR ''.''"
proof -
  from assms obtain b x where e: "e = b @ x" and b: "ValidatePluginName b"
    and x: "x = [] \<or> (\<exists>y. x = CHR ''.'' # y \<and> y \<noteq> [] \<and> set y \<subseteq> set alnum_chars)"
    unfolding ValidatePluginExec_iff by blast
  have ne: "b \<noteq> []" and sep: "set b \<inter> set separators = {}"
      "set alnum_chars \<inter> set separators = {}"
    using b plain_chars by (auto simp only: ValidatePluginName_iff set_append)
  have dot: "CHR ''.'' \<notin> set b" "CHR ''.'' \<notin> set alnum_chars"
    using sep by (auto simp: separators_def)
  have nodot: "filter (\<lambda>c. c = CHR ''.'') y = []" if "set y \<subseteq> set b \<union> set alnum_chars" for y
    using that dot by (auto simp: filter_empty_conv)
  have ends: "hd b \<noteq> CHR ''.''" "last b \<noteq> CHR ''.''"
    using dot(1) hd_in_set [OF ne] last_in_set [OF ne] by auto
  have "set e \<inter> (set separators - {CHR ''.''}) = {} \<and>
    length (filter (\<lambda>c. c = CHR ''.'') e) \<le> 1 \<and> hd e \<noteq> CHR ''.'' \<and> last e \<noteq> CHR ''.''"
  proof (cases "x = []")
    case True
    with e sep(1) nodot [of b] ends show ?thesis by auto
  next
    case False
    then obtain y where y: "x = CHR ''.'' # y" "y \<noteq> []" "set y \<subseteq> set alnum_chars"
      using x by blast
    have "last y \<noteq> CHR ''.''" using y(3) last_in_set [OF y(2)] dot(2) by (metis subsetD)
    moreover have "set y \<inter> set separators = {}" using y(3) sep(2) by blast
    moreover have "filter (\<lambda>c. c = CHR ''.'') y = []" using nodot [of y] y(3) by blast
    ultimately have "set x \<inter> (set separators - {CHR ''.''}) = {}"
        "filter (\<lambda>c. c = CHR ''.'') x = [CHR ''.'']" "last e \<noteq> CHR ''.''"
      using e y(1,2) by auto
    with e ne sep(1) nodot [of b] ends(1) show ?thesis by (simp add: Int_Un_distrib2) blast
  qed
  moreover from this have "e \<noteq> ''.''" "e \<noteq> ''..''" by (metis list.sel(1))+
  ultimately show ?thesis using e ne by blast
qed

theorem validated_exec_stays_in_plugin_dir_witness:
  "ValidatePluginExec ''rsync-mock.exe'' \<and> ''rsync-mock.exe'' \<noteq> ''..'' \<and>
   set ''rsync-mock.exe'' \<inter> (set separators - {CHR ''.''}) = {}"
proof -
  have "ValidatePluginExec ''rsync-mock.exe''" by code_simp
  from this validated_exec_stays_in_plugin_dir [OF this] show ?thesis by blast
qed

lemma getPluginCodeFromType_ok:
  "snd (getPluginCodeFromType t) = None \<longleftrightarrow> t = DATASOURCE_STR \<or> t = CONTROLLER_STR"
  by (simp add: getPluginCodeFromType_def)

lemma type_strings_differ: "DATASOURCE_STR \<noteq> CONTROLLER_STR"
  by (simp add: DATASOURCE_STR_def CONTROLLER_STR_def)

definition config_ok :: "(string \<Rightarrow> bool) \<Rightarrow> plugin_config \<Rightarrow> string \<Rightarrow> bool \<Rightarrow> bool" where
  "config_ok fexists cfg dir testing \<longleftrightarrow>
     ValidatePluginName (Name cfg) \<and> ValidatePluginExec (ExecName cfg) \<and>
     (Type cfg = DATASOURCE_STR \<or> Type cfg = CONTROLLER_STR) \<and>
     (testing \<or> fexists (plugin_path dir (ExecName cfg)))"

definition complete_config :: "plugin_config \<Rightarrow> plugin_config" where
  "complete_config cfg =
     cfg\<lparr>Timeout := (if Timeout cfg = 0 then 30 else Timeout cfg),
         MaxTimeouts := (if MaxTimeouts cfg = 0 then 3 else MaxTimeouts cfg)\<rparr>"

lemma complete_config_idem: "complete_config (complete_config cfg) = complete_config cfg"
  by (simp add: complete_config_def)

lemma ValidatePluginConfig_ok:
  "config_ok fexists cfg dir testing \<Longrightarrow>
     ValidatePluginConfig fexists cfg dir testing = (None, complete_config cfg)"
  unfolding config_ok_def ValidatePluginConfig_def complete_config_def Let_def
    defaultPluginTimeout_def defaultPluginMaxTimeouts_def
  by (cases cfg) auto

lemma ValidatePluginConfig_refused:
  "\<not> config_ok fexists cfg dir testing \<Longrightarrow>
     \<exists>e. ValidatePluginConfig fexists cfg dir testing = (Some e, cfg)"
  unfolding config_ok_def ValidatePluginConfig_def by auto

text \<open>
  A configuration that validation accepts comes out complete: its name and executable are
  well formed, its type is one the plugin API can report, its time limits are not zero (the
  defaults 30 and 3 replace a zero and nothing else is touched), the executable exists unless
  it is a test, and validating the result again accepts it and changes nothing. A refused
  configuration is not touched.
\<close>

theorem validated_config_is_complete:
  assumes "ValidatePluginConfig fexists cfg dir testing = (err, cfg')"
  shows "(err = None \<longleftrightarrow>
      ValidatePluginName (Name cfg) \<and> ValidatePluginExec (ExecName cfg) \<and>
      snd (getPluginCodeFromType (Type cfg)) = None \<and>
      (testing \<or> fexists (plugin_path dir (ExecName cfg)))) \<and>
    (err = None \<longrightarrow>
      cfg' = cfg\<lparr>Timeout := (if Timeout cfg = 0 then 30 else Timeout cfg),
                 MaxTimeouts := (if MaxTimeouts cfg = 0 then 3 else MaxTimeouts cfg)\<rparr> \<and>
      ValidatePluginConfig fexists cfg' dir testing = (None, cfg')) \<and>
    (err \<noteq> None \<longrightarrow> cfg' = cfg)"
proof (cases "config_ok fexists cfg dir testing")
  case True
  then have "config_ok fexists (complete_config cfg) dir testing"
    by (simp add: config_ok_def complete_config_def)
  from True ValidatePluginConfig_ok [OF True] ValidatePluginConfig_ok [OF this] assms
  show ?thesis
    by (simp add: config_ok_def getPluginCodeFromType_ok complete_config_idem)
      (simp add: complete_config_def)
next
  case False
  with ValidatePluginConfig_refused [OF False] assms show ?thesis
    by (auto simp: config_ok_def getPluginCodeFromType_ok)
qed

theorem validated_config_is_complete_witness:
  "ValidatePluginConfig (\<lambda>_. False) \<lparr>Name = ''p'', Type = ''datasource'', ExecName = ''p'',
      Timeout = 0, MaxTimeouts = 5\<rparr> ''plugins'' True =
    (None, \<lparr>Name = ''p'', Type = ''datasource'', ExecName = ''p'', Timeout = 30,
      MaxTimeouts = 5\<rparr>) \<and>
   snd (getPluginCodeFromType ''datasource'') = None"
proof -
  have v: "ValidatePluginConfig (\<lambda>_. False) \<lparr>Name = ''p'', Type = ''datasource'', ExecName = ''p'',
      Timeout = 0, MaxTimeouts = 5\<rparr> ''plugins'' True =
    (None, \<lparr>Name = ''p'', Type = ''datasource'', ExecName = ''p'', Timeout = 30,
      MaxTimeouts = 5\<rparr>)" by code_simp
  from validated_config_is_complete [OF v] v show ?thesis by simp
qed

end
