(* ===== verification/PluginInstance.thy ===== *)
theory PluginInstance
  imports Queue PluginConfig
begin

text \<open>
  File \<^verbatim>\<open>plugins/instance.go\<close>: one plugin as the manager sees it. \<open>plugin_instance\<close> is the
  struct; its client (the plugin process) is a number, \<open>None\<close> for \<^verbatim>\<open>nil\<close>; its outgoing
  queue is the one the queue manager keeps under the plugin's name and is passed to the
  steps that push to it. \<open>calls\<close> records, for the model only, what was sent to the process.

  What the process answers is an argument of each method: \<open>plugin_env\<close> says how connecting to
  it and dispensing its implementation go, \<open>reply\<close> what the \<^verbatim>\<open>select\<close> of the method sees (an
  answer, an error, or the timeout first). The goroutines that \<open>startRecord\<close>, \<open>stopRecord\<close>
  and \<open>command\<close> leave behind are values of \<open>goroutine\<close>, stepped by \<open>go_step\<close>.
\<close>

datatype plugin_state =
  READY | BUSY | STOPPING | STOPPED | UNKNOWN | UNRESPONSIVE | KILLED

datatype record_state = NOTRECORDING | RECORDING

datatype plugin_kind = IDatasource | IController | IOther

datatype plugin_call =
    CallStartRecord | CallStopRecord | CallStop | CallCommand "frame option"
  | CallPushVersion string | CallGetVersion | CallKill

record plugin_instance =
  cfg :: plugin_config
  client :: "nat option"
  state :: plugin_state
  timeoutCnt :: int
  recordState :: record_state
  startedAt :: int
  stoppedAt :: int
  version :: string
  listeners :: "plugin_state listener gomap"
  calls :: "plugin_call list"

record plugin_env =
  Client :: "go_error option"
  Dispense :: "go_error + plugin_kind"
  Now :: int
  CtxExpired :: bool

datatype 'a reply = Replied 'a | Failed remote_error | TimedOut

datatype goroutine =
    AwaitStart | SetUnknown | BeginRecord | RecordLoop
  | AwaitCommand | CommandLoop
  | AwaitStopRecord

section \<open>Setters\<close>

definition updateListeners :: "plugin_state \<Rightarrow> plugin_instance \<Rightarrow> plugin_instance outcome" where
  "updateListeners newState i =
     and_then (notify newState (listeners i)) (\<lambda>ls. Returns (i\<lparr>listeners := ls\<rparr>))"

definition set_state :: "plugin_state \<Rightarrow> plugin_instance \<Rightarrow> plugin_instance outcome" where
  "set_state s i = updateListeners s (i\<lparr>state := s\<rparr>)"

definition setReady :: "plugin_instance \<Rightarrow> plugin_instance outcome" where
  "setReady = set_state READY"

definition setBusy :: "plugin_instance \<Rightarrow> plugin_instance outcome" where
  "setBusy = set_state BUSY"

definition setStopping :: "plugin_instance \<Rightarrow> plugin_instance outcome" where
  "setStopping = set_state STOPPING"

definition setStopped :: "plugin_instance \<Rightarrow> plugin_instance outcome" where
  "setStopped = set_state STOPPED"

definition setUnknown :: "plugin_instance \<Rightarrow> plugin_instance outcome" where
  "setUnknown = set_state UNKNOWN"

definition setUnresponsive :: "plugin_instance \<Rightarrow> plugin_instance outcome" where
  "setUnresponsive = set_state UNRESPONSIVE"

definition setKilled :: "plugin_instance \<Rightarrow> plugin_instance outcome" where
  "setKilled = set_state KILLED"

definition setRecording :: "plugin_instance \<Rightarrow> plugin_instance" where
  "setRecording i = i\<lparr>recordState := RECORDING\<rparr>"

definition setNotRecording :: "plugin_instance \<Rightarrow> plugin_instance" where
  "setNotRecording i = i\<lparr>recordState := NOTRECORDING\<rparr>"

definition incrementTimeoutCount :: "plugin_instance \<Rightarrow> plugin_instance" where
  "incrementTimeoutCount i = i\<lparr>timeoutCnt := timeoutCnt i + 1\<rparr>"

definition resetTimeoutCount :: "plugin_instance \<Rightarrow> plugin_instance" where
  "resetTimeoutCount i = i\<lparr>timeoutCnt := 0\<rparr>"

definition setClient :: "nat option \<Rightarrow> plugin_instance \<Rightarrow> plugin_instance" where
  "setClient c i = i\<lparr>client := c\<rparr>"

definition setVersion :: "string \<Rightarrow> plugin_instance \<Rightarrow> plugin_instance" where
  "setVersion v i = i\<lparr>version := v\<rparr>"

definition setStartTime :: "int \<Rightarrow> plugin_instance \<Rightarrow> plugin_instance" where
  "setStartTime t i = i\<lparr>startedAt := t\<rparr>"

definition send_call :: "plugin_call \<Rightarrow> plugin_instance \<Rightarrow> plugin_instance" where
  "send_call c i = i\<lparr>calls := calls i @ [c]\<rparr>"

lemmas setter_defs = setReady_def setBusy_def setStopping_def setStopped_def setUnknown_def
  setUnresponsive_def setKilled_def

lemmas plain_setter_defs = setRecording_def setNotRecording_def incrementTimeoutCount_def
  resetTimeoutCount_def setClient_def setVersion_def setStartTime_def send_call_def

section \<open>Methods\<close>

text \<open>What all methods that talk to the plugin begin with once they are admitted: set the
  plugin busy, connect to it, dispense its implementation.\<close>

definition connect ::
  "plugin_env \<Rightarrow> plugin_instance \<Rightarrow> ((go_error + plugin_kind) \<times> plugin_instance) outcome" where
  "connect env i =
     (case Client env of
        Some e \<Rightarrow> and_then (setUnknown i) (\<lambda>i. Returns (Inl e, i))
      | None \<Rightarrow>
          (case Dispense env of
             Inl e \<Rightarrow> and_then (setUnknown i) (\<lambda>i. Returns (Inl e, i))
           | Inr k \<Rightarrow> Returns (Inr k, i)))"

definition admits :: "plugin_instance \<Rightarrow> bool" where
  "admits i \<longleftrightarrow> \<not> (state i \<noteq> READY \<and> state i \<noteq> UNKNOWN)"

type_synonym method_result = "(go_error option \<times> goroutine option \<times> plugin_instance) outcome"

definition startRecord :: "plugin_env \<Rightarrow> unit reply \<Rightarrow> plugin_instance \<Rightarrow> method_result" where
  "startRecord env r i =
     (if \<not> admits i then Returns (Some ErrPluginNotReady, None, i)
      else if recordState i = RECORDING then Returns (Some ErrAlreadyRecording, None, i)
      else if client i = None then Returns (Some ErrPluginNotStarted, None, i)
      else
        and_then (setBusy i) (\<lambda>i.
        and_then (connect env i) (\<lambda>(raw, i).
        case raw of
          Inl e \<Rightarrow> Returns (Some e, None, i)
        | Inr k \<Rightarrow>
            if k \<noteq> IDatasource then
              and_then (setUnknown i) (\<lambda>i. Returns (Some ErrInvalidPluginType, None, i))
            else
              let i = send_call CallStartRecord i in
              (case r of
                 Failed e \<Rightarrow>
                   and_then (setUnknown i) (\<lambda>i. Returns (Some (from_status e), Some SetUnknown, i))
               | Replied _ \<Rightarrow> and_then (setReady i) (\<lambda>i. Returns (None, Some BeginRecord, i))
               | TimedOut \<Rightarrow>
                   and_then (setUnresponsive i)
                     (\<lambda>i. Returns (Some DeadlineExceeded, Some AwaitStart, i))))))"

definition stopRecord :: "plugin_env \<Rightarrow> unit reply \<Rightarrow> plugin_instance \<Rightarrow> method_result" where
  "stopRecord env r i =
     (if \<not> admits i then Returns (Some ErrPluginNotReady, None, i)
      else if recordState i \<noteq> RECORDING then Returns (Some ErrAlreadyStoppedRecording, None, i)
      else if client i = None then Returns (Some ErrPluginNotStarted, None, i)
      else
        and_then (setBusy i) (\<lambda>i.
        and_then (connect env i) (\<lambda>(raw, i).
        case raw of
          Inl e \<Rightarrow> Returns (Some e, None, i)
        | Inr k \<Rightarrow>
            if k \<noteq> IDatasource then
              and_then (setUnknown i) (\<lambda>i. Returns (Some ErrInvalidPluginType, None, i))
            else
              let i = send_call CallStopRecord i in
              (case r of
                 Failed e \<Rightarrow> and_then (setUnknown i) (\<lambda>i. Returns (Some (from_status e), None, i))
               | Replied _ \<Rightarrow>
                   and_then (setReady (setNotRecording i)) (\<lambda>i. Returns (None, None, i))
               | TimedOut \<Rightarrow>
                   and_then (setUnresponsive i)
                     (\<lambda>i. Returns (Some DeadlineExceeded, Some AwaitStopRecord, i))))))"

definition kill :: "int \<Rightarrow> plugin_instance \<Rightarrow> plugin_instance" where
  "kill now i =
     (case client i of
        None \<Rightarrow> i
      | Some _ \<Rightarrow>
          (send_call CallKill i)\<lparr>client := None, recordState := NOTRECORDING, stoppedAt := now\<rparr>)"

text \<open>The part of \<open>stop\<close> after the attempt to stop the recording.\<close>

definition stop_plugin ::
  "plugin_env \<Rightarrow> unit reply \<Rightarrow> plugin_instance \<Rightarrow> (go_error option \<times> plugin_instance) outcome" where
  "stop_plugin env r i =
     and_then (connect env i) (\<lambda>(raw, i).
     case raw of
       Inl e \<Rightarrow> Returns (Some e, i)
     | Inr k \<Rightarrow>
         if k = IOther then Returns (Some ErrInvalidPluginType, i)
         else
           let i = send_call CallStop i in
           Returns (case r of Replied _ \<Rightarrow> None | Failed e \<Rightarrow> Some (from_status e)
                    | TimedOut \<Rightarrow> Some DeadlineExceeded, i))"

definition stop ::
  "plugin_env \<Rightarrow> unit reply \<Rightarrow> unit reply \<Rightarrow> plugin_instance \<Rightarrow> method_result" where
  "stop env record_reply r i =
     (if state i = STOPPING \<or> state i = STOPPED \<or> state i = KILLED
      then Returns (Some ErrServiceAlreadyStopped, None, i)
      else if client i = None then Returns (Some ErrPluginNotStarted, None, i)
      else
        and_then (setStopping i) (\<lambda>i.
        and_then
          (if recordState i = RECORDING then
             and_then (stopRecord env record_reply i) (\<lambda>(err, g, i).
             if CtxExpired env then and_then (setUnresponsive i) (\<lambda>i. Returns (g, i))
             else if err \<noteq> None then and_then (setUnknown i) (\<lambda>i. Returns (g, i))
             else Returns (g, i))
           else Returns (None, i)) (\<lambda>(g, i).
        and_then (stop_plugin env r i) (\<lambda>(err, i).
        and_then (setStopped (kill (Now env) i)) (\<lambda>i. Returns (err, g, i))))))"

definition command ::
  "plugin_env \<Rightarrow> unit reply \<Rightarrow> frame option \<Rightarrow> plugin_instance \<Rightarrow> method_result" where
  "command env r f i =
     (if \<not> admits i then Returns (Some ErrPluginNotReady, None, i)
      else if client i = None then Returns (Some ErrPluginNotStarted, None, i)
      else
        and_then (setBusy i) (\<lambda>i.
        and_then (connect env i) (\<lambda>(raw, i).
        case raw of
          Inl e \<Rightarrow> Returns (Some e, None, i)
        | Inr k \<Rightarrow>
            if k \<noteq> IController then
              and_then (setUnknown i) (\<lambda>i. Returns (Some ErrInvalidPluginType, None, i))
            else
              let i = send_call (CallCommand f) i in
              (case r of
                 Failed e \<Rightarrow>
                   and_then (setUnknown i) (\<lambda>i. Returns (Some (from_status e), Some SetUnknown, i))
               | Replied _ \<Rightarrow> and_then (setReady i) (\<lambda>i. Returns (None, Some CommandLoop, i))
               | TimedOut \<Rightarrow>
                   and_then (setUnresponsive i)
                     (\<lambda>i. Returns (Some DeadlineExceeded, Some AwaitCommand, i))))))"

definition pushVersion ::
  "string \<Rightarrow> plugin_env \<Rightarrow> unit reply \<Rightarrow> plugin_instance \<Rightarrow> method_result" where
  "pushVersion AppVersion env r i =
     (if \<not> admits i then Returns (Some ErrPluginNotReady, None, i)
      else if client i = None then Returns (Some ErrPluginNotStarted, None, i)
      else
        and_then (setBusy i) (\<lambda>i.
        and_then (connect env i) (\<lambda>(raw, i).
        case raw of
          Inl e \<Rightarrow> Returns (Some e, None, i)
        | Inr k \<Rightarrow>
            if k = IOther then
              and_then (setUnknown i) (\<lambda>i. Returns (Some ErrInvalidPluginType, None, i))
            else
              let i = send_call (CallPushVersion AppVersion) i in
              (case r of
                 Failed e \<Rightarrow> and_then (setUnknown i) (\<lambda>i. Returns (Some (from_status e), None, i))
               | Replied _ \<Rightarrow> and_then (setReady i) (\<lambda>i. Returns (None, None, i))
               | TimedOut \<Rightarrow>
                   and_then (setUnresponsive i) (\<lambda>i. Returns (Some DeadlineExceeded, None, i))))))"

definition getVersion :: "plugin_env \<Rightarrow> string reply \<Rightarrow> plugin_instance \<Rightarrow> method_result" where
  "getVersion env r i =
     (if \<not> admits i then Returns (Some ErrPluginNotReady, None, i)
      else if client i = None then Returns (Some ErrPluginNotStarted, None, i)
      else
        and_then (setBusy i) (\<lambda>i.
        and_then (connect env i) (\<lambda>(raw, i).
        case raw of
          Inl e \<Rightarrow> Returns (Some e, None, i)
        | Inr k \<Rightarrow>
            if k = IOther then
              and_then (setUnknown i) (\<lambda>i. Returns (Some ErrInvalidPluginType, None, i))
            else
              let i = send_call CallGetVersion i in
              (case r of
                 Failed e \<Rightarrow> and_then (setUnknown i) (\<lambda>i. Returns (Some (from_status e), None, i))
               | Replied v \<Rightarrow>
                   and_then (setReady (setVersion v i)) (\<lambda>i. Returns (None, None, i))
               | TimedOut \<Rightarrow>
                   and_then (setUnresponsive i) (\<lambda>i. Returns (Some DeadlineExceeded, None, i))))))"

section \<open>State listeners\<close>

definition subscribeState ::
  "string \<Rightarrow> plugin_instance \<Rightarrow> (go_error + plugin_state chan) \<times> plugin_instance" where
  "subscribeState name i =
     (if has_key (listeners i) name then (Inl ErrAlreadySubscribed, i)
      else let l = \<lparr>IsConnected = True, Signal = make_chan 2\<rparr>
           in (Inr (Signal l), i\<lparr>listeners := AList.update name l (listeners i)\<rparr>))"

definition unsubState :: "string \<Rightarrow> plugin_instance \<Rightarrow> plugin_instance outcome" where
  "unsubState name i =
     (case map_of (listeners i) name of
        None \<Rightarrow> Panics
      | Some l \<Rightarrow>
          Returns (i\<lparr>listeners := AList.update name (l\<lparr>IsConnected := False\<rparr>) (listeners i)\<rparr>))"

section \<open>The goroutines\<close>

datatype go_event = Answer "remote_error option" | DataFrame "frame option" | TimerFires | Proceed

definition EOF_type :: string where
  "EOF_type = ''EOF''"

definition eof_frame :: "int \<Rightarrow> plugin_instance \<Rightarrow> frame" where
  "eof_frame now i =
     \<lparr>Source = Name (cfg i), FrameType = EOF_type, Timestamp = now, Payload = ''''\<rparr>"

text \<open>One step of a goroutine: \<open>None\<close> when the event is not one it waits for. The result is
  what is left of it, the instance, and the outgoing queue.\<close>

fun go_step ::
  "int \<Rightarrow> go_event \<Rightarrow> goroutine \<Rightarrow> plugin_instance \<Rightarrow> queue \<Rightarrow>
     (goroutine option \<times> plugin_instance \<times> queue) outcome option" where
  "go_step now (Answer (Some e)) AwaitStart i q = Some (Returns (Some SetUnknown, i, q))"
| "go_step now (Answer None) AwaitStart i q = Some (Returns (Some BeginRecord, i, q))"
| "go_step now (Answer (Some e)) AwaitCommand i q = Some (Returns (Some SetUnknown, i, q))"
| "go_step now (Answer None) AwaitCommand i q = Some (Returns (Some CommandLoop, i, q))"
| "go_step now (Answer (Some e)) AwaitStopRecord i q =
     Some (and_then (setUnknown i) (\<lambda>i. Returns (None, i, q)))"
| "go_step now (Answer None) AwaitStopRecord i q = Some (Returns (None, setNotRecording i, q))"
| "go_step now Proceed SetUnknown i q =
     Some (and_then (setUnknown i) (\<lambda>i. Returns (None, i, q)))"
| "go_step now Proceed BeginRecord i q = Some (Returns (Some RecordLoop, setRecording i, q))"
| "go_step now TimerFires RecordLoop i q =
     Some (and_then (if recordState i \<noteq> NOTRECORDING then setUnresponsive i else Returns i)
       (\<lambda>i. Returns (None, setNotRecording i, q)))"
| "go_step now (DataFrame None) RecordLoop i q =
     Some (and_then (Push (Some (eof_frame now i)) q) (\<lambda>q. Returns (None, setNotRecording i, q)))"
| "go_step now (DataFrame (Some f)) RecordLoop i q =
     Some (and_then (Push (Some f) q) (\<lambda>q. Returns (Some RecordLoop, i, q)))"
| "go_step now TimerFires CommandLoop i q =
     Some (and_then (setUnresponsive i) (\<lambda>i. Returns (None, i, q)))"
| "go_step now (DataFrame None) CommandLoop i q =
     Some (and_then (Push (Some (eof_frame now i)) q) (\<lambda>q. Returns (None, i, q)))"
| "go_step now (DataFrame (Some f)) CommandLoop i q =
     Some (and_then (Push (Some f) q) (\<lambda>q. Returns (Some CommandLoop, i, q)))"
| "go_step now _ _ i q = None"

fun_cases go_stepE: "go_step now ev g i q = Some r"

section \<open>Announcing a state\<close>

text \<open>
  With a receiver behind every connected listener a setter returns; what it returns is
  \<open>announce\<close>, which the simplifier can look through.
\<close>

definition live :: "plugin_instance \<Rightarrow> bool" where
  "live i \<longleftrightarrow> open_listeners (listeners i) \<and> attended (listeners i)"

definition in_sync :: "plugin_instance \<Rightarrow> bool" where
  "in_sync i \<longleftrightarrow> (\<forall>(n, l) \<in> set (listeners i). IsConnected l \<longrightarrow>
     chan_history (Signal l) = [] \<or> last (chan_history (Signal l)) = state i)"

definition announce :: "plugin_state \<Rightarrow> plugin_instance \<Rightarrow> plugin_instance" where
  "announce s i = i\<lparr>state := s,
     listeners := (case notify s (listeners i) of Returns ls \<Rightarrow> ls | _ \<Rightarrow> listeners i)\<rparr>"

lemma announce_simps [simp]:
  "state (announce s i) = s" "cfg (announce s i) = cfg i" "client (announce s i) = client i"
  "timeoutCnt (announce s i) = timeoutCnt i" "recordState (announce s i) = recordState i"
  "startedAt (announce s i) = startedAt i" "stoppedAt (announce s i) = stoppedAt i"
  "version (announce s i) = version i" "calls (announce s i) = calls i"
  by (simp_all add: announce_def)

lemma live_frame [simp]:
  "live (i\<lparr>client := c\<rparr>) = live i" "live (i\<lparr>recordState := r\<rparr>) = live i"
  "live (i\<lparr>timeoutCnt := n\<rparr>) = live i" "live (i\<lparr>version := v\<rparr>) = live i"
  "live (i\<lparr>calls := cs\<rparr>) = live i" "live (i\<lparr>startedAt := u\<rparr>) = live i"
  "live (i\<lparr>stoppedAt := u\<rparr>) = live i" "live (i\<lparr>state := s\<rparr>) = live i"
  by (simp_all add: live_def)

lemma in_sync_frame [simp]:
  "in_sync (i\<lparr>client := c\<rparr>) = in_sync i" "in_sync (i\<lparr>recordState := r\<rparr>) = in_sync i"
  "in_sync (i\<lparr>timeoutCnt := n\<rparr>) = in_sync i" "in_sync (i\<lparr>version := v\<rparr>) = in_sync i"
  "in_sync (i\<lparr>calls := cs\<rparr>) = in_sync i" "in_sync (i\<lparr>startedAt := u\<rparr>) = in_sync i"
  "in_sync (i\<lparr>stoppedAt := u\<rparr>) = in_sync i"
  by (simp_all add: in_sync_def)

lemma live_send_call [simp]: "live (send_call c i) = live i" "live (setVersion v i) = live i"
    "live (setNotRecording i) = live i" "live (setRecording i) = live i"
  by (simp_all add: plain_setter_defs)

lemma live_kill [simp]: "live (kill now i) = live i"
  by (simp add: kill_def send_call_def split: option.split)

lemma set_state_announce: "live i \<Longrightarrow> set_state s i = Returns (announce s i)"
  using notify_attended [of "listeners i" s]
  by (auto simp: set_state_def updateListeners_def announce_def live_def)

lemma live_announce [simp]: "live i \<Longrightarrow> live (announce s i)"
  using notify_attended [of "listeners i" s] by (auto simp: announce_def live_def)

lemma in_sync_announce [simp]:
  assumes "live i"
  shows "in_sync (announce s i)"
proof -
  from assms obtain ls where ls: "notify s (listeners i) = Returns ls"
    using notify_attended [of "listeners i" s] by (auto simp: live_def)
  from notify_returns [OF ls] have
    "\<forall>(n, l) \<in> set ls. \<exists>h. chan_history (Signal l) = h @ [s]"
    by (auto simp: list_all2_conv_all_nth in_set_conv_nth split_beta) (metis fst_conv snd_conv)
  with ls show ?thesis by (fastforce simp: in_sync_def announce_def)
qed

section \<open>The contract of a method\<close>

text \<open>
  \<open>verdict\<close> is what the five methods that talk to the plugin have in common: the error they
  report and the state they leave the plugin in, as a function of what the plugin answers.
\<close>

definition reached :: "(plugin_kind \<Rightarrow> bool) \<Rightarrow> plugin_env \<Rightarrow> bool" where
  "reached serves env \<longleftrightarrow>
     Client env = None \<and> (\<exists>k. Dispense env = Inr k \<and> serves k)"

definition verdict ::
  "(plugin_kind \<Rightarrow> bool) \<Rightarrow> plugin_env \<Rightarrow> 'r reply \<Rightarrow> go_error option \<times> plugin_state" where
  "verdict serves env r =
     (case Client env of
        Some e \<Rightarrow> (Some e, UNKNOWN)
      | None \<Rightarrow>
          (case Dispense env of
             Inl e \<Rightarrow> (Some e, UNKNOWN)
           | Inr k \<Rightarrow>
               if \<not> serves k then (Some ErrInvalidPluginType, UNKNOWN)
               else (case r of
                       Replied _ \<Rightarrow> (None, READY)
                     | Failed e \<Rightarrow> (Some (from_status e), UNKNOWN)
                     | TimedOut \<Rightarrow> (Some DeadlineExceeded, UNRESPONSIVE))))"

locale plugin_method =
  fixes run :: "plugin_env \<Rightarrow> 'r reply \<Rightarrow> plugin_instance \<Rightarrow> method_result"
    and refuses :: "plugin_instance \<Rightarrow> go_error option"
    and serves :: "plugin_kind \<Rightarrow> bool"
    and sent :: plugin_call
  assumes refused: "refuses i = Some e \<Longrightarrow> run env r i = Returns (Some e, None, i)"
    and admitted: "refuses i = None \<Longrightarrow> admits i \<and> client i \<noteq> None"
    and runs: "refuses i = None \<Longrightarrow> live i \<Longrightarrow>
      \<exists>g i'. run env r i = Returns (fst (verdict serves env r), g, i') \<and>
        state i' = snd (verdict serves env r) \<and> live i' \<and> in_sync i' \<and>
        cfg i' = cfg i \<and> client i' = client i \<and> timeoutCnt i' = timeoutCnt i \<and>
        calls i' = calls i @ (if reached serves env then [sent] else [])"
begin

lemma returns:
  assumes "live i"
  obtains err g i' where "run env r i = Returns (err, g, i')" "live i'" "cfg i' = cfg i"
    "client i' = client i" "timeoutCnt i' = timeoutCnt i"
proof (cases "refuses i")
  case None
  from runs [OF this assms, of env r] that show ?thesis by blast
next
  case (Some e)
  from that [OF refused [OF Some]] assms show ?thesis by simp
qed

lemma contract:
  assumes "live i" and "run env r i = Returns (err, g, i')"
  shows "case refuses i of
      Some e \<Rightarrow> err = Some e \<and> g = None \<and> i' = i
    | None \<Rightarrow> (err, state i') = verdict serves env r \<and> in_sync i' \<and> client i' = client i \<and>
        timeoutCnt i' = timeoutCnt i \<and>
        calls i' = calls i @ (if reached serves env then [sent] else [])"
proof (cases "refuses i")
  case None
  from runs [OF this assms(1), of env r] None assms(2) show ?thesis by (auto simp: prod_eq_iff)
next
  case (Some e)
  from refused [OF Some, of env r] Some assms(2) show ?thesis by simp
qed

lemma settles:
  assumes "live i" and "run env r i = Returns (err, g, i')"
  shows "i' = i \<or> state i' \<in> {READY, UNKNOWN, UNRESPONSIVE}"
  using contract [OF assms]
  by (auto simp: verdict_def split: option.splits sum.splits reply.splits if_splits)

lemma succeeds_ready:
  assumes "live i" and "run env r i = Returns (None, g, i')"
  shows "state i' = READY \<and> calls i' = calls i @ [sent] \<and> client i \<noteq> None \<and> admits i"
  using contract [OF assms] admitted [of i]
  by (auto simp: verdict_def reached_def split: option.splits sum.splits reply.splits if_splits)

lemma timeout_unresponsive:
  assumes "live i" and "refuses i = None" and "reached serves env"
    and "run env TimedOut i = Returns (err, g, i')"
  shows "err = Some DeadlineExceeded \<and> state i' = UNRESPONSIVE"
  using contract [OF assms(1,4)] assms(2,3)
  by (auto simp: verdict_def reached_def)

lemma keeps_sync:
  assumes "live i" and "in_sync i" and "run env r i = Returns (err, g, i')"
  shows "in_sync i'"
  using contract [OF assms(1,3)] assms(2) by (auto split: option.splits)

end

definition record_refuses :: "record_state \<Rightarrow> go_error \<Rightarrow> plugin_instance \<Rightarrow> go_error option" where
  "record_refuses r e i =
     (if \<not> admits i then Some ErrPluginNotReady
      else if recordState i = r then Some e
      else if client i = None then Some ErrPluginNotStarted else None)"

definition plain_refuses :: "plugin_instance \<Rightarrow> go_error option" where
  "plain_refuses i =
     (if \<not> admits i then Some ErrPluginNotReady
      else if client i = None then Some ErrPluginNotStarted else None)"

lemmas method_simps = setter_defs set_state_announce connect_def verdict_def reached_def Let_def
  send_call_def setVersion_def setNotRecording_def

interpretation start_record: plugin_method startRecord
  "record_refuses RECORDING ErrAlreadyRecording" "\<lambda>k. k = IDatasource" CallStartRecord
  by unfold_locales
    (auto simp: record_refuses_def startRecord_def method_simps
      split: if_splits option.split sum.split reply.split)

interpretation stop_record: plugin_method stopRecord
  "record_refuses NOTRECORDING ErrAlreadyStoppedRecording" "\<lambda>k. k = IDatasource" CallStopRecord
  by unfold_locales
    (auto simp: record_refuses_def stopRecord_def method_simps
      split: if_splits option.split sum.split reply.split intro: record_state.exhaust)

interpretation command: plugin_method "\<lambda>env r. command env r f"
  plain_refuses "\<lambda>k. k = IController" "CallCommand f" for f
  by unfold_locales
    (auto simp: plain_refuses_def command_def method_simps
      split: if_splits option.split sum.split reply.split)

interpretation push_version: plugin_method "pushVersion v"
  plain_refuses "\<lambda>k. k \<noteq> IOther" "CallPushVersion v" for v
  by unfold_locales
    (auto simp: plain_refuses_def pushVersion_def method_simps
      split: if_splits option.split sum.split reply.split)

interpretation get_version: plugin_method getVersion plain_refuses "\<lambda>k. k \<noteq> IOther" CallGetVersion
  by unfold_locales
    (auto simp: plain_refuses_def getVersion_def method_simps
      split: if_splits option.split sum.split reply.split)

section \<open>Stopping\<close>

lemma stopRecord_when_stopping:
  "state i = STOPPING \<Longrightarrow> stopRecord env r i = Returns (Some ErrPluginNotReady, None, i)"
  by (simp add: stopRecord_def admits_def)

lemma kill_simps [simp]:
  "client (kill now i) = None" "state (kill now i) = state i" "cfg (kill now i) = cfg i"
  "timeoutCnt (kill now i) = timeoutCnt i"
  by (simp_all add: kill_def send_call_def split: option.split)

lemma kill_Some:
  "client i = Some p \<Longrightarrow> recordState (kill now i) = NOTRECORDING \<and> stoppedAt (kill now i) = now \<and>
     calls (kill now i) = calls i @ [CallKill]"
  by (simp add: kill_def send_call_def)

lemma kill_None: "client i = None \<Longrightarrow> kill now i = i"
  by (simp add: kill_def)

lemma stop_plugin_live:
  assumes "live i"
  shows "\<exists>err i'. stop_plugin env r i = Returns (err, i') \<and> live i' \<and> client i' = client i \<and>
    cfg i' = cfg i \<and> timeoutCnt i' = timeoutCnt i \<and>
    (calls i' = calls i \<or> calls i' = calls i @ [CallStop]) \<and>
    (err = None \<longrightarrow> calls i' = calls i @ [CallStop])"
  using assms
  by (auto simp: stop_plugin_def method_simps split: option.split sum.split reply.split)

lemma stop_refused:
  "state i \<in> {STOPPING, STOPPED, KILLED} \<Longrightarrow>
     stop env rr r i = Returns (Some ErrServiceAlreadyStopped, None, i)"
  "state i \<notin> {STOPPING, STOPPED, KILLED} \<Longrightarrow> client i = None \<Longrightarrow>
     stop env rr r i = Returns (Some ErrPluginNotStarted, None, i)"
  by (auto simp: stop_def)

lemma stop_runs:
  assumes "live i" and "state i \<notin> {STOPPING, STOPPED, KILLED}" and "client i = Some p"
  shows "\<exists>err i'. stop env rr r i = Returns (err, None, i') \<and> live i' \<and> in_sync i' \<and>
    state i' = STOPPED \<and> client i' = None \<and> recordState i' = NOTRECORDING \<and>
    stoppedAt i' = Now env \<and> cfg i' = cfg i \<and> timeoutCnt i' = timeoutCnt i \<and>
    (calls i' = calls i @ [CallKill] \<or> calls i' = calls i @ [CallStop, CallKill]) \<and>
    (err = None \<longrightarrow> calls i' = calls i @ [CallStop, CallKill])"
proof -
  let ?i1 = "announce STOPPING i"
  define i2 where "i2 =
    (if recordState i = RECORDING then
       (if CtxExpired env then announce UNRESPONSIVE ?i1 else announce UNKNOWN ?i1) else ?i1)"
  have i2: "live i2" "client i2 = Some p" "calls i2 = calls i" "cfg i2 = cfg i"
      "timeoutCnt i2 = timeoutCnt i"
    using assms by (simp_all add: i2_def)
  from stop_plugin_live [OF i2(1), of env r] obtain err i3 where i3:
    "stop_plugin env r i2 = Returns (err, i3)" "live i3" "client i3 = Some p"
    "cfg i3 = cfg i" "timeoutCnt i3 = timeoutCnt i"
    "calls i3 = calls i \<or> calls i3 = calls i @ [CallStop]"
    "err = None \<longrightarrow> calls i3 = calls i @ [CallStop]"
    using i2 by auto
  have "stop env rr r i = Returns (err, None, announce STOPPED (kill (Now env) i3))"
    using assms i3(1,2)
    by (cases "recordState i"; cases "CtxExpired env")
      (simp_all add: stop_def setter_defs set_state_announce stopRecord_when_stopping i2_def)
  with i3 kill_Some [OF i3(3), of "Now env"] show ?thesis by auto
qed


text \<open>
  C23. Stopping a running plugin always ends the same way, whatever the plugin answers and
  whether or not the request's context has expired: state \<open>STOPPED\<close>, no client, not
  recording, the process killed exactly once, at the end. No error is reported only when the
  plugin acknowledged \<open>Stop\<close>.
\<close>

theorem stop_ends_with_the_process_killed:
  assumes "live i" and "state i \<notin> {STOPPING, STOPPED, KILLED}" and "client i = Some p"
  shows "\<exists>err i'. stop env rr r i = Returns (err, None, i') \<and> in_sync i' \<and>
    state i' = STOPPED \<and> client i' = None \<and> recordState i' = NOTRECORDING \<and>
    stoppedAt i' = Now env \<and>
    (calls i' = calls i @ [CallKill] \<or> calls i' = calls i @ [CallStop, CallKill]) \<and>
    (err = None \<longrightarrow> calls i' = calls i @ [CallStop, CallKill])"
  using stop_runs [OF assms, of env rr r] by blast

text \<open>
  \<open>stop\<close> means to stop a recording gracefully first, but it sets the state to \<open>STOPPING\<close>
  before it calls \<open>stopRecord\<close>, which only admits \<open>READY\<close> and \<open>UNKNOWN\<close>: the plugin is never
  sent \<open>StopRecord\<close>, even if it is recording and would answer it.
\<close>

theorem stop_never_sends_StopRecord:
  assumes "live i" and "stop env rr r i = Returns (err, g, i')"
  shows "count_list (calls i') CallStopRecord = count_list (calls i) CallStopRecord"
proof (cases "state i \<in> {STOPPING, STOPPED, KILLED} \<or> client i = None")
  case True
  with assms(2) stop_refused [of i env rr r] show ?thesis by auto
next
  case False
  then obtain p where "client i = Some p" by auto
  with False stop_runs [OF assms(1), of p env rr r] assms(2) show ?thesis by auto
qed

lemma go_step_live:
  assumes "live i" and "wf_queue q" and "attended (q_listeners q)"
    and "go_step now ev g i q = Some r"
  shows "\<exists>g' i' q'. r = Returns (g', i', q') \<and> live i' \<and> wf_queue q' \<and> attended (q_listeners q') \<and>
    (in_sync i \<longrightarrow> in_sync i') \<and> client i' = client i \<and> cfg i' = cfg i \<and>
    timeoutCnt i' = timeoutCnt i \<and> calls i' = calls i \<and>
    (state i' = state i \<or> state i' \<in> {UNKNOWN, UNRESPONSIVE})"
  using assms
  by (cases rule: go_stepE)
    (auto simp: setter_defs set_state_announce plain_setter_defs Push_pushed)

lemma stop_keeps_sync:
  assumes "live i" and "in_sync i" and "stop env rr r i = Returns (err, g, i')"
  shows "in_sync i'"
proof (cases "state i \<in> {STOPPING, STOPPED, KILLED} \<or> client i = None")
  case True
  with assms(2,3) stop_refused [of i env rr r] show ?thesis by auto
next
  case False
  then obtain p where "client i = Some p" by auto
  with False stop_runs [OF assms(1), of p env rr r] assms(3) show ?thesis by auto
qed

lemma go_step_keeps_sync:
  assumes "live i" and "in_sync i" and "wf_queue q" and "attended (q_listeners q)"
    and "go_step now ev g0 i q = Some (Returns (g, i', q'))"
  shows "in_sync i'"
  using go_step_live [OF assms(1,3-5)] assms(2) by auto

text \<open>
  A state listener that hears anything hears the current state last: every method and
  every step of a goroutine leaves each connected listener with the current state as the last
  value it was sent.
\<close>

theorem state_listeners_hear_the_last_state:
  assumes "live i" and "in_sync i" and "wf_queue q" and "attended (q_listeners q)"
    and "startRecord env r i = Returns (err, g, i') \<or> stopRecord env r i = Returns (err, g, i') \<or>
      command env r f i = Returns (err, g, i') \<or> pushVersion v env r i = Returns (err, g, i') \<or>
      getVersion env rv i = Returns (err, g, i') \<or> stop env rr r i = Returns (err, g, i') \<or>
      go_step now ev g0 i q = Some (Returns (g, i', q'))"
  shows "in_sync i'"
  using assms(5)
  by (elim disjE)
    (erule start_record.keeps_sync [OF assms(1,2)], erule stop_record.keeps_sync [OF assms(1,2)],
     erule command.keeps_sync [OF assms(1,2)], erule push_version.keeps_sync [OF assms(1,2)],
     erule get_version.keeps_sync [OF assms(1,2)], erule stop_keeps_sync [OF assms(1,2)],
     erule go_step_keeps_sync [OF assms(1-4)])

text \<open>
  The version handshake of a fresh plugin: after a successful \<open>pushVersion\<close> and
  \<open>getVersion\<close> the plugin is \<open>READY\<close>, its version is the one it reported, and it was sent
  exactly the program's version and then the question. If the plugin cannot be reached or
  its answers fail, the error is reported and the plugin is not \<open>READY\<close>.
\<close>

theorem version_handshake:
  assumes "live i" and "plain_refuses i = None"
    and "pushVersion v env r i = Returns (e1, g1, i1)"
    and "e1 = None \<Longrightarrow> getVersion env' r' i1 = Returns (e2, g2, i2)"
  shows "(e1 = None \<and> e2 = None \<longrightarrow> state i2 = READY \<and> r' = Replied (version i2) \<and>
      calls i2 = calls i @ [CallPushVersion v, CallGetVersion]) \<and>
    (e1 \<noteq> None \<longrightarrow> state i1 \<in> {UNKNOWN, UNRESPONSIVE}) \<and>
    (e1 = None \<and> e2 \<noteq> None \<longrightarrow> state i2 \<in> {UNKNOWN, UNRESPONSIVE})"
proof (cases "e1 = None")
  case False
  with push_version.contract [OF assms(1,3)] assms(2) show ?thesis
    by (auto simp: verdict_def split: option.splits sum.splits reply.splits if_splits)
next
  case True
  then have p: "pushVersion v env r i = Returns (None, g1, i1)" using assms(3) by simp
  note ready = push_version.succeeds_ready [OF assms(1) p]
  from push_version.returns [OF assms(1), of v env r] p have l1: "live i1" "client i1 = client i"
    by auto
  note g = assms(4) [OF True]
  from ready l1 have ok: "plain_refuses i1 = None" by (auto simp: plain_refuses_def admits_def)
  show ?thesis
  proof (cases e2)
    case None
    with g have g0: "getVersion env' r' i1 = Returns (None, g2, i2)" by simp
    note fin = get_version.succeeds_ready [OF l1(1) g0]
    have "r' = Replied (version i2)"
      using g0 l1 ok unfolding getVersion_def plain_refuses_def
      by (auto simp: method_simps split: if_splits option.splits sum.splits reply.splits)
    with True None ready fin show ?thesis by simp
  next
    case (Some e)
    with get_version.contract [OF l1(1) g] ok True show ?thesis
      by (auto simp: verdict_def split: option.splits sum.splits reply.splits if_splits)
  qed
qed

section \<open>Witnesses\<close>

definition rsync :: plugin_instance where
  "rsync = \<lparr>cfg = \<lparr>Name = ''rsync'', Type = ''datasource'', ExecName = ''rsync'', Timeout = 30,
       MaxTimeouts = 3\<rparr>,
     client = Some 1, state = READY, timeoutCnt = 0, recordState = RECORDING, startedAt = 5,
     stoppedAt = 0, version = ''1.0'', listeners = [], calls = []\<rparr>"

definition answering :: plugin_env where
  "answering = \<lparr>Client = None, Dispense = Inr IDatasource, Now = 9, CtxExpired = False\<rparr>"

lemma rsync_live: "live rsync" "in_sync rsync" "client rsync = Some 1"
    "state rsync \<notin> {STOPPING, STOPPED, KILLED}"
  by (simp_all add: rsync_def live_def in_sync_def)


theorem stop_ends_with_the_process_killed_witness:
  "\<exists>err i'. stop answering (Replied ()) (Replied ()) rsync = Returns (err, None, i') \<and>
     state i' = STOPPED \<and> client i' = None"
  using stop_ends_with_the_process_killed [OF rsync_live(1,4,3), of answering "Replied ()" "Replied ()"]
  by blast

theorem stop_never_sends_StopRecord_witness:
  "recordState rsync = RECORDING \<and>
   (\<exists>err g i'. stop answering (Replied ()) (Replied ()) rsync = Returns (err, g, i') \<and>
      count_list (calls i') CallStopRecord = 0)"
proof -
  from stop_runs [OF rsync_live(1,4,3), of answering "Replied ()" "Replied ()"] obtain err i' where
    run: "stop answering (Replied ()) (Replied ()) rsync = Returns (err, None, i')" by blast
  from stop_never_sends_StopRecord [OF rsync_live(1) run] run show ?thesis
    by (auto simp: rsync_def)
qed

theorem state_listeners_hear_the_last_state_witness:
  "\<exists>err g i'. stop answering (Replied ()) (Replied ()) rsync = Returns (err, g, i') \<and> in_sync i'"
proof -
  from stop_runs [OF rsync_live(1,4,3), of answering "Replied ()" "Replied ()"] obtain err i' where
    run: "stop answering (Replied ()) (Replied ()) rsync = Returns (err, None, i')" by blast
  have "wf_queue (NewQueue 1)" "attended (q_listeners (NewQueue 1))"
    by (simp_all add: wf_NewQueue) (simp add: NewQueue_def)
  from state_listeners_hear_the_last_state [OF rsync_live(1,2) this, of answering "Replied ()" err
      None i' None "[]" TimedOut "Replied ()" 0 Proceed SetUnknown "NewQueue 1"] run
  show ?thesis by blast
qed

theorem version_handshake_witness:
  "\<exists>i1 i2. pushVersion ''1.0'' answering (Replied ()) rsync = Returns (None, None, i1) \<and>
     getVersion answering (Replied ''2.1'') i1 = Returns (None, None, i2) \<and>
     state i2 = READY \<and> version i2 = ''2.1''"
proof -
  let ?i1 = "announce READY (send_call (CallPushVersion ''1.0'') (announce BUSY rsync))"
  let ?i2 = "announce READY (setVersion ''2.1'' (send_call CallGetVersion (announce BUSY ?i1)))"
  have ok: "plain_refuses rsync = None" by (simp add: plain_refuses_def admits_def rsync_def)
  then have push: "pushVersion ''1.0'' answering (Replied ()) rsync = Returns (None, None, ?i1)"
    using rsync_live(1)
    by (auto simp: pushVersion_def plain_refuses_def setter_defs set_state_announce connect_def
        answering_def split: if_splits)
  have "live ?i1" using rsync_live(1) by simp
  moreover have "client ?i1 \<noteq> None" by (simp add: send_call_def rsync_live(3))
  ultimately have get: "getVersion answering (Replied ''2.1'') ?i1 = Returns (None, None, ?i2)"
    by (simp add: getVersion_def admits_def setter_defs set_state_announce connect_def answering_def)
  from version_handshake [OF rsync_live(1) ok push get] push get show ?thesis by auto
qed

end
