(* ===== verification/MacaroonService.thy ===== *)
theory MacaroonService
  imports GoStrings PluginConfig "HOL-Library.Word"
begin

text \<open>
  Files \<^verbatim>\<open>macaroons/service.go\<close> and \<^verbatim>\<open>macaroons/constraints.go\<close>: the validation of a request's
  macaroon and the caveats that restrict one. The macaroon library is not part of the
  repository: a macaroon is a value of a type parameter, and \<open>bakery\<close> is the record of the
  functions the code calls on it (unmarshalling, its caveats, the authorisation check). A
  request's \<^verbatim>\<open>context.Context\<close> is the record of the values the code reads from it.

  The root keys behind the service are in \<open>RootKeyStorage\<close>.
\<close>

record op =
  Entity :: string
  Action :: string

record rpc_context =
  ctx_md :: "string list option"
  ctx_plugin :: "string option"
  ctx_root_key_id :: "string option"

record 'mac bakery =
  Unmarshal :: "string \<Rightarrow> go_error + 'mac"
  Caveats :: "'mac \<Rightarrow> string list"
  Allow :: "rpc_context \<Rightarrow> 'mac \<Rightarrow> op list \<Rightarrow> go_error option"

text \<open>The interface \<^verbatim>\<open>MacaroonValidator\<close>: a validator accepts (\<open>None\<close>), refuses or panics.\<close>

type_synonym validator = "rpc_context \<Rightarrow> op list \<Rightarrow> string \<Rightarrow> go_error option outcome"

record mac_service =
  ExternalValidators :: "validator gomap"
  registeredPlugins :: "string list"

definition PermissionEntityCustomURI :: string where
  "PermissionEntityCustomURI = ''uri''"

definition knownPluginMethods :: "string list" where
  "knownPluginMethods =
     [''/lanirpc.PluginAPI/StartRecord'', ''/lanirpc.PluginAPI/StopRecord'',
      ''/lanirpc.PluginAPI/Subscribe'', ''/lanirpc.PluginAPI/StartPlugin'',
      ''/lanirpc.PluginAPI/StopPlugin'', ''/lanirpc.PluginAPI/Command'',
      ''/lanirpc.PluginAPI/GetPlugin'', ''/lanirpc.PluginAPI/SubscribePluginState'']"

text \<open>The custom checkers \<open>InitService\<close> registers, each once under the namespace \<^verbatim>\<open>std\<close>.\<close>

record checker_info =
  ci_name :: string
  ci_prefix :: string
  ci_namespace :: string

definition isRegistered :: "checker_info list \<Rightarrow> string \<Rightarrow> bool" where
  "isRegistered infos name \<longleftrightarrow>
     (\<exists>i \<in> set infos. ci_name i = name \<and> ci_prefix i = '''' \<and> ci_namespace i = ''std'')"

fun register_checks :: "string list \<Rightarrow> checker_info list \<Rightarrow> checker_info list" where
  "register_checks [] infos = infos"
| "register_checks (cond # checks) infos =
     register_checks checks
       (if \<not> isRegistered infos cond
        then infos @ [\<lparr>ci_name = cond, ci_prefix = '''', ci_namespace = ''std''\<rparr>] else infos)"

definition RegisterExternalValidator ::
  "string \<Rightarrow> validator option \<Rightarrow> mac_service \<Rightarrow> go_error option \<times> mac_service" where
  "RegisterExternalValidator fullMethod v svc =
     (case v of
        None \<Rightarrow> (Some ErrValidatorNil, svc)
      | Some v \<Rightarrow>
          if has_key (ExternalValidators svc) fullMethod
          then (Some ErrValidatorMethodAlreadyRegistered, svc)
          else (None, svc\<lparr>ExternalValidators :=
                  AList.update fullMethod v (ExternalValidators svc)\<rparr>))"

section \<open>Validation\<close>

text \<open>One caveat: \<^verbatim>\<open>split[2]\<close> panics when the caveat has two words only.\<close>

definition caveat_allows :: "string \<Rightarrow> string \<Rightarrow> bool outcome" where
  "caveat_allows reqPlugName caveat =
     (case split CHR '' '' caveat of
        _ # w # rest \<Rightarrow>
          if w = ''plugins'' then
            (case rest of
               [] \<Rightarrow> Panics
             | names # _ \<Rightarrow>
                 if contains names '':'' then
                   Returns (StrInStrSlice (split CHR '':'' names) reqPlugName)
                 else Returns (contains reqPlugName names \<or> names = ''all''))
          else Returns False
      | _ \<Rightarrow> Returns False)"

fun plugin_check :: "string \<Rightarrow> string list \<Rightarrow> bool \<Rightarrow> bool outcome" where
  "plugin_check reqPlugName [] okP = Returns okP"
| "plugin_check reqPlugName (c # cs) okP =
     and_then (caveat_allows reqPlugName c) (\<lambda>ok. plugin_check reqPlugName cs (ok \<or> okP))"

text \<open>The part of \<open>ValidateMacaroon\<close> for the plugin methods: \<open>None\<close> lets the request pass.\<close>

definition authorize_plugin ::
  "mac_service \<Rightarrow> rpc_context \<Rightarrow> string list \<Rightarrow> string \<Rightarrow> go_error option outcome" where
  "authorize_plugin svc ctx cavs fullMethod =
     (if StrInStrSlice knownPluginMethods fullMethod then
        (case ctx_plugin ctx of
           None \<Rightarrow> Returns (Some ErrKeyNotInContext)
         | Some reqPlugName \<Rightarrow>
             if reqPlugName = '''' then Returns (Some ErrKeyNotInContext)
             else if registeredPlugins svc \<noteq> [] then
               and_then (plugin_check reqPlugName cavs False) (\<lambda>okP.
                 Returns (if okP then None else Some ErrUnauthorizedPluginAction))
             else Returns None)
      else Returns None)"

definition ValidateMacaroon :: "'mac bakery \<Rightarrow> mac_service \<Rightarrow> validator" where
  "ValidateMacaroon bk svc ctx requiredPermissions fullMethod =
     (case ctx_md ctx of
        None \<Rightarrow> Returns (Some ErrMetadataFromContext)
      | Some [m] \<Rightarrow>
          (case hex_decode m of
             Inl e \<Rightarrow> Returns (Some e)
           | Inr macBytes \<Rightarrow>
               (case Unmarshal bk macBytes of
                  Inl e \<Rightarrow> Returns (Some e)
                | Inr mac \<Rightarrow>
                    and_then (authorize_plugin svc ctx (Caveats bk mac) fullMethod) (\<lambda>e.
                    case e of
                      Some err \<Rightarrow> Returns (Some err)
                    | None \<Rightarrow>
                        if Allow bk ctx mac requiredPermissions = None then Returns None
                        else Returns (Allow bk ctx mac
                          [\<lparr>Entity = PermissionEntityCustomURI, Action = fullMethod\<rparr>]))))
      | Some _ \<Rightarrow> Returns (Some ErrUnexpectedMacNumber))"

definition ContextWithRootKeyId :: "rpc_context \<Rightarrow> string \<Rightarrow> rpc_context" where
  "ContextWithRootKeyId ctx k = ctx\<lparr>ctx_root_key_id := Some k\<rparr>"

text \<open>\<open>NewMacaroon\<close>: the oven of the library bakes from the context, the caveats and the
  operations.\<close>

definition NewMacaroon ::
  "(rpc_context \<Rightarrow> string list \<Rightarrow> op list \<Rightarrow> go_error + 'mac) \<Rightarrow>
     rpc_context \<Rightarrow> string \<Rightarrow> string list \<Rightarrow> op list \<Rightarrow> go_error + 'mac" where
  "NewMacaroon oven ctx rootKeyId cav ops =
     (if rootKeyId = '''' then Inl ErrMissingRootKeyID
      else let ctx = ContextWithRootKeyId ctx rootKeyId in
           if cav = [] then oven ctx [] ops else oven ctx cav ops)"

section \<open>Caveats\<close>

text \<open>\<^verbatim>\<open>checkers.DeclaredCaveat\<close> and \<^verbatim>\<open>checkers.Condition\<close> belong to the library; they are
  parameters, with the format their documentation gives.\<close>

definition declared_format :: "(string \<Rightarrow> string \<Rightarrow> string) \<Rightarrow> bool" where
  "declared_format DeclaredCaveat \<longleftrightarrow>
     (\<forall>key value. key \<noteq> [] \<longrightarrow> CHR '' '' \<notin> set key \<longrightarrow>
        DeclaredCaveat key value = ''declared '' @ key @ '' '' @ value)"

definition condition_format :: "(string \<Rightarrow> string \<Rightarrow> string) \<Rightarrow> bool" where
  "condition_format Condition \<longleftrightarrow>
     (\<forall>name arg. arg \<noteq> [] \<longrightarrow> Condition name arg = name @ '' '' @ arg)"

definition PluginCaveat :: "(string \<Rightarrow> string \<Rightarrow> string) \<Rightarrow> string list \<Rightarrow> string" where
  "PluginCaveat DeclaredCaveat pluginNames =
     (case pluginNames of
        [p] \<Rightarrow> DeclaredCaveat ''plugins'' p
      | _ \<Rightarrow> DeclaredCaveat ''plugins'' (join CHR '':'' pluginNames))"

text \<open>The expiry of a timeout: \<^verbatim>\<open>time.Duration\<close> is a 64-bit count of nanoseconds, so the
  product with \<^verbatim>\<open>time.Second\<close> wraps. \<open>now\<close> is the clock, in nanoseconds.\<close>

definition timeout_duration :: "64 word \<Rightarrow> 64 word" where
  "timeout_duration seconds = 1000000000 * seconds"

definition TimeoutCaveat :: "(int \<Rightarrow> string) \<Rightarrow> int \<Rightarrow> 64 word \<Rightarrow> string" where
  "TimeoutCaveat TimeBeforeCaveat now seconds =
     TimeBeforeCaveat (now + sint (timeout_duration seconds))"

text \<open>A constraint adds a caveat to a macaroon; adding one is the library's.\<close>

type_synonym 'mac constraint = "'mac \<Rightarrow> go_error + 'mac"

definition TimeoutConstraint ::
  "('mac \<Rightarrow> string \<Rightarrow> go_error + 'mac) \<Rightarrow> (int \<Rightarrow> string) \<Rightarrow> int \<Rightarrow> 64 word \<Rightarrow> 'mac constraint" where
  "TimeoutConstraint AddFirstPartyCaveat TimeBeforeCaveat now seconds mac =
     AddFirstPartyCaveat mac (TimeoutCaveat TimeBeforeCaveat now seconds)"

definition PluginConstraint ::
  "('mac \<Rightarrow> string \<Rightarrow> go_error + 'mac) \<Rightarrow> (string \<Rightarrow> string \<Rightarrow> string) \<Rightarrow> string list \<Rightarrow>
     'mac constraint" where
  "PluginConstraint AddFirstPartyCaveat Condition pluginNames mac =
     (if pluginNames \<noteq> [] then
        if \<not> list_all ValidatePluginName pluginNames then Inl ErrInvalidPluginName
        else AddFirstPartyCaveat mac (Condition ''plugins'' (join CHR '':'' pluginNames))
      else Inr mac)"

fun AddConstraints :: "'mac \<Rightarrow> 'mac constraint list \<Rightarrow> go_error + 'mac" where
  "AddConstraints newMac [] = Inr newMac"
| "AddConstraints newMac (constraint # cs) =
     (case constraint newMac of Inl e \<Rightarrow> Inl e | Inr m \<Rightarrow> AddConstraints m cs)"

section \<open>What a caveat allows\<close>

lemma split_three:
  assumes "CHR '' '' \<notin> set a" and "CHR '' '' \<notin> set b" and "CHR '' '' \<notin> set c"
  shows "split CHR '' '' (a @ CHR '' '' # b @ CHR '' '' # c) = [a, b, c]"
  using assms by (simp add: split_append split_word)

lemma declared_caveat:
  assumes "declared_format D"
  shows "D ''plugins'' v = ''declared'' @ CHR '' '' # ''plugins'' @ CHR '' '' # v"
  using declared_format_def [THEN iffD1, OF assms, rule_format, of "''plugins''" v] by simp

lemma caveat_allows_declared:
  assumes "declared_format D" and "CHR '' '' \<notin> set v"
  shows "caveat_allows p (D ''plugins'' v) =
    Returns (if CHR '':'' \<in> set v then p \<in> set (split CHR '':'' v)
             else contains p v \<or> v = ''all'')"
proof -
  have "split CHR '' '' (D ''plugins'' v) = [''declared'', ''plugins'', v]"
    unfolding declared_caveat [OF assms(1)] by (rule split_three) (use assms(2) in auto)
  then show ?thesis by (simp add: caveat_allows_def contains_char)
qed

lemma plain_name: "ValidatePluginName n \<Longrightarrow> CHR '' '' \<notin> set n \<and> CHR '':'' \<notin> set n"
  using ValidatePluginName_plain [of n "CHR '' ''"] ValidatePluginName_plain [of n "CHR '':''"]
  by (auto simp: separators_def)

lemma join_no_blank:
  assumes "\<forall>n \<in> set ns. ValidatePluginName n"
  shows "CHR '' '' \<notin> set (join CHR '':'' ns)"
proof
  assume "CHR '' '' \<in> set (join CHR '':'' ns)"
  then have "CHR '' '' \<in> insert CHR '':'' (\<Union>n \<in> set ns. set n)"
    using set_join [of "CHR '':''" ns] by blast
  with assms plain_name show False by auto
qed

lemma plugin_check_True: "plugin_check p cs okP = Returns b \<Longrightarrow> okP \<Longrightarrow> b"
  by (induction cs arbitrary: okP) (auto simp: outcome_simps)

lemma plugin_check_iff:
  "plugin_check p cs okP = Returns b \<Longrightarrow>
     b \<longleftrightarrow> okP \<or> (\<exists>c \<in> set cs. caveat_allows p c = Returns True)"
  by (induction cs arbitrary: okP) (auto simp: outcome_simps dest: plugin_check_True)

lemma plugin_check_Panics:
  "plugin_check p cs okP = Panics \<longleftrightarrow> (\<exists>c \<in> set cs. caveat_allows p c = Panics)"
  by (induction cs arbitrary: okP)
    (auto simp: outcome_simps caveat_allows_def split: list.splits)

lemma caveat_allows_Panics:
  "caveat_allows p c = Panics \<longleftrightarrow> (\<exists>w. split CHR '' '' c = [w, ''plugins''])"
  by (auto simp: caveat_allows_def split: list.splits)

lemma caveat_allows_not_Blocks: "caveat_allows p c \<noteq> Blocks"
  by (auto simp: caveat_allows_def split: list.splits)

lemma plugin_check_returns:
  "(\<forall>c \<in> set cs. caveat_allows p c \<noteq> Panics) \<Longrightarrow> \<exists>b. plugin_check p cs okP = Returns b"
proof (induction cs arbitrary: okP)
  case (Cons c cs)
  then obtain b where "caveat_allows p c = Returns b"
    using caveat_allows_not_Blocks [of p c] by (cases "caveat_allows p c") auto
  with Cons show ?case by simp
qed simp

lemma authorize_plugin_cases:
  assumes "fullMethod \<in> set knownPluginMethods" and "ctx_plugin ctx = Some p" and "p \<noteq> ''''"
    and "registeredPlugins svc \<noteq> []"
  shows "authorize_plugin svc ctx cavs fullMethod =
    and_then (plugin_check p cavs False)
      (\<lambda>ok. Returns (if ok then None else Some ErrUnauthorizedPluginAction))"
  using assms by (simp add: authorize_plugin_def)

section \<open>Properties\<close>

text \<open>
  What the plugin caveat of a baked macaroon means when a request for the plugin \<open>p\<close> is
  validated: a caveat for two or more (valid) plugin names allows exactly these plugins; a
  caveat for a single name allows every plugin whose name contains it, and all of them if the
  name is \<^verbatim>\<open>all\<close>.
\<close>

theorem plugin_caveat_meaning:
  assumes "declared_format D" and "ns \<noteq> []" and "\<forall>n \<in> set ns. ValidatePluginName n"
  shows "caveat_allows p (PluginCaveat D ns) =
    Returns (if length ns = 1 then contains p (hd ns) \<or> hd ns = ''all'' else p \<in> set ns)"
proof (cases "length ns = 1")
  case True
  then obtain n where ns: "ns = [n]" by (auto simp: length_Suc_conv)
  with assms(3) plain_name [of n] show ?thesis
    by (simp add: PluginCaveat_def caveat_allows_declared [OF assms(1)])
next
  case False
  with assms(2) have two: "2 \<le> length ns" by (cases ns rule: list.exhaust) (auto simp: Suc_le_eq)
  then have "PluginCaveat D ns = D ''plugins'' (join CHR '':'' ns)"
    by (auto simp: PluginCaveat_def split: list.split)
  moreover have "split CHR '':'' (join CHR '':'' ns) = ns"
    using assms(2,3) plain_name by (intro split_join) auto
  ultimately show ?thesis
    using False sep_in_join [OF two, of "CHR '':''"] join_no_blank [OF assms(3)]
    by (simp add: caveat_allows_declared [OF assms(1)])
qed

lemma validated_means_allowed:
  assumes "ValidateMacaroon bk svc ctx perms m = Returns None"
  shows "\<exists>v bs mac. ctx_md ctx = Some [v] \<and> hex_decode v = Inr bs \<and> Unmarshal bk bs = Inr mac \<and>
    (Allow bk ctx mac perms = None \<or> Allow bk ctx mac [\<lparr>Entity = ''uri'', Action = m\<rparr>] = None) \<and>
    (m \<in> set knownPluginMethods \<and> registeredPlugins svc \<noteq> [] \<longrightarrow>
      (\<exists>p c. ctx_plugin ctx = Some p \<and> p \<noteq> '''' \<and> c \<in> set (Caveats bk mac) \<and>
        caveat_allows p c = Returns True))"
proof -
  from assms obtain v bs mac where
    dec: "ctx_md ctx = Some [v]" "hex_decode v = Inr bs" "Unmarshal bk bs = Inr mac"
    and auth: "authorize_plugin svc ctx (Caveats bk mac) m = Returns None"
    and ok: "Allow bk ctx mac perms = None \<or>
      Allow bk ctx mac [\<lparr>Entity = ''uri'', Action = m\<rparr>] = None"
    by (auto simp: ValidateMacaroon_def outcome_simps PermissionEntityCustomURI_def
        split: option.splits list.splits sum.splits if_splits)
  moreover have "\<exists>p c. ctx_plugin ctx = Some p \<and> p \<noteq> '''' \<and> c \<in> set (Caveats bk mac) \<and>
      caveat_allows p c = Returns True"
    if "m \<in> set knownPluginMethods" "registeredPlugins svc \<noteq> []"
    using auth that plugin_check_iff [of _ "Caveats bk mac" False True]
    by (auto simp: authorize_plugin_def outcome_simps split: option.splits if_splits)
  ultimately show ?thesis by blast
qed


text \<open>
  The plugin caveats are read before the macaroon's signature is checked, and a caveat of
  exactly two words whose second is \<^verbatim>\<open>plugins\<close> makes the index \<^verbatim>\<open>split[2]\<close> panic: whatever the
  bakery would say of the macaroon, forged or not, such a request to a plugin method panics.
\<close>

theorem two_word_caveat_panics:
  assumes "ctx_md ctx = Some [hex_encode bs]" and "Unmarshal bk bs = Inr mac"
    and "w @ '' plugins'' \<in> set (Caveats bk mac)" and "CHR '' '' \<notin> set w"
    and "m \<in> set knownPluginMethods" and "ctx_plugin ctx = Some p" and "p \<noteq> ''''"
    and "registeredPlugins svc \<noteq> []"
  shows "ValidateMacaroon bk svc ctx perms m = Panics"
proof -
  have "split CHR '' '' (w @ CHR '' '' # ''plugins'') = [w, ''plugins'']"
    using assms(4) by (simp add: split_append)
  then have "caveat_allows p (w @ '' plugins'') = Panics" by (simp add: caveat_allows_Panics)
  with assms(3) have "plugin_check p (Caveats bk mac) False = Panics"
    unfolding plugin_check_Panics by blast
  then have "authorize_plugin svc ctx (Caveats bk mac) m = Panics"
    by (simp add: authorize_plugin_cases [OF assms(5-8)])
  then show ?thesis
    using assms(1,2) by (simp add: ValidateMacaroon_def hex_decode_encode)
qed

text \<open>
  Caveats do not attenuate the plugin restriction, they widen it: a macaroon that may use a
  plugin still may after any further caveats are added (provided these do not panic), and
  adding a caveat with second word \<^verbatim>\<open>plugins\<close> and third word \<^verbatim>\<open>all\<close> opens every plugin.
\<close>

theorem added_caveats_only_widen:
  assumes "m \<in> set knownPluginMethods" and "ctx_plugin ctx = Some p" and "p \<noteq> ''''"
    and "registeredPlugins svc \<noteq> []" and "\<forall>c \<in> set (cavs @ extra). caveat_allows p c \<noteq> Panics"
  shows "(authorize_plugin svc ctx cavs m = Returns None \<longrightarrow>
      authorize_plugin svc ctx (cavs @ extra) m = Returns None) \<and>
    (\<forall>w. CHR '' '' \<notin> set w \<and> w @ '' plugins all'' \<in> set extra \<longrightarrow>
      authorize_plugin svc ctx (cavs @ extra) m = Returns None)"
proof -
  obtain b where b: "plugin_check p (cavs @ extra) False = Returns b"
    using plugin_check_returns [OF assms(5)] by blast
  obtain b0 where b0: "plugin_check p cavs False = Returns b0"
    using plugin_check_returns [of cavs p] assms(5) by auto
  note auth = authorize_plugin_cases [OF assms(1-4)]
  have "b" if "b0" using that plugin_check_iff [OF b] plugin_check_iff [OF b0] by auto
  moreover have "b" if w: "CHR '' '' \<notin> set w" "w @ '' plugins all'' \<in> set extra" for w
  proof -
    have "split CHR '' '' (w @ CHR '' '' # ''plugins'' @ CHR '' '' # ''all'') =
        [w, ''plugins'', ''all'']"
      using w(1) by (intro split_three) auto
    then have "caveat_allows p (w @ '' plugins all'') = Returns True"
      by (simp add: caveat_allows_def contains_char)
    with w(2) plugin_check_iff [OF b] show ?thesis by auto
  qed
  ultimately show ?thesis by (auto simp: auth b b0 split: if_splits)
qed

text \<open>
  The caveat that \<open>PluginConstraint\<close> adds has its keyword first, where the validation does
  not look: it allows no plugin at all, not even the ones it lists.
\<close>

theorem plugin_constraint_allows_nothing:
  assumes "condition_format Cond" and "ns \<noteq> []" and "ns \<noteq> [''plugins'']"
    and "PluginConstraint (\<lambda>cs c. Inr (cs @ [c])) Cond ns cavs = Inr cavs'"
  shows "\<exists>c. cavs' = cavs @ [c] \<and> (\<forall>p. caveat_allows p c = Returns False)"
proof -
  from assms(2,4) have valid: "\<forall>n \<in> set ns. ValidatePluginName n"
    and cavs': "cavs' = cavs @ [Cond ''plugins'' (join CHR '':'' ns)]"
    by (auto simp: PluginConstraint_def list_all_iff split: if_splits)
  have nonempty: "join CHR '':'' ns \<noteq> []" and not_kw: "join CHR '':'' ns \<noteq> ''plugins''"
  proof -
    have s: "split CHR '':'' (join CHR '':'' ns) = ns"
      using assms(2) valid plain_name by (intro split_join) auto
    show "join CHR '':'' ns \<noteq> ''plugins''" using s assms(3) by auto
    show "join CHR '':'' ns \<noteq> []" using s valid by (auto simp: ValidatePluginName_iff)
  qed
  then have "Cond ''plugins'' (join CHR '':'' ns) = ''plugins'' @ CHR '' '' # join CHR '':'' ns"
    using assms(1) by (simp add: condition_format_def)
  then have "split CHR '' '' (Cond ''plugins'' (join CHR '':'' ns)) =
      [''plugins'', join CHR '':'' ns]"
    using join_no_blank [OF valid] by (simp add: split_append split_word)
  with not_kw cavs' show ?thesis by (simp add: caveat_allows_def)
qed

section \<open>Witnesses\<close>

text \<open>An instance of the library: a macaroon is the list of its caveats, separated by commas on
  the wire, and the bakery allows nothing.\<close>

definition demo_bakery :: "go_error option \<Rightarrow> string list bakery" where
  "demo_bakery verdict =
     \<lparr>Unmarshal = (\<lambda>bs. Inr (split CHR '','' bs)), Caveats = (\<lambda>m. m),
      Allow = (\<lambda>_ _ _. verdict)\<rparr>"

definition demo_declared :: "string \<Rightarrow> string \<Rightarrow> string" where
  "demo_declared key value = ''declared '' @ key @ '' '' @ value"

definition demo_condition :: "string \<Rightarrow> string \<Rightarrow> string" where
  "demo_condition name arg = name @ '' '' @ arg"

definition demo_service :: mac_service where
  "demo_service = \<lparr>ExternalValidators = [], registeredPlugins = [''rsync'', ''fluke'']\<rparr>"

definition demo_context :: "string \<Rightarrow> string \<Rightarrow> rpc_context" where
  "demo_context wire plugin =
     \<lparr>ctx_md = Some [hex_encode wire], ctx_plugin = Some plugin, ctx_root_key_id = None\<rparr>"

definition start_record_method :: string where
  "start_record_method = ''/lanirpc.PluginAPI/StartRecord''"

lemma demo_formats: "declared_format demo_declared" "condition_format demo_condition"
  by (simp_all add: declared_format_def demo_declared_def condition_format_def demo_condition_def)

lemma demo_method: "start_record_method \<in> set knownPluginMethods"
  by (simp add: start_record_method_def knownPluginMethods_def)

lemma demo_names: "ValidatePluginName ''rsync''" "ValidatePluginName ''fluke''"
  by code_simp+

theorem plugin_caveat_meaning_witness:
  "caveat_allows ''rsync2'' (PluginCaveat demo_declared [''rsync'']) = Returns True \<and>
   caveat_allows ''rsync2'' (PluginCaveat demo_declared [''rsync'', ''fluke'']) = Returns False"
  using plugin_caveat_meaning [OF demo_formats(1), of "[''rsync'']" "''rsync2''"]
    plugin_caveat_meaning [OF demo_formats(1), of "[''rsync'', ''fluke'']" "''rsync2''"] demo_names
  by simp


theorem two_word_caveat_panics_witness:
  "ValidateMacaroon (demo_bakery (Some (Foreign ''bad signature''))) demo_service
     (demo_context ''x plugins'' ''rsync'') [] start_record_method = Panics"
  by (rule two_word_caveat_panics [where bs = "''x plugins''" and mac = "[''x plugins'']" and
        w = "''x''" and p = "''rsync''"])
    (simp_all add: demo_context_def demo_bakery_def demo_method demo_service_def)

theorem added_caveats_only_widen_witness:
  "authorize_plugin demo_service (demo_context '''' ''fluke'') [''declared plugins rsync'']
     start_record_method = Returns (Some ErrUnauthorizedPluginAction) \<and>
   authorize_plugin demo_service (demo_context '''' ''fluke'')
     ([''declared plugins rsync''] @ [''x plugins all'']) start_record_method = Returns None"
proof -
  have "\<forall>c \<in> set ([''declared plugins rsync''] @ [''x plugins all'']).
      caveat_allows ''fluke'' c \<noteq> Panics"
    by (simp add: caveat_allows_def)
  from added_caveats_only_widen [OF demo_method _ _ _ this, of "demo_context '''' ''fluke''"
      demo_service]
  have "\<forall>w. CHR '' '' \<notin> set w \<and> w @ '' plugins all'' \<in> set [''x plugins all''] \<longrightarrow>
      authorize_plugin demo_service (demo_context '''' ''fluke'')
        ([''declared plugins rsync''] @ [''x plugins all'']) start_record_method = Returns None"
    by (simp add: demo_context_def demo_service_def)
  from this [rule_format, of "''x''"] show ?thesis
    by (simp add: authorize_plugin_def demo_method demo_context_def demo_service_def
        caveat_allows_def)
qed

theorem plugin_constraint_allows_nothing_witness:
  "caveat_allows ''rsync'' (demo_condition ''plugins'' ''rsync'') = Returns False"
proof -
  have "PluginConstraint (\<lambda>cs c. Inr (cs @ [c])) demo_condition [''rsync''] [] =
      Inr [demo_condition ''plugins'' ''rsync'']"
    using demo_names(1) by (simp add: PluginConstraint_def)
  from plugin_constraint_allows_nothing [OF demo_formats(2) _ _ this] show ?thesis by simp
qed

end
