(* ===== verification/RootKeyStorage.thy ===== *)
theory RootKeyStorage
  imports MacaroonService
begin

text \<open>
  File \<^verbatim>\<open>macaroons/storage.go\<close>: the root keys of the macaroons, kept encrypted in a bucket of
  the bbolt database together with the encryption key that a password unlocks. The two
  libraries are parameters: \<open>bolt\<close> (what committing or rolling back a transaction, writing and
  deleting an entry do) and \<open>snacl\<close> (password-derived keys), each with the laws its
  documentation promises as a predicate, which the theorems name as hypotheses. A bucket is
  observed as the list of its entries.

  The closure given to \<^verbatim>\<open>db.Update\<close> changes the struct's field \<open>encKey\<close> directly: a rollback
  restores the bucket, not the field.
\<close>

type_synonym bucket = "string gomap"

record bolt =
  Finish :: "go_error option \<Rightarrow> bucket option \<Rightarrow> bucket option \<Rightarrow> go_error option \<times> bucket option"
  Put :: "string \<Rightarrow> string \<Rightarrow> bucket \<Rightarrow> go_error + bucket"
  Delete :: "string \<Rightarrow> bucket \<Rightarrow> go_error + bucket"

record 'k snacl =
  NewSecretKey :: "string \<Rightarrow> nat \<Rightarrow> go_error + 'k"
  Marshal :: "'k \<Rightarrow> string"
  UnmarshalKey :: "string \<Rightarrow> go_error + 'k"
  DeriveKey :: "'k \<Rightarrow> string \<Rightarrow> go_error + 'k"
  Encrypt :: "'k \<Rightarrow> nat \<Rightarrow> string \<Rightarrow> go_error + string"
  Decrypt :: "'k \<Rightarrow> string \<Rightarrow> go_error + string"

text \<open>bbolt: an error in the closure rolls the transaction back and is returned; otherwise the
  transaction is committed, or the commit fails and nothing is written.\<close>

definition bolt_laws :: "bolt \<Rightarrow> bool" where
  "bolt_laws db \<longleftrightarrow>
     (\<forall>e old new. Finish db (Some e) old new = (Some e, old)) \<and>
     (\<forall>old new. Finish db None old new = (None, new) \<or>
        (\<exists>e. Finish db None old new = (Some e, old))) \<and>
     (\<forall>k v b b'. Put db k v b = Inr b' \<longrightarrow> map_of b' = (map_of b)(k \<mapsto> v)) \<and>
     (\<forall>k b b'. Delete db k b = Inr b' \<longrightarrow> map_of b' = (map_of b)(k := None))"

text \<open>snacl: a marshalled key is not empty and comes back, without its secret, when it is
  unmarshalled; deriving the secret succeeds for the right password only; what a key
  encrypted it decrypts, and a key with another salt or password does not.\<close>

definition snacl_laws :: "'k snacl \<Rightarrow> bool" where
  "snacl_laws S \<longleftrightarrow>
     (\<forall>pw n k. NewSecretKey S pw n = Inr k \<longrightarrow> Marshal S k \<noteq> [] \<and>
        (\<exists>k0. UnmarshalKey S (Marshal S k) = Inr k0 \<and> DeriveKey S k0 pw = Inr k \<and>
           (\<forall>pw'. pw' \<noteq> pw \<longrightarrow> (\<exists>e. DeriveKey S k0 pw' = Inl e)))) \<and>
     (\<forall>k n p c. Encrypt S k n p = Inr c \<longrightarrow> c \<noteq> [] \<and> Decrypt S k c = Inr p \<and>
        (\<forall>k'. k' \<noteq> k \<longrightarrow> (\<exists>e. Decrypt S k' c = Inl e)))"

record 'k rks =
  Bucket :: "bucket option"
  encKey :: "'k option"

definition RootKeyLen :: nat where
  "RootKeyLen = 32"

definition DefaultRootKeyID :: string where
  "DefaultRootKeyID = ''0''"

definition encryptionKeyID :: string where
  "encryptionKeyID = ''enckey''"

type_synonym ('a, 'k) store_result = "(go_error + 'a) \<times> 'k rks"

definition Update :: "bolt \<Rightarrow> ('k rks \<Rightarrow> ('a, 'k) store_result) \<Rightarrow> 'k rks \<Rightarrow> ('a, 'k) store_result" where
  "Update db f r =
     (case f r of (res, r1) \<Rightarrow>
        (case Finish db (case res of Inl e \<Rightarrow> Some e | Inr _ \<Rightarrow> None) (Bucket r) (Bucket r1) of
           (Some e, b) \<Rightarrow> (Inl e, r1\<lparr>Bucket := b\<rparr>)
         | (None, b) \<Rightarrow> (res, r1\<lparr>Bucket := b\<rparr>)))"

text \<open>\<^verbatim>\<open>bucket.Get(kid)\<close>: \<^verbatim>\<open>nil\<close> and the empty value are told apart by \<open>DeleteMacaroonID\<close> only.\<close>

definition bget :: "bucket \<Rightarrow> string \<Rightarrow> string" where
  "bget b k = (case map_of b k of Some v \<Rightarrow> v | None \<Rightarrow> [])"

section \<open>Operations\<close>

definition InitRootKeyStorage :: "bolt \<Rightarrow> bucket option \<Rightarrow> (go_error + 'k rks) \<times> bucket option" where
  "InitRootKeyStorage db b =
     (case Update db (\<lambda>r. (Inr (), r\<lparr>Bucket := (case Bucket r of None \<Rightarrow> Some [] | Some b \<Rightarrow> Some b)\<rparr>))
         \<lparr>Bucket = b, encKey = None :: unit option\<rparr> of
        (Inl e, r) \<Rightarrow> (Inl e, Bucket r)
      | (Inr _, r) \<Rightarrow> (Inr \<lparr>Bucket = Bucket r, encKey = None\<rparr>, Bucket r))"

definition Get :: "'k snacl \<Rightarrow> string \<Rightarrow> 'k rks \<Rightarrow> go_error + string" where
  "Get S kid r =
     (case encKey r of
        None \<Rightarrow> Inl ErrStoreLocked
      | Some key \<Rightarrow>
          (case Bucket r of
             None \<Rightarrow> Inl ErrRootKeyBucketNotFound
           | Some b \<Rightarrow>
               if bget b kid = [] then Inl ErrRootKeyIDNotFound else Decrypt S key (bget b kid)))"

definition RootKeyIDFromContext :: "rpc_context \<Rightarrow> go_error + string" where
  "RootKeyIDFromContext ctx =
     (case ctx_root_key_id ctx of
        None \<Rightarrow> Inl ErrContextRootKeyID
      | Some kid \<Rightarrow> if kid = [] then Inl ErrMissingRootKeyID else Inr kid)"

text \<open>\<open>fresh\<close> is what \<^verbatim>\<open>crypto/rand\<close> delivers, \<open>n\<close> the nonce of the encryption.\<close>

definition generateAndStoreNewRootKey ::
  "bolt \<Rightarrow> 'k snacl \<Rightarrow> go_error + string \<Rightarrow> nat \<Rightarrow> bucket \<Rightarrow> string \<Rightarrow> 'k \<Rightarrow> go_error + (string \<times> bucket)" where
  "generateAndStoreNewRootKey db S fresh n b kid key =
     (case fresh of
        Inl e \<Rightarrow> Inl e
      | Inr rootKey \<Rightarrow>
          (case Encrypt S key n rootKey of
             Inl e \<Rightarrow> Inl e
           | Inr encryptedKey \<Rightarrow>
               (case Put db kid encryptedKey b of Inl e \<Rightarrow> Inl e | Inr b' \<Rightarrow> Inr (rootKey, b'))))"

definition RootKey ::
  "bolt \<Rightarrow> 'k snacl \<Rightarrow> go_error + string \<Rightarrow> nat \<Rightarrow> rpc_context \<Rightarrow> 'k rks \<Rightarrow>
     (string \<times> string, 'k) store_result" where
  "RootKey db S fresh n ctx r =
     (case encKey r of
        None \<Rightarrow> (Inl ErrStoreLocked, r)
      | Some key \<Rightarrow>
          (case RootKeyIDFromContext ctx of
             Inl e \<Rightarrow> (Inl e, r)
           | Inr kid \<Rightarrow>
               if kid = encryptionKeyID then (Inl ErrKeyValueForbidden, r)
               else
                 Update db (\<lambda>r.
                   case Bucket r of
                     None \<Rightarrow> (Inl ErrRootKeyBucketNotFound, r)
                   | Some b \<Rightarrow>
                       if bget b kid \<noteq> [] then
                         (case Decrypt S key (bget b kid) of
                            Inl e \<Rightarrow> (Inl e, r)
                          | Inr rootKey \<Rightarrow> (Inr (rootKey, kid), r))
                       else
                         (case generateAndStoreNewRootKey db S fresh n b kid key of
                            Inl e \<Rightarrow> (Inl e, r)
                          | Inr (rootKey, b') \<Rightarrow> (Inr (rootKey, kid), r\<lparr>Bucket := Some b'\<rparr>))) r))"

definition CreateUnlock ::
  "bolt \<Rightarrow> 'k snacl \<Rightarrow> nat \<Rightarrow> string option \<Rightarrow> 'k rks \<Rightarrow> (unit, 'k) store_result" where
  "CreateUnlock db S n password r =
     (if encKey r \<noteq> None then (Inl ErrAlreadyUnlocked, r)
      else
        (case password of
           None \<Rightarrow> (Inl ErrPasswordRequired, r)
         | Some pw \<Rightarrow>
             Update db (\<lambda>r.
               case Bucket r of
                 None \<Rightarrow> (Inl ErrRootKeyBucketNotFound, r)
               | Some b \<Rightarrow>
                   if bget b encryptionKeyID \<noteq> [] then
                     (case UnmarshalKey S (bget b encryptionKeyID) of
                        Inl e \<Rightarrow> (Inl e, r)
                      | Inr k0 \<Rightarrow>
                          (case DeriveKey S k0 pw of
                             Inl e \<Rightarrow> (Inl e, r)
                           | Inr k \<Rightarrow> (Inr (), r\<lparr>encKey := Some k\<rparr>)))
                   else
                     (case NewSecretKey S pw n of
                        Inl e \<Rightarrow> (Inl e, r)
                      | Inr k \<Rightarrow>
                          (case Put db encryptionKeyID (Marshal S k) b of
                             Inl e \<Rightarrow> (Inl e, r)
                           | Inr b' \<Rightarrow> (Inr (), r\<lparr>Bucket := Some b', encKey := Some k\<rparr>)))) r))"

definition Close :: "'k rks \<Rightarrow> 'k rks" where
  "Close r = (if encKey r \<noteq> None then r\<lparr>encKey := None\<rparr> else r)"

definition ChangePassword ::
  "bolt \<Rightarrow> 'k snacl \<Rightarrow> nat \<Rightarrow> nat \<Rightarrow> string option \<Rightarrow> string option \<Rightarrow> 'k rks \<Rightarrow> (unit, 'k) store_result" where
  "ChangePassword db S n m oldPw newPw r =
     (if encKey r = None then (Inl ErrStoreLocked, r)
      else
        (case (oldPw, newPw) of
           (Some oldPw, Some newPw) \<Rightarrow>
             Update db (\<lambda>r.
               case Bucket r of
                 None \<Rightarrow> (Inl ErrRootKeyBucketNotFound, r)
               | Some b \<Rightarrow>
                   if bget b encryptionKeyID = [] \<or> bget b DefaultRootKeyID = []
                   then (Inl ErrEncKeyNotFound, r)
                   else
                     (case UnmarshalKey S (bget b encryptionKeyID) of
                        Inl e \<Rightarrow> (Inl e, r)
                      | Inr k0 \<Rightarrow>
                     (case DeriveKey S k0 oldPw of
                        Inl e \<Rightarrow> (Inl e, r)
                      | Inr encKeyOld \<Rightarrow>
                     (case NewSecretKey S newPw n of
                        Inl e \<Rightarrow> (Inl e, r)
                      | Inr encKeyNew \<Rightarrow>
                     (case Decrypt S encKeyOld (bget b DefaultRootKeyID) of
                        Inl e \<Rightarrow> (Inl e, r)
                      | Inr rootKey \<Rightarrow>
                     (case Encrypt S encKeyNew m rootKey of
                        Inl e \<Rightarrow> (Inl e, r)
                      | Inr encryptedKey \<Rightarrow>
                     (case Put db DefaultRootKeyID encryptedKey b of
                        Inl e \<Rightarrow> (Inl e, r)
                      | Inr b1 \<Rightarrow>
                     (case Put db encryptionKeyID (Marshal S encKeyNew) b1 of
                        Inl e \<Rightarrow> (Inl e, r\<lparr>Bucket := Some b1\<rparr>)
                      | Inr b2 \<Rightarrow>
                          (Inr (), r\<lparr>Bucket := Some b2, encKey := Some encKeyNew\<rparr>))))))))) r
         | _ \<Rightarrow> (Inl ErrPasswordRequired, r)))"

definition GenerateNewRootKey ::
  "bolt \<Rightarrow> 'k snacl \<Rightarrow> go_error + string \<Rightarrow> nat \<Rightarrow> 'k rks \<Rightarrow> (unit, 'k) store_result" where
  "GenerateNewRootKey db S fresh n r =
     (case encKey r of
        None \<Rightarrow> (Inl ErrStoreLocked, r)
      | Some key \<Rightarrow>
          Update db (\<lambda>r.
            case Bucket r of
              None \<Rightarrow> (Inl ErrRootKeyBucketNotFound, r)
            | Some b \<Rightarrow>
                (case generateAndStoreNewRootKey db S fresh n b DefaultRootKeyID key of
                   Inl e \<Rightarrow> (Inl e, r)
                 | Inr (_, b') \<Rightarrow> (Inr (), r\<lparr>Bucket := Some b'\<rparr>))) r)"

text \<open>A missing bucket makes the next two dereference \<^verbatim>\<open>nil\<close>.\<close>

definition ListMacaroonIDs :: "'k rks \<Rightarrow> (go_error + string list) outcome" where
  "ListMacaroonIDs r =
     (if encKey r = None then Returns (Inl ErrStoreLocked)
      else
        (case Bucket r of
           None \<Rightarrow> Panics
         | Some b \<Rightarrow> Returns (Inr (filter (\<lambda>k. k \<noteq> encryptionKeyID) (map fst b)))))"

definition DeleteMacaroonID ::
  "bolt \<Rightarrow> string \<Rightarrow> 'k rks \<Rightarrow> (string option, 'k) store_result outcome" where
  "DeleteMacaroonID db rootKeyID r =
     (if encKey r = None then Returns (Inl ErrStoreLocked, r)
      else if rootKeyID = [] then Returns (Inl ErrMissingRootKeyID, r)
      else if rootKeyID = encryptionKeyID \<or> rootKeyID = DefaultRootKeyID
        then Returns (Inl ErrDeletionForbidden, r)
      else if Bucket r = None then Panics
      else
        Returns (Update db (\<lambda>r.
          case Bucket r of
            None \<Rightarrow> (Inr None, r)
          | Some b \<Rightarrow>
              if map_of b rootKeyID = None then (Inr None, r)
              else
                (case Delete db rootKeyID b of
                   Inl e \<Rightarrow> (Inl e, r)
                 | Inr b' \<Rightarrow> (Inr (Some rootKeyID), r\<lparr>Bucket := Some b'\<rparr>))) r))"

section \<open>Transactions\<close>

lemma Update_Inl:
  assumes "bolt_laws db" and "f r = (Inl e, r1)"
  shows "Update db f r = (Inl e, r1\<lparr>Bucket := Bucket r\<rparr>)"
  using assms by (simp add: Update_def bolt_laws_def)

lemma Update_Inr:
  assumes "bolt_laws db" and "f r = (Inr a, r1)"
  shows "Update db f r = (Inr a, r1) \<or> (\<exists>e. Update db f r = (Inl e, r1\<lparr>Bucket := Bucket r\<rparr>))"
proof -
  from assms(1) have "Finish db None (Bucket r) (Bucket r1) = (None, Bucket r1) \<or>
      (\<exists>e. Finish db None (Bucket r) (Bucket r1) = (Some e, Bucket r))"
    by (simp add: bolt_laws_def)
  with assms(2) show ?thesis by (auto simp: Update_def)
qed

lemma Update_fails:
  assumes "bolt_laws db" and "Update db f r = (Inl e, r')"
  shows "Bucket r' = Bucket r"
proof (cases "f r")
  case (Pair res r1)
  then show ?thesis
  proof (cases res)
    case (Inl e')
    with Pair Update_Inl [OF assms(1), of f r e' r1] assms(2) show ?thesis by auto
  next
    case (Inr a)
    with Pair Update_Inr [OF assms(1), of f r a r1] assms(2) show ?thesis by auto
  qed
qed

lemma Update_succeeds:
  assumes "bolt_laws db" and "Update db f r = (Inr a, r')"
  shows "f r = (Inr a, r')"
proof (cases "f r")
  case (Pair res r1)
  then show ?thesis
  proof (cases res)
    case (Inl e')
    with Pair Update_Inl [OF assms(1), of f r e' r1] assms(2) show ?thesis by auto
  next
    case (Inr b)
    with Pair Update_Inr [OF assms(1), of f r b r1] assms(2) show ?thesis by auto
  qed
qed

lemma Update_encKey: "encKey (snd (Update db f r)) = encKey (snd (f r))"
  by (auto simp: Update_def split: prod.splits option.splits)

lemma Put_map: "bolt_laws db \<Longrightarrow> Put db k v b = Inr b' \<Longrightarrow> map_of b' = (map_of b)(k \<mapsto> v)"
  by (simp add: bolt_laws_def)

lemma Put_bget:
  "bolt_laws db \<Longrightarrow> Put db k v b = Inr b' \<Longrightarrow> bget b' k' = (if k' = k then v else bget b k')"
  by (simp add: bget_def Put_map)

lemma Delete_bget:
  "bolt_laws db \<Longrightarrow> Delete db k b = Inr b' \<Longrightarrow> bget b' k' = (if k' = k then [] else bget b k')"
  by (simp add: bget_def bolt_laws_def)

lemma NewSecretKey_laws:
  assumes "snacl_laws S" and "NewSecretKey S pw n = Inr k"
  shows "Marshal S k \<noteq> []" "\<exists>k0. UnmarshalKey S (Marshal S k) = Inr k0 \<and> DeriveKey S k0 pw = Inr k \<and>
    (\<forall>pw'. pw' \<noteq> pw \<longrightarrow> (\<exists>e. DeriveKey S k0 pw' = Inl e))"
  using snacl_laws_def [THEN iffD1, OF assms(1), THEN conjunct1, rule_format, OF assms(2)]
  by simp_all

lemma Encrypt_laws:
  assumes "snacl_laws S" and "Encrypt S k n p = Inr c"
  shows "c \<noteq> []" "Decrypt S k c = Inr p" "k' \<noteq> k \<Longrightarrow> \<exists>e. Decrypt S k' c = Inl e"
  using snacl_laws_def [THEN iffD1, OF assms(1), THEN conjunct2, rule_format, OF assms(2)]
  by simp_all

lemma generate_ok:
  assumes "bolt_laws db" and "snacl_laws S"
    and "generateAndStoreNewRootKey db S fresh n b kid key = Inr (k, b')"
  shows "fresh = Inr k" "bget b' kid \<noteq> []" "Decrypt S key (bget b' kid) = Inr k"
    "\<And>j. j \<noteq> kid \<Longrightarrow> bget b' j = bget b j"
  using assms(3) Encrypt_laws [OF assms(2), of key n k]
  by (auto simp: generateAndStoreNewRootKey_def Put_bget [OF assms(1)] split: sum.splits)

section \<open>Passwords\<close>

text \<open>\<open>unlocks S b pw k\<close>: the password \<open>pw\<close> derives the key \<open>k\<close> from what the bucket stores,
  and no other password derives anything.\<close>

definition unlocks :: "'k snacl \<Rightarrow> bucket \<Rightarrow> string \<Rightarrow> 'k \<Rightarrow> bool" where
  "unlocks S b pw k \<longleftrightarrow> bget b encryptionKeyID \<noteq> [] \<and>
     (\<exists>k0. UnmarshalKey S (bget b encryptionKeyID) = Inr k0 \<and> DeriveKey S k0 pw = Inr k \<and>
        (\<forall>pw'. pw' \<noteq> pw \<longrightarrow> (\<exists>e. DeriveKey S k0 pw' = Inl e)))"

lemma ids_differ [simp]: "DefaultRootKeyID \<noteq> encryptionKeyID" "encryptionKeyID \<noteq> DefaultRootKeyID"
  by (simp_all add: DefaultRootKeyID_def encryptionKeyID_def)

lemma CreateUnlock_new:
  assumes "bolt_laws db" and "snacl_laws S" and "Bucket r = Some b"
    and "bget b encryptionKeyID = []" and "CreateUnlock db S n (Some pw) r = (Inr u, r1)"
  shows "\<exists>b1 k. Bucket r1 = Some b1 \<and> encKey r1 = Some k \<and> unlocks S b1 pw k"
proof -
  from assms(5) have none: "encKey r = None" by (auto simp: CreateUnlock_def split: if_splits)
  from Update_succeeds [OF assms(1)] assms(3-5) none obtain k b1 where
    k: "NewSecretKey S pw n = Inr k" "Put db encryptionKeyID (Marshal S k) b = Inr b1"
      "r1 = r\<lparr>Bucket := Some b1, encKey := Some k\<rparr>"
    unfolding CreateUnlock_def by (fastforce split: sum.splits)
  from NewSecretKey_laws [OF assms(2) k(1)] have "unlocks S b1 pw k"
    by (auto simp: unlocks_def Put_bget [OF assms(1) k(2)])
  with k(3) show ?thesis by simp
qed

lemma CreateUnlock_again:
  assumes "bolt_laws db" and "Bucket r = Some b" and "encKey r = None" and "unlocks S b pw k"
  shows "encKey (snd (CreateUnlock db S n (Some pw) r)) = Some k"
    and "pw' \<noteq> pw \<Longrightarrow> encKey (snd (CreateUnlock db S n (Some pw') r)) = None \<and>
      (\<exists>e. fst (CreateUnlock db S n (Some pw') r) = Inl e)"
proof -
  from assms(4) obtain k0 where k0: "bget b encryptionKeyID \<noteq> []"
      "UnmarshalKey S (bget b encryptionKeyID) = Inr k0" "DeriveKey S k0 pw = Inr k"
      "\<forall>pw'. pw' \<noteq> pw \<longrightarrow> (\<exists>e. DeriveKey S k0 pw' = Inl e)"
    unfolding unlocks_def by blast
  from k0(1-3) assms(2,3) show "encKey (snd (CreateUnlock db S n (Some pw) r)) = Some k"
    by (simp add: CreateUnlock_def Update_encKey)
  assume "pw' \<noteq> pw"
  with k0(4) obtain e where "DeriveKey S k0 pw' = Inl e" by blast
  with k0(1,2) assms(2,3)
  have "CreateUnlock db S n (Some pw') r = (Inl e, r)"
    by (simp add: CreateUnlock_def Update_Inl [OF assms(1), of _ r e r])
  with assms(3) show "encKey (snd (CreateUnlock db S n (Some pw') r)) = None \<and>
      (\<exists>e. fst (CreateUnlock db S n (Some pw') r) = Inl e)" by simp
qed

lemma ChangePassword_succeeds:
  assumes "bolt_laws db" and "snacl_laws S"
    and "Bucket r = Some b" and "encKey r = Some k" and "unlocks S b old k"
    and "ChangePassword db S n m (Some old) (Some new) r = (Inr (), r1)"
  shows "\<exists>k1 p0 c0 b1. unlocks S b1 new k1 \<and> Decrypt S k (bget b DefaultRootKeyID) = Inr p0 \<and>
    Encrypt S k1 m p0 = Inr c0 \<and> bget b DefaultRootKeyID \<noteq> [] \<and>
    r1 = r\<lparr>Bucket := Some b1, encKey := Some k1\<rparr> \<and>
    (\<forall>x. bget b1 x = (if x = encryptionKeyID then Marshal S k1
      else if x = DefaultRootKeyID then c0 else bget b x))"
proof -
  obtain k0 where k0: "bget b encryptionKeyID \<noteq> []"
      "UnmarshalKey S (bget b encryptionKeyID) = Inr k0" "DeriveKey S k0 old = Inr k"
    using assms(5) unfolding unlocks_def by blast
  note upd = Update_succeeds [OF assms(1)]
  from assms(6) have "\<exists>k1 p0 c0 b0 b1. NewSecretKey S new n = Inr k1 \<and>
      bget b DefaultRootKeyID \<noteq> [] \<and> Decrypt S k (bget b DefaultRootKeyID) = Inr p0 \<and>
      Encrypt S k1 m p0 = Inr c0 \<and> Put db DefaultRootKeyID c0 b = Inr b0 \<and>
      Put db encryptionKeyID (Marshal S k1) b0 = Inr b1 \<and>
      r1 = r\<lparr>Bucket := Some b1, encKey := Some k1\<rparr>"
    unfolding ChangePassword_def using k0 assms(3,4)
    by (auto dest!: upd split: sum.splits if_splits)
  then obtain k1 p0 c0 b0 b1 where
    new: "NewSecretKey S new n = Inr k1" "bget b DefaultRootKeyID \<noteq> []"
      "Decrypt S k (bget b DefaultRootKeyID) = Inr p0" "Encrypt S k1 m p0 = Inr c0"
      "Put db DefaultRootKeyID c0 b = Inr b0" "Put db encryptionKeyID (Marshal S k1) b0 = Inr b1"
      "r1 = r\<lparr>Bucket := Some b1, encKey := Some k1\<rparr>"
    by blast
  have b1: "bget b1 x = (if x = encryptionKeyID then Marshal S k1
      else if x = DefaultRootKeyID then c0 else bget b x)" for x
    using Put_bget [OF assms(1) new(5)] Put_bget [OF assms(1) new(6)] by simp
  from NewSecretKey_laws [OF assms(2) new(1)] have "unlocks S b1 new k1"
    by (simp add: unlocks_def b1)
  with new b1 show ?thesis by blast
qed

section \<open>Properties\<close>

text \<open>
  C7. Only the password opens the store. When a fresh store is created with a password and
  closed, unlocking it later with that password loads the very same key into memory, and
  unlocking it with any other password reports an error and leaves it locked.
\<close>

theorem only_the_password_unlocks:
  assumes "bolt_laws db" and "snacl_laws S"
    and "Bucket r = Some b" and "bget b encryptionKeyID = []"
    and "CreateUnlock db S n (Some pw) r = (Inr (), r1)"
  shows "\<exists>k. encKey r1 = Some k \<and>
    encKey (snd (CreateUnlock db S m (Some pw) (Close r1))) = Some k \<and>
    (\<forall>pw'. pw' \<noteq> pw \<longrightarrow>
      encKey (snd (CreateUnlock db S m (Some pw') (Close r1))) = None \<and>
      (\<exists>e. fst (CreateUnlock db S m (Some pw') (Close r1)) = Inl e))"
proof -
  from CreateUnlock_new [OF assms] obtain b1 k where
    k: "Bucket r1 = Some b1" "encKey r1 = Some k" "unlocks S b1 pw k" by blast
  then have closed: "Bucket (Close r1) = Some b1" "encKey (Close r1) = None"
    by (simp_all add: Close_def)
  from CreateUnlock_again [OF assms(1) closed k(3)] k(2) show ?thesis by blast
qed

text \<open>
  C19. A root key that was handed out can be found again: after \<open>RootKey\<close> returns a key for an
  identifier, \<open>Get\<close> returns that key for it, and asking again returns the same key and the
  same identifier, or fails at the commit; the identifier is never the one of the encryption
  key. The stored keys of other identifiers are not touched.
\<close>

theorem root_key_found_again:
  assumes "bolt_laws db" and "snacl_laws S"
    and "RootKey db S fresh n ctx r = (Inr (k, i), r1)"
  shows "i \<noteq> encryptionKeyID \<and> ctx_root_key_id ctx = Some i \<and> Get S i r1 = Inr k \<and>
    (fst (RootKey db S fresh' n' ctx r1) = Inr (k, i) \<or>
      (\<exists>e. RootKey db S fresh' n' ctx r1 = (Inl e, r1))) \<and>
    (\<forall>j. j \<noteq> i \<longrightarrow> Get S j r1 = Get S j r)"
proof -
  obtain key where key: "encKey r = Some key"
    using assms(3) by (auto simp: RootKey_def split: option.splits)
  obtain j where j: "RootKeyIDFromContext ctx = Inr j" "j \<noteq> encryptionKeyID"
    using assms(3) key by (auto simp: RootKey_def split: sum.splits if_splits)
  then have ctx: "ctx_root_key_id ctx = Some j"
    by (auto simp: RootKeyIDFromContext_def split: option.splits if_splits)
  from Update_succeeds [OF assms(1)] assms(3) key j obtain b where b: "Bucket r = Some b" and
    cases: "(bget b j \<noteq> [] \<and> Decrypt S key (bget b j) = Inr k \<and> r1 = r) \<or>
      (\<exists>b'. bget b j = [] \<and> generateAndStoreNewRootKey db S fresh n b j key = Inr (k, b') \<and>
         r1 = r\<lparr>Bucket := Some b'\<rparr>)" and i: "i = j"
    unfolding RootKey_def
    by (fastforce split: option.splits sum.splits if_splits prod.splits)
  from cases generate_ok [OF assms(1,2), of fresh n b j key k] obtain b1 where
    b1: "Bucket r1 = Some b1" "encKey r1 = Some key" "bget b1 j \<noteq> []"
      "Decrypt S key (bget b1 j) = Inr k" "\<forall>x. x \<noteq> j \<longrightarrow> bget b1 x = bget b x"
    using b key by auto
  have same: "Get S x r1 = Get S x r" if "x \<noteq> j" for x
    using that b key b1 by (simp add: Get_def)
  let ?f = "\<lambda>r. case Bucket r of None \<Rightarrow> (Inl ErrRootKeyBucketNotFound, r)
    | Some b \<Rightarrow> if bget b j \<noteq> [] then
        (case Decrypt S key (bget b j) of Inl e \<Rightarrow> (Inl e, r) | Inr rootKey \<Rightarrow> (Inr (rootKey, j), r))
      else (case generateAndStoreNewRootKey db S fresh' n' b j key of
          Inl e \<Rightarrow> (Inl e, r)
        | Inr (rootKey, b') \<Rightarrow> (Inr (rootKey, j), r\<lparr>Bucket := Some b'\<rparr>))"
  have "?f r1 = (Inr (k, j), r1)" using b1 by simp
  from Update_Inr [where f = ?f and r = r1, OF assms(1) this] have
    "fst (RootKey db S fresh' n' ctx r1) = Inr (k, j) \<or>
      (\<exists>e. RootKey db S fresh' n' ctx r1 = (Inl e, r1))"
    using b1(2) j by (auto simp: RootKey_def)
  with i j ctx b1 same show ?thesis by (simp add: Get_def)
qed

text \<open>
  Changing the password re-encrypts the default root key and no other: afterwards the new
  password is the one that unlocks the store and the default root key is still read, but every
  other root key, which was stored under the old encryption key, can no longer be decrypted
  (its macaroons are dead).
\<close>

theorem change_password_loses_other_keys:
  assumes "bolt_laws db" and "snacl_laws S"
    and "Bucket r = Some b" and "encKey r = Some k" and "unlocks S b old k"
    and "ChangePassword db S n m (Some old) (Some new) r = (Inr (), r1)" and "encKey r1 \<noteq> Some k"
    and "i \<notin> {DefaultRootKeyID, encryptionKeyID}" and "Encrypt S k c p = Inr (bget b i)"
  shows "(\<exists>b1 k1. Bucket r1 = Some b1 \<and> encKey r1 = Some k1 \<and> unlocks S b1 new k1) \<and>
    Get S DefaultRootKeyID r1 = Get S DefaultRootKeyID r \<and>
    Get S i r = Inr p \<and> (\<exists>e. Get S i r1 = Inl e)"
proof -
  from ChangePassword_succeeds [OF assms(1-6)] obtain k1 p0 c0 b1 where
    new: "unlocks S b1 new k1" "Decrypt S k (bget b DefaultRootKeyID) = Inr p0"
      "Encrypt S k1 m p0 = Inr c0" "bget b DefaultRootKeyID \<noteq> []"
      "r1 = r\<lparr>Bucket := Some b1, encKey := Some k1\<rparr>"
    and b1: "\<And>x. bget b1 x = (if x = encryptionKeyID then Marshal S k1
      else if x = DefaultRootKeyID then c0 else bget b x)"
    by blast
  have "Get S DefaultRootKeyID r1 = Get S DefaultRootKeyID r"
    using new assms(3,4) Encrypt_laws [OF assms(2) new(3)] by (simp add: Get_def b1)
  moreover have "k1 \<noteq> k" using assms(7) new(5) by simp
  moreover from this Encrypt_laws [OF assms(2,9)] obtain e where "Decrypt S k1 (bget b i) = Inl e"
    by metis
  ultimately show ?thesis
    using Encrypt_laws [OF assms(2,9)] assms(3,4,8) new by (simp add: Get_def b1)
qed

text \<open>
  An operation that fails leaves the database as it was. It need not leave the memory as
  it was: \<open>CreateUnlock\<close> sets the key inside the transaction, so that when the commit fails
  the caller is told of the failure while the store stays unlocked with a key that is not on
  disk, and trying again is refused.
\<close>

theorem failures_leave_the_database:
  assumes "bolt_laws db"
  shows "(\<forall>e r'. RootKey db S fresh n ctx r = (Inl e, r') \<longrightarrow> Bucket r' = Bucket r) \<and>
    (\<forall>e r'. CreateUnlock db S n pw r = (Inl e, r') \<longrightarrow> Bucket r' = Bucket r \<and>
      (encKey r = None \<and> encKey r' \<noteq> None \<longrightarrow>
        CreateUnlock db S n pw r' = (Inl ErrAlreadyUnlocked, r'))) \<and>
    (\<forall>e r'. ChangePassword db S n m pw pw' r = (Inl e, r') \<longrightarrow> Bucket r' = Bucket r) \<and>
    (\<forall>e r'. GenerateNewRootKey db S fresh n r = (Inl e, r') \<longrightarrow> Bucket r' = Bucket r) \<and>
    (\<forall>e r'. DeleteMacaroonID db i r = Returns (Inl e, r') \<longrightarrow> Bucket r' = Bucket r)"
proof (intro conjI allI impI)
  note fails = Update_fails [OF assms]
  show "Bucket r' = Bucket r" if "RootKey db S fresh n ctx r = (Inl e, r')" for e r'
    using that by (auto simp: RootKey_def dest!: fails split: option.splits sum.splits if_splits)
  show "Bucket r' = Bucket r" if "CreateUnlock db S n pw r = (Inl e, r')" for e r'
    using that by (auto simp: CreateUnlock_def dest!: fails split: option.splits if_splits)
  show "CreateUnlock db S n pw r' = (Inl ErrAlreadyUnlocked, r')"
    if "encKey r = None \<and> encKey r' \<noteq> None" for e r'
    using that by (simp add: CreateUnlock_def)
  show "Bucket r' = Bucket r" if "ChangePassword db S n m pw pw' r = (Inl e, r')" for e r'
    using that by (auto simp: ChangePassword_def dest!: fails split: option.splits if_splits)
  show "Bucket r' = Bucket r" if "GenerateNewRootKey db S fresh n r = (Inl e, r')" for e r'
    using that by (auto simp: GenerateNewRootKey_def dest!: fails split: option.splits)
  show "Bucket r' = Bucket r" if "DeleteMacaroonID db i r = Returns (Inl e, r')" for e r'
    using that by (auto simp: DeleteMacaroonID_def dest!: fails split: if_splits)
qed

section \<open>An instance of the libraries\<close>

definition demo_bolt :: bolt where
  "demo_bolt =
     \<lparr>Finish = (\<lambda>e old new. case e of Some e \<Rightarrow> (Some e, old) | None \<Rightarrow> (None, new)),
      Put = (\<lambda>k v b. Inr (AList.update k v b)), Delete = (\<lambda>k b. Inr (AList.delete k b))\<rparr>"

fun seal :: "string \<Rightarrow> string \<Rightarrow> string" where
  "seal [] p = CHR ''1'' # p"
| "seal (a # k) p = CHR ''0'' # a # seal k p"

fun unseal :: "string \<Rightarrow> string \<Rightarrow> string option" where
  "unseal [] (x # c) = (if x = CHR ''1'' then Some c else None)"
| "unseal (a # k) (x # y # c) = (if x = CHR ''0'' \<and> y = a then unseal k c else None)"
| "unseal _ _ = None"

definition wrong_key :: go_error where
  "wrong_key = Foreign ''invalid password''"

definition demo_snacl :: "string snacl" where
  "demo_snacl =
     \<lparr>NewSecretKey = (\<lambda>pw n. Inr pw), Marshal = (\<lambda>k. CHR ''m'' # k), UnmarshalKey = (\<lambda>s. Inr (tl s)),
      DeriveKey = (\<lambda>k pw. if pw = k then Inr k else Inl wrong_key),
      Encrypt = (\<lambda>k n p. Inr (seal k p)),
      Decrypt = (\<lambda>k c. case unseal k c of Some p \<Rightarrow> Inr p | None \<Rightarrow> Inl wrong_key)\<rparr>"

lemma unseal_seal: "unseal k (seal k p) = Some p"
  by (induction k) simp_all

lemma unseal_other: "k' \<noteq> k \<Longrightarrow> unseal k' (seal k p) = None"
proof (induction k arbitrary: k')
  case Nil
  then show ?case by (cases k') (auto split: list.split, cases p, auto)
next
  case (Cons a k)
  then show ?case by (cases k') auto
qed

lemma seal_not_Nil: "seal k p \<noteq> []"
  by (cases k) simp_all

lemma demo_laws: "bolt_laws demo_bolt" "snacl_laws demo_snacl"
  by (simp_all add: bolt_laws_def demo_bolt_def update_conv delete_conv snacl_laws_def
      demo_snacl_def unseal_seal unseal_other seal_not_Nil)
    auto

definition fresh_store :: "string rks" where
  "fresh_store = \<lparr>Bucket = Some [], encKey = None\<rparr>"

definition baking_context :: rpc_context where
  "baking_context = \<lparr>ctx_md = None, ctx_plugin = None, ctx_root_key_id = Some ''0''\<rparr>"

lemmas demo_storage = demo_bolt_def demo_snacl_def fresh_store_def Update_def bget_def
  encryptionKeyID_def DefaultRootKeyID_def

definition open_store :: "string rks" where
  "open_store = \<lparr>Bucket = Some [(''enckey'', ''mpw'')], encKey = Some ''pw''\<rparr>"

lemma create_fresh: "CreateUnlock demo_bolt demo_snacl 0 (Some ''pw'') fresh_store = (Inr (), open_store)"
  by (simp add: CreateUnlock_def demo_storage open_store_def)

theorem only_the_password_unlocks_witness:
  "encKey (snd (CreateUnlock demo_bolt demo_snacl 1 (Some ''pw'') (Close open_store))) = Some ''pw'' \<and>
   encKey (snd (CreateUnlock demo_bolt demo_snacl 1 (Some ''no'') (Close open_store))) = None"
proof -
  have "Bucket fresh_store = Some []" "bget [] encryptionKeyID = []"
    by (simp_all add: fresh_store_def bget_def)
  from only_the_password_unlocks [OF demo_laws this create_fresh, of 1] show ?thesis
    by (auto simp: open_store_def)
qed

definition baked_store :: "string rks" where
  "baked_store = \<lparr>Bucket = Some [(''enckey'', ''mpw''), (''0'', seal ''pw'' ''key'')],
     encKey = Some ''pw''\<rparr>"

theorem root_key_found_again_witness:
  "RootKey demo_bolt demo_snacl (Inr ''key'') 7 baking_context open_store =
     (Inr (''key'', ''0''), baked_store) \<and>
   Get demo_snacl ''0'' baked_store = Inr ''key''"
proof -
  have run: "RootKey demo_bolt demo_snacl (Inr ''key'') 7 baking_context open_store =
      (Inr (''key'', ''0''), baked_store)"
    by (simp add: RootKey_def RootKeyIDFromContext_def baking_context_def open_store_def
        baked_store_def generateAndStoreNewRootKey_def demo_storage)
  from root_key_found_again [OF demo_laws run, of "Inr ''other''" 8] run show ?thesis by blast
qed

definition two_key_store :: "string rks" where
  "two_key_store = \<lparr>Bucket = Some [(''enckey'', ''mpw''), (''0'', seal ''pw'' ''key''),
      (''1'', seal ''pw'' ''second'')], encKey = Some ''pw''\<rparr>"

definition changed_store :: "string rks" where
  "changed_store = \<lparr>Bucket = Some [(''enckey'', ''mnew''), (''0'', seal ''new'' ''key''),
      (''1'', seal ''pw'' ''second'')], encKey = Some ''new''\<rparr>"

theorem change_password_loses_other_keys_witness:
  "ChangePassword demo_bolt demo_snacl 1 2 (Some ''pw'') (Some ''new'') two_key_store =
     (Inr (), changed_store) \<and>
   Get demo_snacl ''0'' changed_store = Inr ''key'' \<and>
   Get demo_snacl ''1'' two_key_store = Inr ''second'' \<and>
   (\<exists>e. Get demo_snacl ''1'' changed_store = Inl e)"
proof -
  let ?b = "[(''enckey'', ''mpw''), (''0'', seal ''pw'' ''key''), (''1'', seal ''pw'' ''second'')]"
  have run: "ChangePassword demo_bolt demo_snacl 1 2 (Some ''pw'') (Some ''new'') two_key_store =
     (Inr (), changed_store)"
    by (simp add: ChangePassword_def demo_storage two_key_store_def changed_store_def)
  have "Bucket two_key_store = Some ?b" "encKey two_key_store = Some ''pw''"
    "encKey changed_store \<noteq> Some ''pw''" "''1'' \<notin> {DefaultRootKeyID, encryptionKeyID}"
    "Encrypt demo_snacl ''pw'' 0 ''second'' = Inr (bget ?b ''1'')"
    by (simp_all add: two_key_store_def changed_store_def demo_storage)
  moreover have "unlocks demo_snacl ?b ''pw'' ''pw''"
    by (simp add: unlocks_def demo_storage)
  ultimately have "Get demo_snacl DefaultRootKeyID changed_store =
      Get demo_snacl DefaultRootKeyID two_key_store \<and>
      Get demo_snacl ''1'' two_key_store = Inr ''second'' \<and>
      (\<exists>e. Get demo_snacl ''1'' changed_store = Inl e)"
    using change_password_loses_other_keys [OF demo_laws _ _ _ run, of ?b "''pw''" "''1''" 0
        "''second''"] by blast
  moreover have "Get demo_snacl DefaultRootKeyID two_key_store = Inr ''key''"
    by (simp add: Get_def two_key_store_def demo_storage)
  ultimately show ?thesis using run by (simp add: DefaultRootKeyID_def)
qed

definition full_disk :: bolt where
  "full_disk = demo_bolt\<lparr>Finish :=
     (\<lambda>e old new. (Some (case e of Some e \<Rightarrow> e | None \<Rightarrow> Foreign ''disk full''), old))\<rparr>"

theorem failures_leave_the_database_witness:
  "\<exists>r'. CreateUnlock full_disk demo_snacl 0 (Some ''pw'') fresh_store =
       (Inl (Foreign ''disk full''), r') \<and>
     Bucket r' = Bucket fresh_store \<and> encKey r' = Some ''pw'' \<and>
     CreateUnlock full_disk demo_snacl 0 (Some ''pw'') r' = (Inl ErrAlreadyUnlocked, r')"
proof -
  let ?r = "fresh_store\<lparr>encKey := Some ''pw''\<rparr>"
  have laws: "bolt_laws full_disk"
    by (simp add: full_disk_def bolt_laws_def demo_bolt_def update_conv delete_conv) auto
  have run: "CreateUnlock full_disk demo_snacl 0 (Some ''pw'') fresh_store =
      (Inl (Foreign ''disk full''), ?r)"
    by (simp add: CreateUnlock_def demo_storage full_disk_def)
  note all = failures_leave_the_database [OF laws]
  from all [THEN conjunct2, THEN conjunct1, rule_format, OF run] run show ?thesis
    by (auto simp: fresh_store_def)
qed

end
