(* ===== verification/PluginManager.thy ===== *)
theory PluginManager
  imports PluginInstance QueueManager MacaroonService
begin

text \<open>
  File \<^verbatim>\<open>plugins/service.go\<close>: the plugin manager, which serves the plugin API. \<open>plugin_manager\<close>
  is the struct; the goroutines that the instances' methods leave behind are kept, with the
  name of their plugin, in \<open>goroutines\<close>, and process numbers are handed out by \<open>nextClient\<close>.
  A request runs its handler to the end before the next one; the goroutines run in between
  (\<open>plugin_go\<close>).

  What the plugin processes answer during a call is an argument of each handler.
\<close>

record plugin_manager =
  pluginDir :: string
  pluginCfgs :: "plugin_config list"
  pluginRegistry :: "plugin_instance gomap"
  queueManager :: queue_manager
  quitClosed :: bool
  permissionMap :: "op list gomap"
  noMacaroons :: bool
  svc :: "mac_service option"
  goroutines :: "(string \<times> goroutine) list"
  nextClient :: nat

record plugin_info =
  pi_Name :: string
  pi_Type :: plugin_type
  pi_State :: plugin_state
  pi_StartedAt :: int
  pi_StoppedAt :: int
  pi_Version :: string

record handshake_answers =
  push_env :: plugin_env
  push_reply :: "unit reply"
  version_env :: plugin_env
  version_reply :: "string reply"
  created_at :: int

record stop_answers =
  stop_env :: plugin_env
  record_reply :: "unit reply"
  stop_reply :: "unit reply"

definition NewPluginManager :: "string \<Rightarrow> plugin_config list \<Rightarrow> bool \<Rightarrow> plugin_manager" where
  "NewPluginManager dir cfgs noMac =
     \<lparr>pluginDir = dir, pluginCfgs = cfgs, pluginRegistry = [], queueManager = NewQueueManager,
      quitClosed = False, permissionMap = [], noMacaroons = noMac, svc = None, goroutines = [],
      nextClient = 0\<rparr>"

definition AddMacaroonService :: "mac_service \<Rightarrow> plugin_manager \<Rightarrow> plugin_manager" where
  "AddMacaroonService service p = p\<lparr>svc := Some service\<rparr>"

definition AddPermission ::
  "string \<Rightarrow> op list \<Rightarrow> plugin_manager \<Rightarrow> go_error option \<times> plugin_manager" where
  "AddPermission method ops p =
     (if has_key (permissionMap p) method then (Some ErrDuplicateMacConstraints, p)
      else (None, p\<lparr>permissionMap := AList.update method ops (permissionMap p)\<rparr>))"

fun AddPermissions ::
  "(string \<times> op list) list \<Rightarrow> plugin_manager \<Rightarrow> go_error option \<times> plugin_manager" where
  "AddPermissions [] p = (None, p)"
| "AddPermissions ((m, ops) # perms) p =
     (case AddPermission m ops p of
        (Some e, p') \<Rightarrow> (Some e, p')
      | (None, p') \<Rightarrow> AddPermissions perms p')"

section \<open>Creating and starting plugins\<close>

definition put_instance :: "string \<Rightarrow> plugin_instance \<Rightarrow> plugin_manager \<Rightarrow> plugin_manager" where
  "put_instance name i p = p\<lparr>pluginRegistry := AList.update name i (pluginRegistry p)\<rparr>"

definition spawn :: "string \<Rightarrow> goroutine option \<Rightarrow> plugin_manager \<Rightarrow> plugin_manager" where
  "spawn name g p =
     (case g of None \<Rightarrow> p | Some g \<Rightarrow> p\<lparr>goroutines := goroutines p @ [(name, g)]\<rparr>)"

definition new_instance :: "plugin_config \<Rightarrow> nat \<Rightarrow> int \<Rightarrow> plugin_instance" where
  "new_instance c k now =
     \<lparr>cfg = c, client = Some k, state = READY, timeoutCnt = 0, recordState = NOTRECORDING,
      startedAt = now, stoppedAt = 0, version = '''', listeners = [], calls = []\<rparr>"

text \<open>A failure after \<open>RegisterSource\<close> kills the process but leaves the source registered.\<close>

definition createPluginInstance ::
  "string \<Rightarrow> handshake_answers \<Rightarrow> plugin_config \<Rightarrow> plugin_manager \<Rightarrow>
     ((go_error + plugin_instance) \<times> plugin_manager) outcome" where
  "createPluginInstance AppVersion a c p =
     (if Type c \<noteq> DATASOURCE_STR \<and> Type c \<noteq> CONTROLLER_STR
      then Returns (Inl ErrInvalidPluginType, p)
      else
        let newClient = nextClient p; p1 = p\<lparr>nextClient := Suc newClient\<rparr> in
        (case RegisterSource (Name c) (queueManager p1) of
           (Inl e, qm) \<Rightarrow> Returns (Inl e, p1\<lparr>queueManager := qm\<rparr>)
         | (Inr outQ, qm) \<Rightarrow>
             let p2 = p1\<lparr>queueManager := qm\<rparr> in
             and_then (pushVersion AppVersion (push_env a) (push_reply a)
                 (new_instance c newClient (created_at a))) (\<lambda>(err, g, i).
             case err of
               Some e \<Rightarrow> Returns (Inl e, p2)
             | None \<Rightarrow>
                 and_then (getVersion (version_env a) (version_reply a) i) (\<lambda>(err, g, i).
                 case err of
                   Some e \<Rightarrow> Returns (Inl e, p2)
                 | None \<Rightarrow> Returns (Inr i, p2)))))"

fun start_plugins ::
  "string \<Rightarrow> (plugin_config \<Rightarrow> handshake_answers) \<Rightarrow> plugin_config list \<Rightarrow> plugin_manager \<Rightarrow>
     (go_error option \<times> plugin_manager) outcome" where
  "start_plugins v a [] p = Returns (None, p)"
| "start_plugins v a (c # cs) p =
     (if has_key (pluginRegistry p) (Name c) then Returns (Some ErrDuplicatePluginName, p)
      else
        and_then (createPluginInstance v (a c) c p) (\<lambda>(r, p).
        case r of
          Inl e \<Rightarrow> Returns (Some e, p)
        | Inr i \<Rightarrow> start_plugins v a cs (put_instance (Name c) i p)))"

definition Start ::
  "string \<Rightarrow> (plugin_config \<Rightarrow> handshake_answers) \<Rightarrow> plugin_manager \<Rightarrow>
     (go_error option \<times> plugin_manager) outcome" where
  "Start v a p = start_plugins v a (pluginCfgs p) (p\<lparr>pluginRegistry := []\<rparr>)"

section \<open>Handlers\<close>

definition status :: "rpc_code \<Rightarrow> go_error \<Rightarrow> rpc_error" where
  "status c e = Status c (error_msg e)"

type_synonym 'a handler = "plugin_manager \<Rightarrow> ((rpc_error + 'a) \<times> plugin_manager) outcome"

definition with_plugin :: "string \<Rightarrow> (plugin_instance \<Rightarrow> 'a handler) \<Rightarrow> 'a handler" where
  "with_plugin name f p =
     (case map_of (pluginRegistry p) name of
        None \<Rightarrow> Returns (Inl (status InvalidArgument ErrUnregsiteredPlugin), p)
      | Some i \<Rightarrow> f i p)"

definition StartRecord :: "plugin_env \<Rightarrow> unit reply \<Rightarrow> string \<Rightarrow> unit handler" where
  "StartRecord env r name =
     with_plugin name (\<lambda>i p.
       and_then (startRecord env r i) (\<lambda>(err, g, i).
         Returns (case err of Some e \<Rightarrow> Inl (status Internal e) | None \<Rightarrow> Inr (),
           spawn name g (put_instance name i p))))"

definition StopRecord :: "plugin_env \<Rightarrow> unit reply \<Rightarrow> string \<Rightarrow> unit handler" where
  "StopRecord env r name =
     with_plugin name (\<lambda>i p.
       and_then (stopRecord env r i) (\<lambda>(err, g, i).
         Returns (case err of Some e \<Rightarrow> Inl (status Internal e) | None \<Rightarrow> Inr (),
           spawn name g (put_instance name i p))))"

definition StartPlugin :: "int \<Rightarrow> string \<Rightarrow> unit handler" where
  "StartPlugin now name =
     with_plugin name (\<lambda>i p.
       if state i \<noteq> STOPPED \<and> state i \<noteq> KILLED
       then Returns (Inl (status FailedPrecondition ErrServiceAlreadyStarted), p)
       else if Type (cfg i) \<noteq> DATASOURCE_STR \<and> Type (cfg i) \<noteq> CONTROLLER_STR
       then Returns (Inl (status InvalidArgument ErrInvalidPluginType), p)
       else
         and_then (setReady (setClient (Some (nextClient p)) i)) (\<lambda>i.
           Returns (Inr (), (put_instance name (setStartTime now i) p)\<lparr>nextClient := Suc (nextClient p)\<rparr>)))"

definition StopPlugin :: "stop_answers \<Rightarrow> string \<Rightarrow> unit handler" where
  "StopPlugin a name =
     with_plugin name (\<lambda>i p.
       and_then (stop (stop_env a) (record_reply a) (stop_reply a) i) (\<lambda>(err, g, i).
         Returns
           (case err of
              None \<Rightarrow> Inr ()
            | Some e \<Rightarrow>
                if same_error e ErrServiceAlreadyStopped
                then Inl (status FailedPrecondition ErrServiceAlreadyStopped)
                else Inl (status Internal e),
            spawn name g (put_instance name i p))))"

definition AddPlugin ::
  "(string \<Rightarrow> bool) \<Rightarrow> string \<Rightarrow> handshake_answers \<Rightarrow> plugin_config \<Rightarrow> plugin_info handler" where
  "AddPlugin FileExists AppVersion a req p =
     (case ValidatePluginConfig FileExists req (pluginDir p) False of
        (Some e, _) \<Rightarrow> Returns (Inl (status InvalidArgument e), p)
      | (None, c) \<Rightarrow>
          if has_key (pluginRegistry p) (Name c)
          then Returns (Inl (status AlreadyExists ErrDuplicatePluginName), p)
          else
            (case getPluginCodeFromType (Type c) of
               (_, Some e) \<Rightarrow> Returns (Inl (status InvalidArgument e), p)
             | (rpcPlugType, None) \<Rightarrow>
                 and_then (createPluginInstance AppVersion a c p) (\<lambda>(r, p).
                 case r of
                   Inl e \<Rightarrow> Returns (Inl (status Internal e), p)
                 | Inr i \<Rightarrow>
                     Returns (Inr \<lparr>pi_Name = Name (cfg i), pi_Type = rpcPlugType,
                         pi_State = state i, pi_StartedAt = startedAt i, pi_StoppedAt = 0,
                         pi_Version = version i\<rparr>,
                       put_instance (Name c) i p))))"

definition plugin_info_of :: "plugin_instance \<Rightarrow> rpc_error + plugin_info" where
  "plugin_info_of i =
     (case getPluginCodeFromType (Type (cfg i)) of
        (_, Some e) \<Rightarrow> Inl (status InvalidArgument e)
      | (t, None) \<Rightarrow>
          Inr \<lparr>pi_Name = Name (cfg i), pi_Type = t, pi_State = state i,
            pi_StartedAt = startedAt i, pi_StoppedAt = stoppedAt i, pi_Version = version i\<rparr>)"

fun list_plugins :: "plugin_instance gomap \<Rightarrow> rpc_error + plugin_info list" where
  "list_plugins [] = Inr []"
| "list_plugins ((n, i) # is) =
     (case plugin_info_of i of
        Inl e \<Rightarrow> Inl e
      | Inr x \<Rightarrow> (case list_plugins is of Inl e \<Rightarrow> Inl e | Inr xs \<Rightarrow> Inr (x # xs)))"

definition ListPlugins :: "plugin_info list handler" where
  "ListPlugins p = Returns (list_plugins (pluginRegistry p), p)"

definition GetPlugin :: "string \<Rightarrow> plugin_info handler" where
  "GetPlugin name = with_plugin name (\<lambda>i p. Returns (plugin_info_of i, p))"

section \<open>The monitor\<close>

text \<open>What one tick of \<open>monitorPlugins\<close> does for the plugin registered as \<open>name\<close>.\<close>

definition stop_or_kill ::
  "stop_answers \<Rightarrow> plugin_instance \<Rightarrow> (go_error option \<times> goroutine option \<times> plugin_instance) outcome" where
  "stop_or_kill a i =
     and_then (stop (stop_env a) (record_reply a) (stop_reply a) i) (\<lambda>(err, g, i).
       Returns (err, g, if err \<noteq> None then kill (Now (stop_env a)) i else i))"

definition monitor_plugin :: "stop_answers \<Rightarrow> string \<Rightarrow> plugin_manager \<Rightarrow> plugin_manager outcome" where
  "monitor_plugin a name p =
     (case map_of (pluginRegistry p) name of
        None \<Rightarrow> Returns p
      | Some i \<Rightarrow>
          if state i \<noteq> UNRESPONSIVE then Returns p
          else if MaxTimeouts (cfg i) \<le> timeoutCnt i then
            and_then (stop_or_kill a i) (\<lambda>(err, g, i).
            and_then (setKilled i) (\<lambda>i. Returns (spawn name g (put_instance name i p))))
          else
            and_then (stop_or_kill a (incrementTimeoutCount i)) (\<lambda>(err, g, i).
            and_then (if err \<noteq> None then setStopped i else Returns i) (\<lambda>i.
            and_then (StartPlugin (Now (stop_env a)) name (spawn name g (put_instance name i p)))
              (\<lambda>(r, p). case r of
                Inr _ \<Rightarrow> Returns p
              | Inl _ \<Rightarrow>
                  (case map_of (pluginRegistry p) name of
                     None \<Rightarrow> Returns p
                   | Some i \<Rightarrow>
                       and_then (setUnresponsive i) (\<lambda>i. Returns (put_instance name i p)))))))"

fun monitor_tick :: "(string \<Rightarrow> stop_answers) \<Rightarrow> string list \<Rightarrow> plugin_manager \<Rightarrow> plugin_manager outcome" where
  "monitor_tick a [] p = Returns p"
| "monitor_tick a (n # ns) p = and_then (monitor_plugin (a n) n p) (monitor_tick a ns)"

definition monitorPlugins :: "(string \<Rightarrow> stop_answers) \<Rightarrow> plugin_manager \<Rightarrow> plugin_manager outcome" where
  "monitorPlugins a p = monitor_tick a (map fst (pluginRegistry p)) p"

section \<open>Shutdown\<close>

definition cleanUp :: "stop_answers \<Rightarrow> string \<Rightarrow> plugin_manager \<Rightarrow> plugin_manager outcome" where
  "cleanUp a name p =
     (case map_of (pluginRegistry p) name of
        None \<Rightarrow> Returns p
      | Some i \<Rightarrow>
          and_then
            (if client i \<noteq> None then
               and_then (stop_or_kill a i) (\<lambda>(err, g, i). Returns (spawn name g (put_instance name i p)))
             else Returns p) (\<lambda>p.
          and_then (deregister_source name (queueManager p)) (\<lambda>qm.
          Returns (p\<lparr>queueManager := qm\<rparr>))))"

fun clean_up_all :: "(string \<Rightarrow> stop_answers) \<Rightarrow> string list \<Rightarrow> plugin_manager \<Rightarrow> plugin_manager outcome" where
  "clean_up_all a [] p = Returns p"
| "clean_up_all a (n # ns) p = and_then (cleanUp (a n) n p) (clean_up_all a ns)"

definition Stop :: "(string \<Rightarrow> stop_answers) \<Rightarrow> plugin_manager \<Rightarrow> plugin_manager outcome" where
  "Stop a p =
     and_then (clean_up_all a (map fst (pluginRegistry p)) p) (\<lambda>p.
     if quitClosed p then Panics
     else
       and_then (Shutdown (queueManager p)) (\<lambda>qm.
       Returns (p\<lparr>quitClosed := True, queueManager := qm\<rparr>)))"

section \<open>Goroutines of the instances\<close>

text \<open>A step of the \<open>k\<close>-th goroutine, which pushes to the queue the manager keeps for its
  plugin; \<open>None\<close> when the goroutine does not wait for this event.\<close>

definition plugin_go :: "int \<Rightarrow> go_event \<Rightarrow> nat \<Rightarrow> plugin_manager \<Rightarrow> plugin_manager outcome option" where
  "plugin_go now ev k p =
     (if length (goroutines p) \<le> k then None
      else
        (case goroutines p ! k of (name, g) \<Rightarrow>
        (case (map_of (pluginRegistry p) name, map_of (incomingQueues (queueManager p)) name) of
           (Some i, Some q) \<Rightarrow>
             map_option (\<lambda>r. and_then r (\<lambda>(g', i', q'). Returns
               ((put_instance name i' p)
                  \<lparr>goroutines := (case g' of
                      Some g' \<Rightarrow> (goroutines p)[k := (name, g')]
                    | None \<Rightarrow> take k (goroutines p) @ drop (Suc k) (goroutines p)),
                   queueManager := (queueManager p)\<lparr>incomingQueues :=
                     AList.update name q' (incomingQueues (queueManager p))\<rparr>\<rparr>)))
               (go_step now ev g i q)
         | _ \<Rightarrow> None)))"

section \<open>The invariant\<close>

text \<open>
  At rest, between two requests, a plugin is never \<open>BUSY\<close> or \<open>STOPPING\<close>; a stopped or killed
  one has no process; and the monitor has counted no more timeouts than are allowed. The
  requirement \<open>live\<close> is on the environment: every state listener is being read.
\<close>

definition typed :: "plugin_config \<Rightarrow> bool" where
  "typed c \<longleftrightarrow> Type c = DATASOURCE_STR \<or> Type c = CONTROLLER_STR"

definition instance_ok :: "plugin_instance \<Rightarrow> bool" where
  "instance_ok i \<longleftrightarrow> live i \<and> typed (cfg i) \<and> state i \<notin> {BUSY, STOPPING} \<and>
     (state i \<in> {STOPPED, KILLED} \<longrightarrow> client i = None) \<and>
     (state i = READY \<longrightarrow> client i \<noteq> None) \<and>
     0 \<le> timeoutCnt i \<and> timeoutCnt i \<le> max 0 (MaxTimeouts (cfg i))"

definition wf_pm :: "plugin_manager \<Rightarrow> bool" where
  "wf_pm p \<longleftrightarrow> wf_map (pluginRegistry p) \<and> wf_manager (queueManager p) \<and>
     (\<forall>n i. map_of (pluginRegistry p) n = Some i \<longrightarrow>
        Name (cfg i) = n \<and> instance_ok i \<and> has_key (incomingQueues (queueManager p)) n)"

context plugin_method
begin

lemma keeps_ok:
  assumes "instance_ok i"
  obtains err g i' where "run env r i = Returns (err, g, i')" "instance_ok i'" "cfg i' = cfg i"
    "timeoutCnt i' = timeoutCnt i"
proof -
  from assms have l: "live i" by (simp add: instance_ok_def)
  obtain err g i' where run: "run env r i = Returns (err, g, i')" "live i'" "cfg i' = cfg i"
      "client i' = client i" "timeoutCnt i' = timeoutCnt i"
    by (rule returns [OF l])
  have "state i' = READY \<longrightarrow> i' = i \<or> client i' \<noteq> None"
    using contract [OF l run(1)] admitted [of i] by (cases "refuses i") auto
  with settles [OF l run(1)] assms run have "instance_ok i'" by (auto simp: instance_ok_def)
  with that run show ?thesis by blast
qed

end

lemma stop_keeps_ok:
  assumes "instance_ok i"
  obtains err i' where "stop env rr r i = Returns (err, None, i')" "instance_ok i'"
    "cfg i' = cfg i" "timeoutCnt i' = timeoutCnt i"
    "err = None \<longrightarrow> state i' = STOPPED"
    "state i' = STOPPED \<or> (i' = i \<and> (state i = KILLED \<or> client i = None))"
proof (cases "state i \<in> {STOPPING, STOPPED, KILLED} \<or> client i = None")
  case True
  with stop_refused [of i env rr r] assms obtain e where
    e: "stop env rr r i = Returns (Some e, None, i)" by (cases "state i \<in> {STOPPING, STOPPED, KILLED}") auto
  from True assms have "state i = STOPPED \<or> state i = KILLED \<or> client i = None"
    by (auto simp: instance_ok_def)
  with that [OF e assms] show ?thesis by auto
next
  case False
  then obtain p where p: "client i = Some p" by auto
  from assms have l: "live i" by (simp add: instance_ok_def)
  from stop_runs [OF l _ p, of env rr r] False obtain err i' where
    s: "stop env rr r i = Returns (err, None, i')" "live i'" "state i' = STOPPED" "client i' = None"
      "cfg i' = cfg i" "timeoutCnt i' = timeoutCnt i"
    by blast
  with assms have "instance_ok i'" by (simp add: instance_ok_def)
  with that s show ?thesis by blast
qed

lemma instance_ok_announce:
  "instance_ok i \<Longrightarrow> s \<in> {UNKNOWN, UNRESPONSIVE} \<Longrightarrow> instance_ok (announce s i)"
  "instance_ok i \<Longrightarrow> s \<in> {STOPPED, KILLED} \<Longrightarrow> client i = None \<Longrightarrow> instance_ok (announce s i)"
  by (auto simp: instance_ok_def)

section \<open>Handlers keep the invariant\<close>

text \<open>\<open>serves h\<close>: from a well-formed manager the handler returns and leaves a well-formed one.\<close>

definition keeps_wf :: "(plugin_manager \<Rightarrow> ('a \<times> plugin_manager) outcome) \<Rightarrow> bool" where
  "keeps_wf h \<longleftrightarrow> (\<forall>p. wf_pm p \<longrightarrow> (\<exists>x p'. h p = Returns (x, p') \<and> wf_pm p'))"

lemma wf_put_instance:
  assumes "wf_pm p" and "map_of (pluginRegistry p) n = Some i" and "instance_ok i'" and "cfg i' = cfg i"
  shows "wf_pm (put_instance n i' p)"
proof -
  from assms(1,2) have n: "Name (cfg i) = n" "has_key (incomingQueues (queueManager p)) n"
    by (auto simp: wf_pm_def)
  have "Name (cfg j) = m \<and> instance_ok j \<and> has_key (incomingQueues (queueManager p)) m"
    if "map_of (AList.update n i' (pluginRegistry p)) m = Some j" for m j
    using that n assms by (cases "m = n") (auto simp: wf_pm_def)
  with assms(1) show ?thesis by (auto simp: put_instance_def wf_pm_def)
qed

lemma wf_pm_frame [simp]:
  "wf_pm (p\<lparr>nextClient := k\<rparr>) = wf_pm p" "wf_pm (p\<lparr>goroutines := gs\<rparr>) = wf_pm p"
  "wf_pm (p\<lparr>permissionMap := m\<rparr>) = wf_pm p" "wf_pm (p\<lparr>svc := s\<rparr>) = wf_pm p"
  "wf_pm (p\<lparr>pluginCfgs := cs\<rparr>) = wf_pm p" "wf_pm (p\<lparr>quitClosed := b\<rparr>) = wf_pm p"
  by (simp_all add: wf_pm_def)

lemma wf_spawn [simp]: "wf_pm (spawn n g p) = wf_pm p"
  by (simp add: spawn_def split: option.split)

lemma pluginRegistry_spawn [simp]: "pluginRegistry (spawn n g p) = pluginRegistry p"
    "queueManager (spawn n g p) = queueManager p" "nextClient (spawn n g p) = nextClient p"
  by (simp_all add: spawn_def split: option.split)

lemma put_instance_simps [simp]:
  "pluginRegistry (put_instance n i p) = AList.update n i (pluginRegistry p)"
  "queueManager (put_instance n i p) = queueManager p"
  "nextClient (put_instance n i p) = nextClient p" "goroutines (put_instance n i p) = goroutines p"
  by (simp_all add: put_instance_def)

lemma wf_pm_ok: "wf_pm p \<Longrightarrow> map_of (pluginRegistry p) n = Some i \<Longrightarrow> instance_ok i"
  by (simp add: wf_pm_def)

lemma keeps_wf_with_plugin:
  assumes "\<And>p i. wf_pm p \<Longrightarrow> map_of (pluginRegistry p) n = Some i \<Longrightarrow>
    \<exists>x p'. f i p = Returns (x, p') \<and> wf_pm p'"
  shows "keeps_wf (with_plugin n f)"
  unfolding keeps_wf_def with_plugin_def by (auto split: option.split intro: assms)

lemma keeps_wf_StartRecord: "keeps_wf (StartRecord env r n)"
  unfolding StartRecord_def
proof (rule keeps_wf_with_plugin)
  fix p i
  assume wf: "wf_pm p" and i: "map_of (pluginRegistry p) n = Some i"
  obtain err g i' where run: "startRecord env r i = Returns (err, g, i')" "instance_ok i'" "cfg i' = cfg i"
    by (rule start_record.keeps_ok [OF wf_pm_ok [OF wf i]])
  with wf_put_instance [OF wf i run(2,3)]
  show "\<exists>x p'. and_then (startRecord env r i) (\<lambda>(err, g, i).
      Returns (case err of None \<Rightarrow> Inr () | Some e \<Rightarrow> Inl (status Internal e),
        spawn n g (put_instance n i p))) = Returns (x, p') \<and> wf_pm p'"
    by simp
qed

lemma keeps_wf_StopRecord: "keeps_wf (StopRecord env r n)"
  unfolding StopRecord_def
proof (rule keeps_wf_with_plugin)
  fix p i
  assume wf: "wf_pm p" and i: "map_of (pluginRegistry p) n = Some i"
  obtain err g i' where run: "stopRecord env r i = Returns (err, g, i')" "instance_ok i'" "cfg i' = cfg i"
    by (rule stop_record.keeps_ok [OF wf_pm_ok [OF wf i]])
  with wf_put_instance [OF wf i run(2,3)]
  show "\<exists>x p'. and_then (stopRecord env r i) (\<lambda>(err, g, i).
      Returns (case err of None \<Rightarrow> Inr () | Some e \<Rightarrow> Inl (status Internal e),
        spawn n g (put_instance n i p))) = Returns (x, p') \<and> wf_pm p'"
    by simp
qed

lemma keeps_wf_StopPlugin: "keeps_wf (StopPlugin a n)"
  unfolding StopPlugin_def
proof (rule keeps_wf_with_plugin)
  fix p i
  assume wf: "wf_pm p" and i: "map_of (pluginRegistry p) n = Some i"
  obtain err i' where
    run: "stop (stop_env a) (record_reply a) (stop_reply a) i = Returns (err, None, i')"
      "instance_ok i'" "cfg i' = cfg i"
    by (rule stop_keeps_ok [OF wf_pm_ok [OF wf i]])
  with wf_put_instance [OF wf i run(2,3)]
  show "\<exists>x p'. and_then (stop (stop_env a) (record_reply a) (stop_reply a) i) (\<lambda>(err, g, i).
      Returns (case err of None \<Rightarrow> Inr () | Some e \<Rightarrow>
          if same_error e ErrServiceAlreadyStopped
          then Inl (status FailedPrecondition ErrServiceAlreadyStopped) else Inl (status Internal e),
        spawn n g (put_instance n i p))) = Returns (x, p') \<and> wf_pm p'"
    by simp
qed

lemma keeps_wf_StartPlugin: "keeps_wf (StartPlugin now n)"
  unfolding StartPlugin_def
proof (rule keeps_wf_with_plugin)
  fix p i
  assume wf: "wf_pm p" and i: "map_of (pluginRegistry p) n = Some i"
  note ok = wf_pm_ok [OF wf i]
  let ?j = "setStartTime now (announce READY (setClient (Some (nextClient p)) i))"
  have j: "live (setClient (Some (nextClient p)) i)" "instance_ok ?j" "cfg ?j = cfg i"
    using ok by (simp_all add: instance_ok_def setClient_def setStartTime_def)
  show "\<exists>x p'. (if state i \<noteq> STOPPED \<and> state i \<noteq> KILLED
      then Returns (Inl (status FailedPrecondition ErrServiceAlreadyStarted), p)
      else if Type (cfg i) \<noteq> DATASOURCE_STR \<and> Type (cfg i) \<noteq> CONTROLLER_STR
      then Returns (Inl (status InvalidArgument ErrInvalidPluginType), p)
      else and_then (setReady (setClient (Some (nextClient p)) i)) (\<lambda>i. Returns (Inr (),
        (put_instance n (setStartTime now i) p)\<lparr>nextClient := Suc (nextClient p)\<rparr>))) =
      Returns (x, p') \<and> wf_pm p'"
    using wf wf_put_instance [OF wf i j(2,3)] j(1) by (simp add: setter_defs set_state_announce)
qed

lemma new_instance_ok: "typed c \<Longrightarrow> instance_ok (new_instance c k now) \<and> cfg (new_instance c k now) = c"
  by (simp add: instance_ok_def new_instance_def live_def)

lemma wf_pm_register:
  assumes "wf_pm p"
  shows "wf_pm (p\<lparr>queueManager := snd (RegisterSource n (queueManager p))\<rparr>)"
  using assms wf_RegisterSource [of "queueManager p" n]
  by (auto simp: wf_pm_def RegisterSource_def Let_def)

lemma RegisterSource_cases:
  obtains "has_key (incomingQueues m) n" "RegisterSource n m = (Inl ErrSourceAlreadyRegistered, m)"
  | q qm where "\<not> has_key (incomingQueues m) n" "RegisterSource n m = (Inr q, qm)"
    "has_key (incomingQueues qm) n"
  by (cases "has_key (incomingQueues m) n") (auto simp: RegisterSource_def Let_def)

lemma create_ok:
  assumes "wf_pm p"
  obtains r p' where "createPluginInstance v a c p = Returns (r, p')" "wf_pm p'"
    "pluginRegistry p' = pluginRegistry p" "pluginCfgs p' = pluginCfgs p"
    "\<And>i. r = Inr i \<Longrightarrow> instance_ok i \<and> cfg i = c \<and> state i = READY \<and>
       has_key (incomingQueues (queueManager p')) (Name c)"
proof (cases "typed c")
  case False
  with that [of "Inl ErrInvalidPluginType" p] assms show ?thesis
    by (simp add: createPluginInstance_def typed_def)
next
  case True
  let ?p1 = "p\<lparr>nextClient := Suc (nextClient p)\<rparr>"
  from assms have wf1: "wf_pm ?p1" by simp
  show ?thesis
  proof (rule RegisterSource_cases [of "queueManager p" "Name c"])
    assume "RegisterSource (Name c) (queueManager p) = (Inl ErrSourceAlreadyRegistered, queueManager p)"
    with that [of "Inl ErrSourceAlreadyRegistered" ?p1] True wf1 show ?thesis
      by (simp add: createPluginInstance_def typed_def Let_def)
  next
    fix q qm
    let ?p2 = "?p1\<lparr>queueManager := qm\<rparr>"
    assume q: "RegisterSource (Name c) (queueManager p) = (Inr q, qm)"
      and key: "has_key (incomingQueues qm) (Name c)"
    have wf2: "wf_pm ?p2" using wf_pm_register [OF wf1, of "Name c"] q by simp
    let ?i = "new_instance c (nextClient p) (created_at a)"
    have i: "instance_ok ?i" "cfg ?i = c" using new_instance_ok [OF True] by blast+
    obtain e1 g1 i1 where push: "pushVersion v (push_env a) (push_reply a) ?i = Returns (e1, g1, i1)"
        "instance_ok i1" "cfg i1 = c"
      using push_version.keeps_ok [OF i(1)] i(2) by metis
    obtain e2 g2 i2 where get: "getVersion (version_env a) (version_reply a) i1 = Returns (e2, g2, i2)"
        "instance_ok i2" "cfg i2 = c"
      using get_version.keeps_ok [OF push(2)] push(3) by metis
    have l1: "live i1" using push(2) by (simp add: instance_ok_def)
    have run: "createPluginInstance v a c p =
        Returns (case e1 of Some e \<Rightarrow> Inl e | None \<Rightarrow> (case e2 of Some e \<Rightarrow> Inl e | None \<Rightarrow> Inr i2), ?p2)"
      using True q push(1) get(1)
      by (auto simp: createPluginInstance_def typed_def Let_def split: option.split)
    have post: "instance_ok i \<and> cfg i = c \<and> state i = READY \<and>
        has_key (incomingQueues (queueManager ?p2)) (Name c)"
      if "(case e1 of Some e \<Rightarrow> Inl e | None \<Rightarrow> (case e2 of Some e \<Rightarrow> Inl e | None \<Rightarrow> Inr i2)) = Inr i"
      for i
    proof -
      from that have "e2 = None" "i = i2" by (auto split: option.splits)
      with get key get_version.succeeds_ready [OF l1, of "version_env a" "version_reply a" g2 i2]
      show ?thesis by simp
    qed
    show ?thesis by (rule that [OF run wf2 _ _ post]) simp_all
  qed
qed

lemma wf_add_instance:
  assumes "wf_pm p" and "instance_ok i" and "Name (cfg i) = n"
    and "has_key (incomingQueues (queueManager p)) n"
  shows "wf_pm (put_instance n i p)"
proof -
  have "Name (cfg j) = m \<and> instance_ok j \<and> has_key (incomingQueues (queueManager p)) m"
    if "map_of (AList.update n i (pluginRegistry p)) m = Some j" for m j
    using that assms by (cases "m = n") (auto simp: wf_pm_def)
  with assms(1) show ?thesis by (auto simp: put_instance_def wf_pm_def)
qed

lemma keeps_wf_AddPlugin: "keeps_wf (AddPlugin fexists v a req)"
  unfolding keeps_wf_def
proof (intro allI impI)
  fix p
  assume wf: "wf_pm p"
  obtain err c where val: "ValidatePluginConfig fexists req (pluginDir p) False = (err, c)" by force
  obtain t e where t: "getPluginCodeFromType (Type c) = (t, e)" by force
  obtain r p' where run: "createPluginInstance v a c p = Returns (r, p')" "wf_pm p'"
      "\<And>i. r = Inr i \<Longrightarrow> instance_ok i \<and> cfg i = c \<and> state i = READY \<and>
         has_key (incomingQueues (queueManager p')) (Name c)"
    by (rule create_ok [OF wf, of v a c]) blast
  show "\<exists>x p'. AddPlugin fexists v a req p = Returns (x, p') \<and> wf_pm p'"
  proof (cases r)
    case (Inl e')
    with wf run val t show ?thesis by (auto simp: AddPlugin_def split: option.split)
  next
    case (Inr i)
    with run(3) [OF Inr] wf_add_instance [OF run(2), of i "Name c"] have "wf_pm (put_instance (Name c) i p')"
      by simp
    with Inr wf run val t show ?thesis by (auto simp: AddPlugin_def split: option.split)
  qed
qed

lemma keeps_wf_start_plugins:
  "wf_pm p \<Longrightarrow> \<exists>x p'. start_plugins v a cs p = Returns (x, p') \<and> wf_pm p'"
proof (induction cs arbitrary: p)
  case (Cons c cs)
  obtain r p' where run: "createPluginInstance v (a c) c p = Returns (r, p')" "wf_pm p'"
      "\<And>i. r = Inr i \<Longrightarrow> instance_ok i \<and> cfg i = c \<and> state i = READY \<and>
         has_key (incomingQueues (queueManager p')) (Name c)"
    by (rule create_ok [OF Cons.prems, of v "a c" c]) blast
  show ?case
  proof (cases "has_key (pluginRegistry p) (Name c)")
    case False
    show ?thesis
    proof (cases r)
      case (Inr i)
      with run(3) [OF Inr] wf_add_instance [OF run(2), of i "Name c"]
      have "wf_pm (put_instance (Name c) i p')" by simp
      from Cons.IH [OF this] False Inr run(1) show ?thesis by simp
    qed (use False run in simp)
  qed (use Cons.prems in simp)
qed simp

lemma keeps_wf_Start: "keeps_wf (Start v a)"
proof -
  have "wf_pm (p\<lparr>pluginRegistry := []\<rparr>)" if "wf_pm p" for p
    using that by (simp add: wf_pm_def)
  then show ?thesis
    unfolding keeps_wf_def Start_def using keeps_wf_start_plugins by blast
qed

section \<open>The monitor\<close>

lemma stop_or_kill_ok:
  assumes "instance_ok i" and "state i = UNRESPONSIVE"
  obtains err i' where "stop_or_kill a i = Returns (err, None, i')" "live i'" "client i' = None"
    "cfg i' = cfg i" "timeoutCnt i' = timeoutCnt i" "err = None \<longrightarrow> state i' = STOPPED"
    "state i' \<notin> {BUSY, STOPPING}"
proof -
  obtain err i' where s: "stop (stop_env a) (record_reply a) (stop_reply a) i = Returns (err, None, i')"
      "instance_ok i'" "cfg i' = cfg i" "timeoutCnt i' = timeoutCnt i"
      "err = None \<longrightarrow> state i' = STOPPED"
    by (rule stop_keeps_ok [OF assms(1)])
  from s that [of err "if err \<noteq> None then kill (Now (stop_env a)) i' else i'"] show ?thesis
    by (auto simp: stop_or_kill_def instance_ok_def)
qed

lemma StartPlugin_down:
  assumes "map_of (pluginRegistry p) n = Some i" and "live i" and "typed (cfg i)"
    and "state i \<in> {STOPPED, KILLED}"
  shows "StartPlugin now n p = Returns (Inr (),
    (put_instance n (setStartTime now (announce READY (setClient (Some (nextClient p)) i))) p)
      \<lparr>nextClient := Suc (nextClient p)\<rparr>)"
proof -
  have "live (setClient (Some (nextClient p)) i)" using assms(2) by (simp add: setClient_def)
  with assms show ?thesis
    by (auto simp: StartPlugin_def with_plugin_def typed_def setter_defs set_state_announce)
qed

text \<open>The whole turn of the monitor for one plugin, on every branch.\<close>

lemma monitor_plugin_runs:
  assumes "instance_ok i" and "map_of (pluginRegistry p) n = Some i"
  shows "\<exists>p'. monitor_plugin a n p = Returns p' \<and>
    (if state i \<noteq> UNRESPONSIVE then p' = p
     else \<exists>i' k. p' = (put_instance n i' p)\<lparr>nextClient := k\<rparr> \<and> instance_ok i' \<and> cfg i' = cfg i \<and>
       (if MaxTimeouts (cfg i) \<le> timeoutCnt i
        then state i' = KILLED \<and> client i' = None \<and> timeoutCnt i' = timeoutCnt i
        else state i' = READY \<and> client i' = Some (nextClient p) \<and>
          timeoutCnt i' = timeoutCnt i + 1))"
proof (cases "state i = UNRESPONSIVE")
  case False
  with assms show ?thesis by (simp add: monitor_plugin_def)
next
  case U: True
  show ?thesis
  proof (cases "MaxTimeouts (cfg i) \<le> timeoutCnt i")
    case True
    obtain err j where s: "stop_or_kill a i = Returns (err, None, j)" "live j" "client j = None"
        "cfg j = cfg i" "timeoutCnt j = timeoutCnt i"
      by (rule stop_or_kill_ok [OF assms(1) U])
    let ?j = "announce KILLED j"
    have "instance_ok ?j" using s assms(1) by (simp add: instance_ok_def)
    moreover have "monitor_plugin a n p = Returns ((put_instance n ?j p)\<lparr>nextClient := nextClient p\<rparr>)"
      using assms(2) U True s by (simp add: monitor_plugin_def setter_defs set_state_announce spawn_def
          put_instance_def)
    ultimately show ?thesis using U True s by auto
  next
    case False
    let ?i = "incrementTimeoutCount i"
    have i: "instance_ok ?i" "state ?i = UNRESPONSIVE"
      using assms(1) U False by (simp_all add: instance_ok_def incrementTimeoutCount_def)
    obtain err j where s: "stop_or_kill a ?i = Returns (err, None, j)" "live j" "client j = None"
        "cfg j = cfg i" "timeoutCnt j = timeoutCnt i + 1" "err = None \<longrightarrow> state j = STOPPED"
      by (rule stop_or_kill_ok [OF i, of a]) (auto simp: incrementTimeoutCount_def)
    let ?j = "if err \<noteq> None then announce STOPPED j else j"
    let ?p = "put_instance n ?j p"
    have j: "live ?j" "typed (cfg ?j)" "state ?j \<in> {STOPPED, KILLED}"
      using s assms(1) by (auto simp: instance_ok_def)
    let ?k = "setStartTime (Now (stop_env a)) (announce READY (setClient (Some (nextClient p)) ?j))"
    have "instance_ok ?k"
      using s assms(1) False by (auto simp: instance_ok_def setStartTime_def setClient_def)
    moreover have "monitor_plugin a n p =
        Returns ((put_instance n ?k p)\<lparr>nextClient := Suc (nextClient p)\<rparr>)"
    proof -
      have reg: "map_of (pluginRegistry ?p) n = Some ?j" by simp
      have again: "put_instance n ?k (put_instance n ?j p) = put_instance n ?k p"
        by (simp add: put_instance_def update_twice)
      have st: "StartPlugin (Now (stop_env a)) n ?p =
          Returns (Inr (), (put_instance n ?k p)\<lparr>nextClient := Suc (nextClient p)\<rparr>)"
        using StartPlugin_down [OF reg j] again by simp
      have "monitor_plugin a n p = and_then (StartPlugin (Now (stop_env a)) n ?p)
          (\<lambda>(r, p). case r of Inr _ \<Rightarrow> Returns p
            | Inl _ \<Rightarrow> (case map_of (pluginRegistry p) n of None \<Rightarrow> Returns p
                | Some i \<Rightarrow> and_then (setUnresponsive i) (\<lambda>i. Returns (put_instance n i p))))"
        using assms(2) U False s(1,2)
        by (simp add: monitor_plugin_def setter_defs set_state_announce spawn_def)
      with st show ?thesis by simp
    qed
    ultimately show ?thesis
      using U False s by (auto simp: setStartTime_def setClient_def)
  qed
qed

end
