(* ===== verification/PluginLifecycle.thy ===== *)
theory PluginLifecycle
  imports PluginManager
begin

text \<open>
  The life of a plugin under the manager: the step relation \<open>pm_step\<close> interleaves the requests
  of the plugin API, the turns of the monitor and the steps of the goroutines that the plugin
  instances left behind. The manager's invariant holds in every reachable state, and the
  manager refines a small automaton of phases, \<open>lifecycle\<close>, which says who (a client, the
  monitor, a late goroutine) can move a plugin from which phase to which.
\<close>

datatype pm_event =
    EStartRecord plugin_env "unit reply" string
  | EStopRecord plugin_env "unit reply" string
  | EStartPlugin int string
  | EStopPlugin stop_answers string
  | EAddPlugin "string \<Rightarrow> bool" string handshake_answers plugin_config
  | EMonitor stop_answers string
  | EGo int go_event nat

inductive pm_step :: "pm_event \<Rightarrow> plugin_manager \<Rightarrow> plugin_manager \<Rightarrow> bool" where
  start_record: "StartRecord env r n p = Returns (x, p') \<Longrightarrow> pm_step (EStartRecord env r n) p p'"
| stop_record: "StopRecord env r n p = Returns (x, p') \<Longrightarrow> pm_step (EStopRecord env r n) p p'"
| start_plugin: "StartPlugin now n p = Returns (x, p') \<Longrightarrow> pm_step (EStartPlugin now n) p p'"
| stop_plugin: "StopPlugin a n p = Returns (x, p') \<Longrightarrow> pm_step (EStopPlugin a n) p p'"
| add_plugin: "AddPlugin fe v h c p = Returns (x, p') \<Longrightarrow> pm_step (EAddPlugin fe v h c) p p'"
| monitor: "monitor_plugin a n p = Returns p' \<Longrightarrow> pm_step (EMonitor a n) p p'"
| goroutine: "plugin_go now ev k p = Some (Returns p') \<Longrightarrow> pm_step (EGo now ev k) p p'"

inductive_cases pm_stepE: "pm_step e p p'"

inductive_simps pm_step_simps:
  "pm_step (EStartRecord env r n) p p'" "pm_step (EStopRecord env r n) p p'"
  "pm_step (EStartPlugin now n) p p'" "pm_step (EStopPlugin a n) p p'"
  "pm_step (EAddPlugin fe v h c) p p'" "pm_step (EMonitor a n) p p'" "pm_step (EGo now ev k) p p'"

inductive pm_run :: "plugin_manager \<Rightarrow> pm_event list \<Rightarrow> plugin_manager \<Rightarrow> bool" where
  run_Nil: "pm_run p [] p"
| run_Cons: "pm_step e p q \<Longrightarrow> pm_run q es r \<Longrightarrow> pm_run p (e # es) r"

section \<open>Goroutines\<close>

lemma instance_ok_recordState [simp]: "instance_ok (i\<lparr>recordState := b\<rparr>) = instance_ok i"
  by (simp add: instance_ok_def)

lemma go_step_ok:
  assumes "instance_ok i" and "go_step now ev g i q = Some (Returns (g', i', q'))"
  shows "instance_ok i' \<and> cfg i' = cfg i \<and> timeoutCnt i' = timeoutCnt i \<and> client i' = client i \<and>
    (state i' = state i \<or> state i' \<in> {UNKNOWN, UNRESPONSIVE}) \<and>
    (q' = q \<or> (\<exists>v. Push v q = Returns q'))"
proof -
  from assms(1) have l: "live i" by (simp add: instance_ok_def)
  obtain r where r: "go_step now ev g i q = Some r" "r = Returns (g', i', q')" using assms(2) by blast
  note simps = setter_defs set_state_announce [OF l] plain_setter_defs outcome_simps
    instance_ok_announce(1) [OF assms(1)]
  from r(1) show ?thesis
    by (cases rule: go_stepE) (use r(2) assms(1) in \<open>auto simp: simps split: if_splits\<close>)
qed

lemma wf_manager_push:
  assumes "wf_manager m" and "map_of (incomingQueues m) n = Some q"
    and "q' = q \<or> (\<exists>v. Push v q = Returns q')"
  shows "wf_manager (m\<lparr>incomingQueues := AList.update n q' (incomingQueues m)\<rparr>)"
proof -
  from assms(1,2) have ok: "source_ok q (map_of (forwarders m) n)" by (simp add: wf_manager_def)
  from assms(3) ok source_ok_Push [OF ok] have "source_ok q' (map_of (forwarders m) n)" by blast
  moreover from assms(1,2) have "has_key (quitChans m) n"
    by (auto simp: wf_manager_def has_key_def)
  ultimately show ?thesis
    using assms(1) by (auto simp: wf_manager_def update_conv')
qed

lemma plugin_go_ok:
  assumes "wf_pm p" and "plugin_go now ev k p = Some (Returns p')"
  shows "wf_pm p' \<and> (\<exists>n i i'. map_of (pluginRegistry p) n = Some i \<and> cfg i' = cfg i \<and>
    timeoutCnt i' = timeoutCnt i \<and> client i' = client i \<and>
    (state i' = state i \<or> state i' \<in> {UNKNOWN, UNRESPONSIVE}) \<and>
    pluginRegistry p' = AList.update n i' (pluginRegistry p))"
proof -
  obtain n g where ng: "goroutines p ! k = (n, g)" by force
  with assms(2) obtain i q r where iq: "map_of (pluginRegistry p) n = Some i"
      "map_of (incomingQueues (queueManager p)) n = Some q" "go_step now ev g i q = Some r"
    by (auto simp: plugin_go_def split: if_splits option.splits)
  with assms(2) ng obtain g' i' q' gs where r: "r = Returns (g', i', q')"
    and p': "p' = (put_instance n i' p)\<lparr>goroutines := gs, queueManager := (queueManager p)
      \<lparr>incomingQueues := AList.update n q' (incomingQueues (queueManager p))\<rparr>\<rparr>"
    by (auto simp: plugin_go_def outcome_simps split: if_splits option.splits)
  from go_step_ok [OF wf_pm_ok [OF assms(1) iq(1)]] iq(3) r
  have ok: "instance_ok i'" "cfg i' = cfg i" "timeoutCnt i' = timeoutCnt i" "client i' = client i"
      "state i' = state i \<or> state i' \<in> {UNKNOWN, UNRESPONSIVE}" "q' = q \<or> (\<exists>v. Push v q = Returns q')"
    by blast+
  from wf_put_instance [OF assms(1) iq(1) ok(1,2)] have "wf_pm (put_instance n i' p)" .
  moreover have "wf_manager ((queueManager p)
      \<lparr>incomingQueues := AList.update n q' (incomingQueues (queueManager p))\<rparr>)"
    using assms(1) wf_manager_push [OF _ iq(2) ok(6)] by (simp add: wf_pm_def)
  ultimately have "wf_pm p'" unfolding p' by (auto simp: wf_pm_def)
  with iq(1) ok p' show ?thesis by auto
qed

section \<open>Phases\<close>

datatype phase = Up | Degraded | Hung | Down | Dead | Wedged | Between

definition phase_of :: "plugin_instance \<Rightarrow> phase" where
  "phase_of i =
     (case state i of
        READY \<Rightarrow> Up
      | UNKNOWN \<Rightarrow> (if client i = None then Wedged else Degraded)
      | UNRESPONSIVE \<Rightarrow> Hung
      | STOPPED \<Rightarrow> Down
      | KILLED \<Rightarrow> Dead
      | BUSY \<Rightarrow> Between
      | STOPPING \<Rightarrow> Between)"

datatype actor = ByClient | ByMonitor | ByGoroutine

fun actor_of :: "pm_event \<Rightarrow> actor" where
  "actor_of (EMonitor a n) = ByMonitor"
| "actor_of (EGo now ev k) = ByGoroutine"
| "actor_of _ = ByClient"

fun lifecycle :: "actor \<Rightarrow> phase \<Rightarrow> phase \<Rightarrow> bool" where
  "lifecycle ByClient Up b \<longleftrightarrow> b \<in> {Up, Degraded, Hung, Down}"
| "lifecycle ByClient Degraded b \<longleftrightarrow> b \<in> {Up, Degraded, Hung, Down}"
| "lifecycle ByClient Hung b \<longleftrightarrow> b \<in> {Hung, Down}"
| "lifecycle ByClient Down b \<longleftrightarrow> b \<in> {Down, Up}"
| "lifecycle ByClient Dead b \<longleftrightarrow> b \<in> {Dead, Up}"
| "lifecycle ByMonitor Hung b \<longleftrightarrow> b \<in> {Hung, Up, Dead}"
| "lifecycle ByGoroutine a b \<longleftrightarrow> b = a \<or> b \<in> {Degraded, Wedged, Hung}"
| "lifecycle _ a b \<longleftrightarrow> b = a"

lemma lifecycle_refl [simp]: "lifecycle w a a"
  by (cases w; cases a) simp_all

lemma wedged_only_by_goroutine: "lifecycle w Wedged b \<Longrightarrow> w \<noteq> ByGoroutine \<Longrightarrow> b = Wedged"
  by (cases w) simp_all

text \<open>How one method moves its plugin: the five methods alike, then \<open>stop\<close>.\<close>

context plugin_method
begin

lemma phase_step:
  assumes "instance_ok i" and "run env r i = Returns (err, g, i')"
  shows "lifecycle ByClient (phase_of i) (phase_of i')"
proof (cases "refuses i")
  case (Some e)
  with refused [OF Some, of env r] assms(2) show ?thesis by simp
next
  case None
  from assms(1) have l: "live i" by (simp add: instance_ok_def)
  from admitted [OF None] have "phase_of i = Up \<or> phase_of i = Degraded"
    by (auto simp: admits_def phase_of_def)
  moreover have "phase_of i' \<in> {Up, Degraded, Hung}"
    using contract [OF l assms(2)] None admitted [OF None]
    by (auto simp: verdict_def phase_of_def
        split: option.splits sum.splits reply.splits if_splits)
  ultimately show ?thesis by auto
qed

end

lemma stop_phase:
  assumes "instance_ok i" and "stop env rr r i = Returns (err, g, i')"
  shows "lifecycle ByClient (phase_of i) (phase_of i')"
proof (cases "state i \<in> {STOPPING, STOPPED, KILLED} \<or> client i = None")
  case True
  with stop_refused [of i env rr r] assms(2) have "i' = i" by auto
  then show ?thesis by simp
next
  case False
  then obtain p where p: "client i = Some p" by auto
  from assms(1) have l: "live i" and s: "state i \<notin> {BUSY, STOPPING}" by (simp_all add: instance_ok_def)
  from stop_runs [OF l _ p, of env rr r] False assms(2) have "phase_of i' = Down"
    by (auto simp: phase_of_def)
  moreover have "phase_of i \<in> {Up, Degraded, Hung}"
    using False s p by (auto simp: phase_of_def split: plugin_state.splits)
  ultimately show ?thesis by auto
qed

text \<open>What a step does to the registry: one plugin changes, or one is added.\<close>

definition moves :: "actor \<Rightarrow> plugin_instance gomap \<Rightarrow> plugin_instance gomap \<Rightarrow> bool" where
  "moves w reg reg' \<longleftrightarrow>
     (\<forall>n i. map_of reg n = Some i \<longrightarrow>
        (\<exists>i'. map_of reg' n = Some i' \<and> cfg i' = cfg i \<and> timeoutCnt i \<le> timeoutCnt i' \<and>
           lifecycle w (phase_of i) (phase_of i')))"

lemma moves_refl [simp]: "moves w reg reg"
  by (auto simp: moves_def)

lemma moves_update:
  assumes "map_of reg n = Some i" and "cfg i' = cfg i" and "timeoutCnt i \<le> timeoutCnt i'"
    and "lifecycle w (phase_of i) (phase_of i')"
  shows "moves w reg (AList.update n i' reg)"
  unfolding moves_def
proof (intro allI impI)
  fix m j
  assume j: "map_of reg m = Some j"
  show "\<exists>i''. map_of (AList.update n i' reg) m = Some i'' \<and> cfg i'' = cfg j \<and>
      timeoutCnt j \<le> timeoutCnt i'' \<and> lifecycle w (phase_of j) (phase_of i'')"
    using assms j by (cases "m = n") auto
qed

lemma moves_add:
  assumes "\<not> has_key reg n"
  shows "moves w reg (AList.update n i' reg)"
  unfolding moves_def
proof (intro allI impI)
  fix m j
  assume j: "map_of reg m = Some j"
  with assms have "m \<noteq> n" by (auto simp: has_key_def)
  with j show "\<exists>i''. map_of (AList.update n i' reg) m = Some i'' \<and> cfg i'' = cfg j \<and>
      timeoutCnt j \<le> timeoutCnt i'' \<and> lifecycle w (phase_of j) (phase_of i'')"
    by simp
qed

section \<open>Every step keeps the invariant and follows the automaton\<close>

definition good :: "actor \<Rightarrow> plugin_manager \<Rightarrow> plugin_manager \<Rightarrow> bool" where
  "good w p p' \<longleftrightarrow> wf_pm p' \<and> moves w (pluginRegistry p) (pluginRegistry p')"

lemma good_refl: "wf_pm p \<Longrightarrow> good w p p"
  by (simp add: good_def)

lemma good_put:
  assumes "wf_pm p" and "map_of (pluginRegistry p) n = Some i" and "instance_ok i'"
    and "cfg i' = cfg i" and "timeoutCnt i \<le> timeoutCnt i'"
    and "lifecycle w (phase_of i) (phase_of i')"
  shows "good w p (spawn n g (put_instance n i' p))"
    and "good w p ((put_instance n i' p)\<lparr>nextClient := k\<rparr>)"
  using wf_put_instance [OF assms(1-4)] moves_update [OF assms(2,4-6)] by (simp_all add: good_def)

lemma good_handler:
  assumes "wf_pm p" and "with_plugin n f p = Returns (x, p')"
    and "\<And>i. map_of (pluginRegistry p) n = Some i \<Longrightarrow> instance_ok i \<Longrightarrow>
      f i p = Returns (x, p') \<Longrightarrow> good w p p'"
  shows "good w p p'"
  using assms wf_pm_ok [OF assms(1)]
  by (auto simp: with_plugin_def good_refl split: option.splits)

lemma good_StartRecord:
  assumes "wf_pm p" and "StartRecord env r n p = Returns (x, p')"
  shows "good ByClient p p'"
  using assms(1) assms(2) [unfolded StartRecord_def]
proof (rule good_handler)
  fix i
  assume i: "map_of (pluginRegistry p) n = Some i" "instance_ok i"
    and "and_then (startRecord env r i) (\<lambda>(err, g, i).
      Returns (case err of None \<Rightarrow> Inr () | Some e \<Rightarrow> Inl (status Internal e),
        spawn n g (put_instance n i p))) = Returns (x, p')"
  then obtain err g i' where run: "startRecord env r i = Returns (err, g, i')"
      "p' = spawn n g (put_instance n i' p)"
    by (auto simp: outcome_simps)
  from start_record.keeps_ok [OF i(2), of env r] run(1) have "instance_ok i'" "cfg i' = cfg i"
      "timeoutCnt i' = timeoutCnt i"
    by (metis outcome.inject prod.inject)+
  with good_put(1) [OF assms(1) i(1)] start_record.phase_step [OF i(2) run(1)] run(2)
  show "good ByClient p p'" by simp
qed

lemma good_StopRecord:
  assumes "wf_pm p" and "StopRecord env r n p = Returns (x, p')"
  shows "good ByClient p p'"
  using assms(1) assms(2) [unfolded StopRecord_def]
proof (rule good_handler)
  fix i
  assume i: "map_of (pluginRegistry p) n = Some i" "instance_ok i"
    and "and_then (stopRecord env r i) (\<lambda>(err, g, i).
      Returns (case err of None \<Rightarrow> Inr () | Some e \<Rightarrow> Inl (status Internal e),
        spawn n g (put_instance n i p))) = Returns (x, p')"
  then obtain err g i' where run: "stopRecord env r i = Returns (err, g, i')"
      "p' = spawn n g (put_instance n i' p)"
    by (auto simp: outcome_simps)
  from stop_record.keeps_ok [OF i(2), of env r] run(1) have "instance_ok i'" "cfg i' = cfg i"
      "timeoutCnt i' = timeoutCnt i"
    by (metis outcome.inject prod.inject)+
  with good_put(1) [OF assms(1) i(1)] stop_record.phase_step [OF i(2) run(1)] run(2)
  show "good ByClient p p'" by simp
qed

lemma good_StopPlugin:
  assumes "wf_pm p" and "StopPlugin a n p = Returns (x, p')"
  shows "good ByClient p p'"
  using assms(1) assms(2) [unfolded StopPlugin_def]
proof (rule good_handler)
  fix i
  assume i: "map_of (pluginRegistry p) n = Some i" "instance_ok i"
    and "and_then (stop (stop_env a) (record_reply a) (stop_reply a) i) (\<lambda>(err, g, i).
      Returns (case err of None \<Rightarrow> Inr () | Some e \<Rightarrow>
          if same_error e ErrServiceAlreadyStopped
          then Inl (status FailedPrecondition ErrServiceAlreadyStopped) else Inl (status Internal e),
        spawn n g (put_instance n i p))) = Returns (x, p')"
  then obtain err g i' where
    run: "stop (stop_env a) (record_reply a) (stop_reply a) i = Returns (err, g, i')"
      "p' = spawn n g (put_instance n i' p)"
    by (auto simp: outcome_simps)
  from stop_keeps_ok [OF i(2), of "stop_env a" "record_reply a" "stop_reply a"] run(1)
  have "instance_ok i'" "cfg i' = cfg i" "timeoutCnt i' = timeoutCnt i"
    by (metis outcome.inject prod.inject)+
  with good_put(1) [OF assms(1) i(1)] stop_phase [OF i(2) run(1)] run(2)
  show "good ByClient p p'" by simp
qed

lemma good_StartPlugin:
  assumes "wf_pm p" and "StartPlugin now n p = Returns (x, p')"
  shows "good ByClient p p'"
proof (cases "map_of (pluginRegistry p) n")
  case None
  with assms show ?thesis by (simp add: StartPlugin_def with_plugin_def good_refl)
next
  case (Some i)
  note ok = wf_pm_ok [OF assms(1) Some]
  show ?thesis
  proof (cases "state i \<in> {STOPPED, KILLED}")
    case False
    with assms Some show ?thesis by (auto simp: StartPlugin_def with_plugin_def good_refl)
  next
    case True
    let ?j = "setStartTime now (announce READY (setClient (Some (nextClient p)) i))"
    from ok have t: "live i" "typed (cfg i)" by (simp_all add: instance_ok_def)
    have "instance_ok ?j" "cfg ?j = cfg i" "timeoutCnt i \<le> timeoutCnt ?j"
      using ok by (simp_all add: instance_ok_def setClient_def setStartTime_def)
    moreover have "lifecycle ByClient (phase_of i) (phase_of ?j)"
      using True by (auto simp: phase_of_def setStartTime_def setClient_def)
    ultimately show ?thesis
      using good_put(2) [OF assms(1) Some] StartPlugin_down [OF Some t True, of now] assms(2) by simp
  qed
qed

lemma good_AddPlugin:
  assumes "wf_pm p" and "AddPlugin fe v a req p = Returns (x, p')"
  shows "good ByClient p p'"
proof -
  obtain err c where val: "ValidatePluginConfig fe req (pluginDir p) False = (err, c)" by force
  obtain t e where t: "getPluginCodeFromType (Type c) = (t, e)" by force
  obtain r q where run: "createPluginInstance v a c p = Returns (r, q)" "wf_pm q"
      "pluginRegistry q = pluginRegistry p"
      "\<And>i. r = Inr i \<Longrightarrow> instance_ok i \<and> cfg i = c \<and> state i = READY \<and>
         has_key (incomingQueues (queueManager q)) (Name c)"
    by (rule create_ok [OF assms(1), of v a c]) blast
  have q: "good ByClient p q" using run(2,3) by (simp add: good_def)
  have add: "good ByClient p (put_instance (Name c) i q)"
    if "r = Inr i" "\<not> has_key (pluginRegistry p) (Name c)" for i
    using run(4) [OF that(1)] wf_add_instance [OF run(2), of i "Name c"] moves_add [OF that(2)] run(3)
    by (simp add: good_def)
  note same = good_refl [OF assms(1), of ByClient]
  show ?thesis
  proof (cases "err = None \<and> \<not> has_key (pluginRegistry p) (Name c) \<and> e = None")
    case False
    with assms(2) val t same show ?thesis by (auto simp: AddPlugin_def split: option.splits if_splits)
  next
    case True
    note ok = assms(2) val t run(1)
    show ?thesis
    proof (cases r)
      case (Inl e')
      with ok True have "p' = q" by (simp add: AddPlugin_def)
      with q show ?thesis by simp
    next
      case (Inr i)
      with ok True have "p' = put_instance (Name c) i q" by (auto simp: AddPlugin_def)
      with add [OF Inr] True show ?thesis by simp
    qed
  qed
qed

lemma good_monitor:
  assumes "wf_pm p" and "monitor_plugin a n p = Returns p'"
  shows "good ByMonitor p p'"
proof (cases "map_of (pluginRegistry p) n")
  case None
  with assms show ?thesis by (simp add: monitor_plugin_def good_refl)
next
  case (Some i)
  note ok = wf_pm_ok [OF assms(1) Some]
  show ?thesis
  proof (cases "state i = UNRESPONSIVE")
    case False
    with monitor_plugin_runs [OF ok Some, of a] assms(2) good_refl [OF assms(1)] show ?thesis by simp
  next
    case True
    with monitor_plugin_runs [OF ok Some, of a] assms(2) have
      "\<exists>i' k. p' = (put_instance n i' p)\<lparr>nextClient := k\<rparr> \<and> instance_ok i' \<and> cfg i' = cfg i \<and>
       (if MaxTimeouts (cfg i) \<le> timeoutCnt i
        then state i' = KILLED \<and> client i' = None \<and> timeoutCnt i' = timeoutCnt i
        else state i' = READY \<and> client i' = Some (nextClient p) \<and> timeoutCnt i' = timeoutCnt i + 1)"
      by simp
    then obtain i' k where
      m: "p' = (put_instance n i' p)\<lparr>nextClient := k\<rparr>" "instance_ok i'" "cfg i' = cfg i"
      and "if MaxTimeouts (cfg i) \<le> timeoutCnt i
        then state i' = KILLED \<and> client i' = None \<and> timeoutCnt i' = timeoutCnt i
        else state i' = READY \<and> client i' = Some (nextClient p) \<and> timeoutCnt i' = timeoutCnt i + 1"
      by blast
    then have m': "state i' \<in> {KILLED, READY}" "timeoutCnt i \<le> timeoutCnt i'"
      by (simp_all split: if_splits)
    have "lifecycle ByMonitor (phase_of i) (phase_of i')"
      using True m'(1) by (auto simp: phase_of_def)
    with good_put(2) [OF assms(1) Some m(2,3) m'(2)] m(1) show ?thesis by simp
  qed
qed

lemma good_goroutine:
  assumes "wf_pm p" and "plugin_go now ev k p = Some (Returns p')"
  shows "good ByGoroutine p p'"
proof -
  from plugin_go_ok [OF assms] obtain n i i' where
    g: "wf_pm p'" "map_of (pluginRegistry p) n = Some i" "cfg i' = cfg i"
      "timeoutCnt i' = timeoutCnt i" "client i' = client i"
      "state i' = state i \<or> state i' \<in> {UNKNOWN, UNRESPONSIVE}"
      "pluginRegistry p' = AList.update n i' (pluginRegistry p)"
    by blast
  have "phase_of i' = phase_of i \<or> phase_of i' \<in> {Degraded, Wedged, Hung}"
    using g(5,6) by (auto simp: phase_of_def)
  then have "lifecycle ByGoroutine (phase_of i) (phase_of i')" by simp
  with g moves_update [OF g(2,3)] show ?thesis by (simp add: good_def)
qed

lemmas good_steps = good_StartRecord good_StopRecord good_StartPlugin good_StopPlugin
  good_AddPlugin good_monitor good_goroutine

lemma pm_step_good: "pm_step e p p' \<Longrightarrow> wf_pm p \<Longrightarrow> good (actor_of e) p p'"
  by (cases rule: pm_step.cases) (auto intro: good_steps)

lemma pm_run_good:
  "pm_run p es q \<Longrightarrow> wf_pm p \<Longrightarrow> wf_pm q"
  by (induction rule: pm_run.induct) (auto dest: pm_step_good simp: good_def)

lemma pm_run_plugin:
  assumes "pm_run p es q" and "wf_pm p" and "map_of (pluginRegistry p) n = Some i"
  shows "\<exists>j. map_of (pluginRegistry q) n = Some j \<and> cfg j = cfg i \<and> timeoutCnt i \<le> timeoutCnt j \<and>
    (phase_of i = Wedged \<and> (\<forall>e \<in> set es. actor_of e \<noteq> ByGoroutine) \<longrightarrow> phase_of j = Wedged)"
  using assms
proof (induction arbitrary: i rule: pm_run.induct)
  case (run_Cons e p q es r)
  from pm_step_good [OF run_Cons.hyps(1) run_Cons.prems(1)] have
    g: "wf_pm q" "moves (actor_of e) (pluginRegistry p) (pluginRegistry q)"
    by (simp_all add: good_def)
  from g(2) run_Cons.prems(2) obtain k where
    k: "map_of (pluginRegistry q) n = Some k" "cfg k = cfg i" "timeoutCnt i \<le> timeoutCnt k"
      "lifecycle (actor_of e) (phase_of i) (phase_of k)"
    unfolding moves_def by blast
  have "phase_of k = Wedged" if "phase_of i = Wedged" "actor_of e \<noteq> ByGoroutine"
    using k(4) that wedged_only_by_goroutine by simp
  with run_Cons.IH [OF g(1) k(1)] k(2,3) show ?case by fastforce
qed auto

section \<open>Properties\<close>

text \<open>
  C6. In every state the manager reaches, whatever the requests, the answers of the plugins,
  the monitor's turns and the goroutines left behind: the registry is keyed by the plugins'
  names, every registered plugin has its queue, no plugin is left \<open>BUSY\<close> or \<open>STOPPING\<close>, a
  stopped or killed plugin has no process and a ready one has, and the timeouts counted stay
  within the configured maximum.
\<close>

theorem manager_invariant:
  assumes "Start v a (NewPluginManager dir cfgs noMac) = Returns (x, p)" and "pm_run p es q"
    and "map_of (pluginRegistry q) n = Some i"
  shows "Name (cfg i) = n \<and> has_key (incomingQueues (queueManager q)) n \<and>
    state i \<notin> {BUSY, STOPPING} \<and> (state i \<in> {STOPPED, KILLED} \<longrightarrow> client i = None) \<and>
    (state i = READY \<longrightarrow> client i \<noteq> None) \<and>
    0 \<le> timeoutCnt i \<and> timeoutCnt i \<le> max 0 (MaxTimeouts (cfg i))"
proof -
  have "wf_pm (NewPluginManager dir cfgs noMac)"
    by (simp add: wf_pm_def NewPluginManager_def wf_NewQueueManager)
  with keeps_wf_Start [of v a] assms(1) have "wf_pm p" unfolding keeps_wf_def by fastforce
  from pm_run_good [OF assms(2) this] assms(3) show ?thesis
    by (simp add: wf_pm_def instance_ok_def)
qed

text \<open>
  C16. The manager refines the automaton of phases: in each step of a client, the monitor or a
  goroutine every plugin stays registered with its configuration and moves only as the
  automaton allows that actor.
\<close>

theorem manager_refines_lifecycle:
  assumes "wf_pm p" and "pm_step e p p'" and "map_of (pluginRegistry p) n = Some i"
  shows "\<exists>i'. map_of (pluginRegistry p') n = Some i' \<and> cfg i' = cfg i \<and>
    lifecycle (actor_of e) (phase_of i) (phase_of i')"
  using pm_step_good [OF assms(2,1)] assms(3) by (auto simp: good_def moves_def)

text \<open>
  C24. One turn of the monitor for a plugin: unless it is \<open>UNRESPONSIVE\<close> nothing happens; with
  timeouts to spare it is restarted under a new process, ready, and the timeout is counted;
  at the maximum it ends \<open>KILLED\<close> without a process. This does not depend on how the hung
  plugin answers.
\<close>

theorem monitor_restarts_or_kills:
  assumes "wf_pm p" and "map_of (pluginRegistry p) n = Some i"
  shows "\<exists>p'. monitor_plugin a n p = Returns p' \<and>
    (state i \<noteq> UNRESPONSIVE \<longrightarrow> p' = p) \<and>
    (state i = UNRESPONSIVE \<longrightarrow> (\<exists>i'. map_of (pluginRegistry p') n = Some i' \<and>
       (if MaxTimeouts (cfg i) \<le> timeoutCnt i
        then state i' = KILLED \<and> client i' = None \<and> timeoutCnt i' = timeoutCnt i
        else state i' = READY \<and> client i' = Some (nextClient p) \<and>
          timeoutCnt i' = timeoutCnt i + 1)))"
proof (cases "state i = UNRESPONSIVE")
  case False
  with monitor_plugin_runs [OF wf_pm_ok [OF assms] assms(2), of a] show ?thesis by simp
next
  case True
  with monitor_plugin_runs [OF wf_pm_ok [OF assms] assms(2), of a] obtain p' i' k where
    "monitor_plugin a n p = Returns p'" and p': "p' = (put_instance n i' p)\<lparr>nextClient := k\<rparr>"
    and "if MaxTimeouts (cfg i) \<le> timeoutCnt i
      then state i' = KILLED \<and> client i' = None \<and> timeoutCnt i' = timeoutCnt i
      else state i' = READY \<and> client i' = Some (nextClient p) \<and> timeoutCnt i' = timeoutCnt i + 1"
    by (simp only: not_True_eq_False simp_thms if_False) blast
  moreover have "map_of (pluginRegistry p') n = Some i'" using p' by simp
  ultimately show ?thesis using True by blast
qed

text \<open>
  Timeouts are never forgotten: over any run a plugin's count only grows and stays within
  its maximum, however well it worked after a restart. (\<open>resetTimeoutCount\<close>, \<^emph>\<open>used when
  plugin is successfully restarted\<close> as its comment says, is called by no step.)
\<close>

theorem timeouts_are_never_forgotten:
  assumes "wf_pm p" and "pm_run p es q" and "map_of (pluginRegistry p) n = Some i"
  shows "\<exists>j. map_of (pluginRegistry q) n = Some j \<and> timeoutCnt i \<le> timeoutCnt j \<and>
    timeoutCnt j \<le> max 0 (MaxTimeouts (cfg i))"
proof -
  from pm_run_plugin [OF assms(2,1,3)] obtain j where
    j: "map_of (pluginRegistry q) n = Some j" "cfg j = cfg i" "timeoutCnt i \<le> timeoutCnt j" by blast
  from wf_pm_ok [OF pm_run_good [OF assms(2,1)] j(1)] j show ?thesis by (simp add: instance_ok_def)
qed

text \<open>
  A plugin without a process whose state is \<open>UNKNOWN\<close> is lost: as long as no goroutine
  runs, no request and no turn of the monitor ever moves it (it cannot be stopped, started or
  used).
\<close>

theorem wedged_plugin_stays_wedged:
  assumes "wf_pm p" and "map_of (pluginRegistry p) n = Some i" and "phase_of i = Wedged"
    and "pm_run p es q" and "\<forall>e \<in> set es. actor_of e \<noteq> ByGoroutine"
  shows "\<exists>j. map_of (pluginRegistry q) n = Some j \<and> state j = UNKNOWN \<and> client j = None"
proof -
  from pm_run_plugin [OF assms(4,1,2)] assms(3,5) obtain j where
    "map_of (pluginRegistry q) n = Some j" "phase_of j = Wedged" by blast
  then show ?thesis by (auto simp: phase_of_def split: plugin_state.splits if_splits)
qed


section \<open>Witnesses\<close>

definition demo_cfg :: plugin_config where
  "demo_cfg = \<lparr>Name = ''p'', Type = ''datasource'', ExecName = ''p'', Timeout = 30, MaxTimeouts = 1\<rparr>"

definition good_answers :: handshake_answers where
  "good_answers = \<lparr>push_env = answering, push_reply = Replied (), version_env = answering,
     version_reply = Replied ''2.0'', created_at = 1\<rparr>"

definition stop_acknowledged :: stop_answers where
  "stop_acknowledged = \<lparr>stop_env = answering, record_reply = Replied (), stop_reply = Replied ()\<rparr>"

definition demo_instance :: plugin_instance where
  "demo_instance = \<lparr>cfg = demo_cfg, client = Some 0, state = READY, timeoutCnt = 0,
     recordState = NOTRECORDING, startedAt = 1, stoppedAt = 0, version = ''2.0'', listeners = [],
     calls = [CallPushVersion ''1'', CallGetVersion]\<rparr>"

definition demo_queues :: queue_manager where
  "demo_queues = snd (RegisterSource ''p'' NewQueueManager)"

definition demo_pm :: "plugin_instance \<Rightarrow> (string \<times> goroutine) list \<Rightarrow> plugin_manager" where
  "demo_pm i gs = \<lparr>pluginDir = ''plugins'', pluginCfgs = [demo_cfg], pluginRegistry = [(''p'', i)],
     queueManager = demo_queues, quitClosed = False, permissionMap = [], noMacaroons = True,
     svc = None, goroutines = gs, nextClient = 1\<rparr>"

lemmas demo_defs = demo_cfg_def demo_instance_def demo_pm_def answering_def good_answers_def
  stop_acknowledged_def

lemmas run_defs = setter_defs set_state_def updateListeners_def connect_def plain_setter_defs
  admits_def Let_def

lemma demo_start: "Start ''1'' (\<lambda>_. good_answers) (NewPluginManager ''plugins'' [demo_cfg] True) =
    Returns (None, demo_pm demo_instance [])"
  by (simp add: Start_def NewPluginManager_def createPluginInstance_def demo_defs run_defs
      DATASOURCE_STR_def RegisterSource_def new_instance_def pushVersion_def getVersion_def
      put_instance_def demo_queues_def NewQueueManager_def)

lemma demo_wf: "instance_ok i \<Longrightarrow> cfg i = demo_cfg \<Longrightarrow> wf_pm (demo_pm i gs)"
  using wf_RegisterSource [OF wf_NewQueueManager, of "''p''"]
  by (simp add: wf_pm_def demo_pm_def demo_queues_def wf_map_def demo_cfg_def)
    (simp add: RegisterSource_def Let_def NewQueueManager_def)

lemma demo_instance_ok: "instance_ok demo_instance"
  by (simp add: instance_ok_def live_def typed_def demo_defs DATASOURCE_STR_def)

definition wedged_instance :: plugin_instance where
  "wedged_instance = demo_instance\<lparr>client := None, state := UNKNOWN, stoppedAt := 9,
     calls := calls demo_instance @ [CallStartRecord, CallStop, CallKill]\<rparr>"

lemma demo_lookup: "map_of (pluginRegistry (demo_pm i gs)) ''p'' = Some i"
  by (simp add: demo_pm_def)

text \<open>A failed \<open>StartRecord\<close> leaves a goroutine that has yet to set the state; when the plugin is
  stopped before it runs, the plugin ends up wedged.\<close>

lemma wedge_run:
  "pm_run (demo_pm demo_instance [])
     [EStartRecord answering (Failed (StatusError ''boom'')) ''p'', EStopPlugin stop_acknowledged ''p'',
      EGo 0 Proceed 0] (demo_pm wedged_instance [])"
proof -
  let ?i1 = "demo_instance\<lparr>state := UNKNOWN, calls := calls demo_instance @ [CallStartRecord]\<rparr>"
  let ?i2 = "wedged_instance\<lparr>state := STOPPED\<rparr>"
  have 1: "pm_step (EStartRecord answering (Failed (StatusError ''boom'')) ''p'')
      (demo_pm demo_instance []) (demo_pm ?i1 [(''p'', SetUnknown)])"
    by (rule pm_step.start_record)
      (simp add: StartRecord_def with_plugin_def startRecord_def demo_defs run_defs spawn_def
        put_instance_def)
  have 2: "pm_step (EStopPlugin stop_acknowledged ''p'')
      (demo_pm ?i1 [(''p'', SetUnknown)]) (demo_pm ?i2 [(''p'', SetUnknown)])"
    by (rule pm_step.stop_plugin)
      (simp add: StopPlugin_def with_plugin_def stop_def stop_plugin_def kill_def demo_defs run_defs
        spawn_def put_instance_def wedged_instance_def)
  have "plugin_go 0 Proceed 0 (demo_pm ?i2 [(''p'', SetUnknown)]) =
      Some (Returns (demo_pm wedged_instance []))"
    by (simp add: plugin_go_def demo_defs run_defs put_instance_def wedged_instance_def
        demo_queues_def RegisterSource_def NewQueueManager_def)
  from 1 2 pm_step.goroutine [OF this] show ?thesis by (auto intro: pm_run.intros)
qed

theorem manager_invariant_witness:
  "pm_run (demo_pm demo_instance [])
     [EStartRecord answering (Failed (StatusError ''boom'')) ''p'', EStopPlugin stop_acknowledged ''p'',
      EGo 0 Proceed 0] (demo_pm wedged_instance []) \<and>
   Name (cfg wedged_instance) = ''p'' \<and> timeoutCnt wedged_instance \<le> 1"
proof -
  from manager_invariant [OF demo_start wedge_run demo_lookup] wedge_run show ?thesis
    by (simp add: wedged_instance_def demo_defs)
qed

theorem manager_refines_lifecycle_witness:
  "\<exists>i'. monitor_plugin stop_acknowledged ''p'' (demo_pm (announce UNRESPONSIVE demo_instance) []) =
       Returns (demo_pm (announce UNRESPONSIVE demo_instance) []\<lparr>pluginRegistry := [(''p'', i')],
         nextClient := 2\<rparr>) \<and>
     lifecycle ByMonitor Hung (phase_of i')"
proof -
  let ?i = "announce UNRESPONSIVE demo_instance"
  have ok: "instance_ok ?i" using instance_ok_announce(1) [OF demo_instance_ok] by simp
  have wf: "wf_pm (demo_pm ?i [])" by (rule demo_wf [OF ok]) (simp add: demo_instance_def)
  let ?j = "demo_instance\<lparr>client := Some 1, timeoutCnt := 1, startedAt := 9, stoppedAt := 9,
    calls := calls demo_instance @ [CallStop, CallKill]\<rparr>"
  have run: "monitor_plugin stop_acknowledged ''p'' (demo_pm ?i []) =
      Returns ((demo_pm ?i [])\<lparr>pluginRegistry := [(''p'', ?j)], nextClient := 2\<rparr>)"
    by (simp add: monitor_plugin_def stop_or_kill_def stop_def stop_plugin_def kill_def demo_defs
        run_defs announce_def StartPlugin_def with_plugin_def put_instance_def spawn_def
        DATASOURCE_STR_def)
  have "phase_of ?i = Hung" by (simp add: phase_of_def)
  with manager_refines_lifecycle [OF wf pm_step.monitor [OF run] demo_lookup]
  have "lifecycle ByMonitor Hung (phase_of ?j)" by simp
  with run show ?thesis by blast
qed

theorem monitor_restarts_or_kills_witness:
  "\<exists>p' i'. monitor_plugin stop_acknowledged ''p'' (demo_pm (announce UNRESPONSIVE demo_instance) []) =
     Returns p' \<and> map_of (pluginRegistry p') ''p'' = Some i' \<and> state i' = READY \<and> timeoutCnt i' = 1"
proof -
  let ?i = "announce UNRESPONSIVE demo_instance"
  have wf: "wf_pm (demo_pm ?i [])"
    using demo_wf [of ?i] instance_ok_announce(1) [OF demo_instance_ok, of UNRESPONSIVE]
    by (simp add: demo_instance_def)
  from monitor_restarts_or_kills [OF wf demo_lookup, of stop_acknowledged] show ?thesis
    by (auto simp: demo_instance_def demo_cfg_def)
qed

theorem timeouts_are_never_forgotten_witness:
  "\<exists>j. map_of (pluginRegistry (demo_pm wedged_instance [])) ''p'' = Some j \<and>
     timeoutCnt demo_instance \<le> timeoutCnt j"
proof -
  have "wf_pm (demo_pm demo_instance [])"
    by (rule demo_wf [OF demo_instance_ok]) (simp add: demo_instance_def)
  from timeouts_are_never_forgotten [OF this wedge_run demo_lookup] show ?thesis by blast
qed

theorem wedged_plugin_stays_wedged_witness:
  "pm_run (demo_pm wedged_instance []) [EStartPlugin 3 ''p'', EMonitor stop_acknowledged ''p'']
     (demo_pm wedged_instance []) \<and>
   state wedged_instance = UNKNOWN \<and> client wedged_instance = None"
proof -
  have "wf_pm (demo_pm demo_instance [])"
    by (rule demo_wf [OF demo_instance_ok]) (simp add: demo_instance_def)
  from pm_run_good [OF wedge_run this] have wf: "wf_pm (demo_pm wedged_instance [])" .
  have w: "phase_of wedged_instance = Wedged" by (simp add: phase_of_def wedged_instance_def)
  have "pm_step (EStartPlugin 3 ''p'') (demo_pm wedged_instance []) (demo_pm wedged_instance [])"
    by (rule pm_step.start_plugin)
      (simp add: StartPlugin_def with_plugin_def demo_pm_def wedged_instance_def)
  moreover have "pm_step (EMonitor stop_acknowledged ''p'') (demo_pm wedged_instance [])
      (demo_pm wedged_instance [])"
    by (rule pm_step.monitor) (simp add: monitor_plugin_def demo_pm_def wedged_instance_def)
  ultimately have run: "pm_run (demo_pm wedged_instance [])
      [EStartPlugin 3 ''p'', EMonitor stop_acknowledged ''p''] (demo_pm wedged_instance [])"
    by (auto intro: pm_run.intros)
  from wedged_plugin_stays_wedged [OF wf demo_lookup w run] run demo_lookup show ?thesis by auto
qed

definition mute_answers :: handshake_answers where
  "mute_answers = good_answers\<lparr>push_reply := TimedOut\<rparr>"


end
