(* ===== verification/PluginStreams.thy ===== *)
theory PluginStreams
  imports PluginManager
begin

text \<open>
  The streaming handlers of \<^verbatim>\<open>plugins/service.go\<close>: \<open>Subscribe\<close>, \<open>Command\<close> and
  \<open>SubscribePluginState\<close>. They check the request's macaroon themselves (\<open>checkMacaroon\<close>), open
  a stream on a queue of their own, and then loop over a \<^verbatim>\<open>select\<close>; \<open>stream_turn\<close> is one turn
  of that loop, and \<open>state_turn\<close> one of the loop over state updates. What the client's stream answers to a send
  is a parameter, and so is the random suffix of the subscriber's name.
\<close>

datatype request =
  PluginRequest string | ControllerPluginRequest string "frame option" | OtherRequest

definition checkMacaroon ::
  "'mac bakery \<Rightarrow> rpc_context \<Rightarrow> request \<Rightarrow> string \<Rightarrow> plugin_manager \<Rightarrow> go_error option outcome" where
  "checkMacaroon bk ctx req fullMethod p =
     (case (case req of PluginRequest n \<Rightarrow> Some n | ControllerPluginRequest n _ \<Rightarrow> Some n
            | OtherRequest \<Rightarrow> None) of
        None \<Rightarrow> Returns (Some ErrInvalidRequestType)
      | Some pluginName \<Rightarrow>
          let ctx = ctx\<lparr>ctx_plugin := Some pluginName\<rparr> in
          (case svc p of
             None \<Rightarrow> Returns (Some ErrMacSvcNil)
           | Some s \<Rightarrow>
               (case map_of (permissionMap p) fullMethod of
                  None \<Rightarrow> Returns (Some ErrUnknownPermission)
                | Some uriPermissions \<Rightarrow>
                    (case map_of (ExternalValidators s) fullMethod of
                       Some validator \<Rightarrow> validator ctx uriPermissions fullMethod
                     | None \<Rightarrow> ValidateMacaroon bk s ctx uriPermissions fullMethod))))"

definition guarded ::
  "'mac bakery \<Rightarrow> rpc_context \<Rightarrow> request \<Rightarrow> string \<Rightarrow> 'a handler \<Rightarrow> 'a handler" where
  "guarded bk ctx req fullMethod body p =
     (if noMacaroons p then body p
      else
        and_then (checkMacaroon bk ctx req fullMethod p) (\<lambda>e.
        case e of
          Some err \<Rightarrow> Returns (Inl (status PermissionDenied err), p)
        | None \<Rightarrow> body p))"

section \<open>Opening and closing a stream\<close>

text \<open>A listener queue of the plugin, subscribed to under the subscriber's name; the deferred
  \<open>unsub\<close> and \<open>unregister\<close> take it down again.\<close>

definition open_stream :: "string \<Rightarrow> string \<Rightarrow> unit handler" where
  "open_stream name subscriberName p =
     (case RegisterListener name subscriberName (queueManager p) of
        (Inl e, qm) \<Rightarrow> Returns (Inl (status Internal e), p\<lparr>queueManager := qm\<rparr>)
      | (Inr q, qm) \<Rightarrow>
          (case Queue.Subscribe subscriberName q of
             (Inl e, q') \<Rightarrow>
               Returns (Inl (status Internal e),
                 p\<lparr>queueManager := deregister_listener name subscriberName qm\<rparr>)
           | (Inr sigChan, q') \<Rightarrow>
               Returns (Inr (), p\<lparr>queueManager := qm\<lparr>outgoingQueues :=
                 AList.update name (AList.update subscriberName q' (outgoing qm name))
                   (outgoingQueues qm)\<rparr>\<rparr>)))"

definition close_stream :: "string \<Rightarrow> string \<Rightarrow> plugin_manager \<Rightarrow> plugin_manager" where
  "close_stream name subscriberName p =
     p\<lparr>queueManager := deregister_listener name subscriberName (queueManager p)\<rparr>"

section \<open>The loop\<close>

definition PluginEOF :: string where
  "PluginEOF = ''plugin EOF''"

text \<open>How a handler ends: \<open>Some None\<close> returns \<^verbatim>\<open>nil\<close>, \<open>Some (Some e)\<close> an error; \<open>None\<close> goes on.\<close>

type_synonym handler_end = "rpc_error option option"

text \<open>\<^verbatim>\<open>frame.Type\<close> of a popped \<^verbatim>\<open>nil\<close> panics.\<close>

fun send_frames ::
  "(frame \<Rightarrow> go_error option) \<Rightarrow> nat \<Rightarrow> queue \<Rightarrow> (handler_end \<times> frame list \<times> queue) outcome" where
  "send_frames send 0 q = Returns (None, [], q)"
| "send_frames send (Suc k) q =
     (case Pop q of
        (None, q') \<Rightarrow> Panics
      | (Some f, q') \<Rightarrow>
          if FrameType f = EOF_type then Returns (Some (Some (Status OK PluginEOF)), [], q')
          else
            (case send f of
               Some e \<Rightarrow> Returns (Some (Some (Bare e)), [], q')
             | None \<Rightarrow>
                 and_then (send_frames send k q') (\<lambda>(r, fs, q''). Returns (r, f # fs, q''))))"

text \<open>The branch for all plugins skips \<^verbatim>\<open>nil\<close> and does not look for the end of a plugin.\<close>

fun send_all_frames ::
  "(frame \<Rightarrow> go_error option) \<Rightarrow> nat \<Rightarrow> queue \<Rightarrow> handler_end \<times> frame list \<times> queue" where
  "send_all_frames send 0 q = (None, [], q)"
| "send_all_frames send (Suc k) q =
     (case Pop q of
        (None, q') \<Rightarrow> send_all_frames send k q'
      | (Some f, q') \<Rightarrow>
          (case send f of
             Some e \<Rightarrow> (Some (Some (Bare e)), [], q')
           | None \<Rightarrow> (case send_all_frames send k q' of (r, fs, q'') \<Rightarrow> (r, f # fs, q''))))"

datatype stream_event = Length nat | ContextDone "go_error option"

definition stream_turn ::
  "(frame \<Rightarrow> go_error option) \<Rightarrow> stream_event \<Rightarrow> queue \<Rightarrow> (handler_end \<times> frame list \<times> queue) outcome" where
  "stream_turn send ev q =
     (case ev of
        Length 0 \<Rightarrow> Returns (Some (Some (Status OK PluginEOF)), [], q)
      | Length (Suc n) \<Rightarrow> send_frames send n q
      | ContextDone None \<Rightarrow> Returns (Some None, [], q)
      | ContextDone (Some e) \<Rightarrow> Returns (Some (Some (Bare e)), [], q))"

definition stream_all_turn ::
  "(frame \<Rightarrow> go_error option) \<Rightarrow> stream_event \<Rightarrow> queue \<Rightarrow> handler_end \<times> frame list \<times> queue" where
  "stream_all_turn send ev q =
     (case ev of
        Length 0 \<Rightarrow> (Some (Some (Status OK EOF_type)), [], q)
      | Length (Suc n) \<Rightarrow> send_all_frames send n q
      | ContextDone None \<Rightarrow> (Some None, [], q)
      | ContextDone (Some e) \<Rightarrow> (Some (Some (Bare e)), [], q))"

section \<open>Streams of all plugins\<close>

text \<open>
  A \<^verbatim>\<open>sync.WaitGroup\<close> is its counter. The loop goroutines get the group by value: each calls
  \<open>wg_done\<close> on a copy, made after the counter was incremented for it.
\<close>

definition wg_done :: "nat \<Rightarrow> nat outcome" where
  "wg_done wg = (if wg = 0 then Panics else Returns (wg - 1))"

definition wg_wait :: "nat \<Rightarrow> unit outcome" where
  "wg_wait wg = (if wg = 0 then Returns () else Blocks)"

fun spawn_loops :: "string list \<Rightarrow> nat \<Rightarrow> (string \<times> nat) list \<times> nat" where
  "spawn_loops [] wg = ([], wg)"
| "spawn_loops (name # names) wg =
     (case spawn_loops names (wg + 1) of (loops, wg') \<Rightarrow> ((name, wg + 1) # loops, wg'))"

fun loops_done :: "(string \<times> nat) list \<Rightarrow> unit outcome" where
  "loops_done [] = Returns ()"
| "loops_done ((name, wg) # loops) = and_then (wg_done wg) (\<lambda>_. loops_done loops)"

text \<open>The deferred clean-up: the loops are told to quit and do, then the handler waits.\<close>

definition stream_cleanUp :: "string list \<Rightarrow> unit outcome" where
  "stream_cleanUp names =
     (case spawn_loops names 0 of (loops, wg) \<Rightarrow> and_then (loops_done loops) (\<lambda>_. wg_wait wg))"

text \<open>A loop goroutine registers a listener of its plugin as \<open>open_stream\<close> does, and then copies
  what arrives to the queue of the stream, \<^verbatim>\<open>nil\<close> frames included. \<open>loop_turn\<close> is one turn of
  its \<^verbatim>\<open>select\<close>; the flag tells whether the loop goes on.\<close>

fun copy_frames :: "nat \<Rightarrow> queue \<Rightarrow> queue \<Rightarrow> (queue \<times> queue) outcome" where
  "copy_frames 0 q dataQ = Returns (q, dataQ)"
| "copy_frames (Suc k) q dataQ =
     (case Pop q of (frame, q) \<Rightarrow> and_then (Push frame dataQ) (copy_frames k q))"

datatype loop_event = LoopLength nat | LoopQuit

definition loop_turn :: "loop_event \<Rightarrow> queue \<Rightarrow> queue \<Rightarrow> (bool \<times> queue \<times> queue) outcome" where
  "loop_turn ev q dataQ =
     (case ev of
        LoopLength 0 \<Rightarrow> Returns (False, q, dataQ)
      | LoopLength (Suc n) \<Rightarrow>
          and_then (copy_frames n q dataQ) (\<lambda>(q, dataQ). Returns (True, q, dataQ))
      | LoopQuit \<Rightarrow> Returns (False, q, dataQ))"

section \<open>The handlers up to their loop\<close>

text \<open>For \<^verbatim>\<open>all\<close> the result is the names of the plugins whose loops were started.\<close>

definition Subscribe ::
  "'mac bakery \<Rightarrow> rpc_context \<Rightarrow> string \<Rightarrow> string \<Rightarrow> string list handler" where
  "Subscribe bk ctx name rnd =
     guarded bk ctx (PluginRequest name) ''/lanirpc.PluginAPI/Subscribe'' (\<lambda>p.
       if name = ''all'' then Returns (Inr (map fst (pluginRegistry p)), p)
       else if \<not> has_key (pluginRegistry p) name
       then Returns (Inl (status InvalidArgument ErrUnregsiteredPlugin), p)
       else
         and_then (open_stream name (name @ rnd) p) (\<lambda>(r, p).
           Returns (case r of Inl e \<Rightarrow> Inl e | Inr _ \<Rightarrow> Inr [name], p)))"

definition Command ::
  "'mac bakery \<Rightarrow> rpc_context \<Rightarrow> plugin_env \<Rightarrow> unit reply \<Rightarrow> string \<Rightarrow> frame option \<Rightarrow> string \<Rightarrow>
     unit handler" where
  "Command bk ctx env r name f rnd =
     guarded bk ctx (ControllerPluginRequest name f) ''/lanirpc.PluginAPI/Command''
       (with_plugin name (\<lambda>i p.
         and_then (command env r f i) (\<lambda>(err, g, i).
         let p = spawn name g (put_instance name i p) in
         case err of
           Some e \<Rightarrow> Returns (Inl (status Internal e), p)
         | None \<Rightarrow> open_stream name (name @ rnd) p)))"

text \<open>The loop of \<open>subscribeStateLoop\<close>: report the current state, then every change.\<close>

fun state_updates :: "plugin_state \<Rightarrow> plugin_state list \<Rightarrow> plugin_state list" where
  "state_updates lastState [] = []"
| "state_updates lastState (s # signals) =
     (if s \<noteq> lastState then s # state_updates s signals else state_updates lastState signals)"

definition subscribeStateLoop ::
  "string \<Rightarrow> string \<Rightarrow> plugin_state list \<Rightarrow> plugin_manager \<Rightarrow>
     ((go_error + plugin_state list) \<times> plugin_manager) outcome" where
  "subscribeStateLoop name rnd signals p =
     (case map_of (pluginRegistry p) name of
        None \<Rightarrow> Panics
      | Some i \<Rightarrow>
          (case subscribeState (name @ rnd) i of
             (Inl e, i') \<Rightarrow> Returns (Inl e, p)
           | (Inr _, i') \<Rightarrow>
               Returns (Inr (state i' # state_updates (state i') signals), put_instance name i' p)))"

definition SubscribePluginState ::
  "'mac bakery \<Rightarrow> rpc_context \<Rightarrow> string \<Rightarrow> string list handler" where
  "SubscribePluginState bk ctx name =
     guarded bk ctx (PluginRequest name) ''/lanirpc.PluginAPI/SubscribePluginState'' (\<lambda>p.
       if name = ''all'' then Returns (Inr (map fst (pluginRegistry p)), p)
       else if \<not> has_key (pluginRegistry p) name
       then Returns (Inl (status InvalidArgument ErrUnregsiteredPlugin), p)
       else Returns (Inr [name], p))"

section \<open>Streams of states\<close>

text \<open>The loop of \<open>SubscribePluginState\<close>. The queue of the updates is a type of a library: \<open>pop\<close> takes the
  oldest update of it, or \<open>None\<close>, which is skipped.\<close>

fun send_updates ::
  "('q \<Rightarrow> 'u option \<times> 'q) \<Rightarrow> ('u \<Rightarrow> go_error option) \<Rightarrow> nat \<Rightarrow> 'q \<Rightarrow> handler_end \<times> 'u list \<times> 'q" where
  "send_updates pop send 0 q = (None, [], q)"
| "send_updates pop send (Suc k) q =
     (case pop q of
        (None, q') \<Rightarrow> send_updates pop send k q'
      | (Some u, q') \<Rightarrow>
          (case send u of
             Some e \<Rightarrow> (Some (Some (Bare e)), [], q')
           | None \<Rightarrow> (case send_updates pop send k q' of (r, us, q'') \<Rightarrow> (r, u # us, q''))))"

definition state_turn ::
  "('q \<Rightarrow> 'u option \<times> 'q) \<Rightarrow> ('u \<Rightarrow> go_error option) \<Rightarrow> stream_event \<Rightarrow> 'q \<Rightarrow>
     handler_end \<times> 'u list \<times> 'q" where
  "state_turn pop send ev q =
     (case ev of
        Length 0 \<Rightarrow> (Some (Some (Status OK EOF_type)), [], q)
      | Length (Suc n) \<Rightarrow> send_updates pop send n q
      | ContextDone None \<Rightarrow> (Some None, [], q)
      | ContextDone (Some e) \<Rightarrow> (Some (Some (Bare e)), [], q))"

fun run_states ::
  "('q \<Rightarrow> 'u option \<times> 'q) \<Rightarrow> ('u \<Rightarrow> go_error option) \<Rightarrow> (('q \<Rightarrow> 'q) \<times> stream_event) list \<Rightarrow> 'q \<Rightarrow>
     handler_end \<times> 'u list \<times> 'q" where
  "run_states pop send [] q = (None, [], q)"
| "run_states pop send ((fill, ev) # evs) q =
     (case state_turn pop send ev (fill q) of
        (Some r, us, q') \<Rightarrow> (Some r, us, q')
      | (None, us, q') \<Rightarrow> (case run_states pop send evs q' of (r, us', q'') \<Rightarrow> (r, us @ us', q'')))"

text \<open>On a queue that is the list of its updates, whatever is pushed between the turns, a client is sent
  a prefix of the updates, in order, and an error of its stream ends the handler at once.\<close>

fun list_pop :: "'u list \<Rightarrow> 'u option \<times> 'u list" where
  "list_pop [] = (None, [])"
| "list_pop (u # us) = (Some u, us)"

lemma send_updates_prefix:
  "send_updates list_pop send n us = (r, sent, rest) \<Longrightarrow>
     (r = None \<longrightarrow> us = sent @ rest) \<and> (\<exists>lost. us = sent @ lost @ rest \<and> length lost \<le> 1) \<and> (\<forall>u \<in> set sent. send u = None)"
proof (induction n arbitrary: us r sent rest)
  case (Suc n)
  show ?case
  proof (cases us)
    case Nil
    with Suc.prems Suc.IH [of "[]" r sent rest] show ?thesis by simp
  next
    case (Cons u vs)
    show ?thesis
    proof (cases "send u")
      case None
      obtain r' sent' rest' where s: "send_updates list_pop send n vs = (r', sent', rest')" by (metis prod_cases3)
      from Suc.prems Cons None s Suc.IH [OF s] show ?thesis by auto
    next
      case (Some e)
      with Suc.prems Cons show ?thesis by auto
    qed
  qed
qed simp

lemma run_states_prefix:
  assumes "run_states list_pop send (map (\<lambda>(us, ev). (\<lambda>q. q @ us, ev)) evs) q = (r, sent, rest)"
  shows "prefix sent (q @ concat (map fst evs))"
  using assms
proof (induction evs arbitrary: q r sent rest)
  case (Cons e evs)
  obtain us ev where e: "e = (us, ev)" by force
  obtain r1 sent1 rest1 where t: "state_turn list_pop send ev (q @ us) = (r1, sent1, rest1)" by (metis prod_cases3)
  have p: "(r1 = None \<longrightarrow> q @ us = sent1 @ rest1) \<and> prefix sent1 (q @ us)"
  proof (cases ev)
    case (Length n)
    with t show ?thesis by (cases n) (auto simp: state_turn_def dest!: send_updates_prefix)
  next
    case (ContextDone c)
    with t show ?thesis by (cases c) (auto simp: state_turn_def)
  qed
  show ?case
  proof (cases r1)
    case None
    obtain r2 sent2 rest2 where s: "run_states list_pop send (map (\<lambda>(us, ev). (\<lambda>q. q @ us, ev)) evs) rest1 = (r2, sent2, rest2)"
      by (metis prod_cases3)
    with Cons.prems e t None have "sent = sent1 @ sent2" by simp
    with Cons.IH [OF s] p None e show ?thesis by (metis append.assoc concat.simps(2) fst_conv list.simps(9) same_prefix_prefix)
  next
    case (Some x)
    with Cons.prems e t have "sent = sent1" by simp
    with p e prefix_prefix [of sent1 "q @ us" "concat (map fst evs)"] show ?thesis by simp
  qed
qed simp

section \<open>What is sent\<close>

abbreviation not_eof :: "frame \<Rightarrow> bool" where
  "not_eof f \<equiv> FrameType f \<noteq> EOF_type"

lemma Pop_some: "q_items q = map Some (f # fs) \<Longrightarrow>
    Pop q = (Some f, q\<lparr>q_items := map Some fs\<rparr>)"
  by (simp add: Pop_def)

lemma Pop_none: "q_items q = [] \<Longrightarrow> Pop q = (None, q)"
  by (simp add: Pop_def)

text \<open>
  One turn of a stream whose client takes every frame: the frames waiting are sent in
  order up to the first end-of-plugin frame, which ends the handler with \<^verbatim>\<open>plugin EOF\<close> and is
  not sent; without one the handler goes on if as many frames as announced were there, and
  otherwise panics on the missing one.
\<close>

theorem stream_turn_sends_until_eof:
  assumes "\<And>f. send f = None" and "q_items q = map Some fs"
  shows "stream_turn send (Length (Suc n)) q =
    (if \<exists>f \<in> set (take n fs). \<not> not_eof f
     then Returns (Some (Some (Status OK PluginEOF)), takeWhile not_eof fs,
       q\<lparr>q_items := map Some (tl (dropWhile not_eof fs))\<rparr>)
     else if n \<le> length fs then Returns (None, take n fs, q\<lparr>q_items := map Some (drop n fs)\<rparr>)
     else Panics)"
  using assms(2)
proof (induction n arbitrary: q fs)
  case 0
  then show ?case by (cases q) (simp add: stream_turn_def)
next
  case (Suc n)
  show ?case
  proof (cases fs)
    case Nil
    with Suc.prems Pop_none [of q] show ?thesis by (simp add: stream_turn_def)
  next
    case (Cons f gs)
    let ?q = "q\<lparr>q_items := map Some gs\<rparr>"
    have pop: "Pop q = (Some f, ?q)" using Suc.prems Cons by (simp add: Pop_some)
    have rest: "stream_turn send (Length (Suc n)) ?q =
      (if \<exists>f \<in> set (take n gs). \<not> not_eof f
       then Returns (Some (Some (Status OK PluginEOF)), takeWhile not_eof gs,
         ?q\<lparr>q_items := map Some (tl (dropWhile not_eof gs))\<rparr>)
       else if n \<le> length gs then Returns (None, take n gs, ?q\<lparr>q_items := map Some (drop n gs)\<rparr>)
       else Panics)"
      by (rule Suc.IH) simp
    show ?thesis
    proof (cases "not_eof f")
      case False
      with pop Cons show ?thesis by (simp add: stream_turn_def)
    next
      case True
      with pop assms(1) have "stream_turn send (Length (Suc (Suc n))) q =
          and_then (stream_turn send (Length (Suc n)) ?q) (\<lambda>(r, fs, q''). Returns (r, f # fs, q''))"
        by (simp add: stream_turn_def)
      with rest True Cons show ?thesis by simp
    qed
  qed
qed

lemma spawn_loops_count: "snd (spawn_loops names wg) = wg + length names"
  by (induction names arbitrary: wg) (auto split: prod.splits simp: split_beta)

lemma spawn_loops_copies: "(n, c) \<in> set (fst (spawn_loops names wg)) \<Longrightarrow> 0 < c"
  by (induction names arbitrary: wg) (auto simp: split_beta)

lemma loops_done_copies: "(\<And>n c. (n, c) \<in> set loops \<Longrightarrow> 0 < c) \<Longrightarrow> loops_done loops = Returns ()"
proof (induction loops)
  case (Cons a loops)
  obtain n c where "a = (n, c)" by force
  with Cons show ?case by (auto simp: wg_done_def)
qed simp

lemma stream_cleanUp_blocks: "names \<noteq> [] \<Longrightarrow> stream_cleanUp names = Blocks"
  using spawn_loops_count [of names 0] loops_done_copies [of "fst (spawn_loops names 0)"]
    spawn_loops_copies [of _ _ names 0]
  by (auto simp: stream_cleanUp_def wg_wait_def split_beta)

lemma guarded_passes:
  assumes "guarded bk ctx req m body p = Returns (Inr x, p')"
  shows "body p = Returns (Inr x, p') \<and> (noMacaroons p \<or> checkMacaroon bk ctx req m p = Returns None)"
  using assms by (auto simp: guarded_def outcome_simps split: if_splits option.splits)

text \<open>
  The clean-up of a stream of all plugins never returns when there is a plugin: the loops
  call \<open>Done\<close> on copies of the wait group, and the handler waits for its own counter, which
  stays at the number of plugins. So every accepted \<open>Subscribe\<close> for \<^verbatim>\<open>all\<close> on a manager with
  plugins hangs when it ends.
\<close>

theorem subscribe_all_never_ends:
  assumes "Subscribe bk ctx ''all'' rnd p = Returns (Inr names, p')" and "pluginRegistry p \<noteq> []"
  shows "names = map fst (pluginRegistry p) \<and> stream_cleanUp names = Blocks"
  using guarded_passes [OF assms(1) [unfolded Subscribe_def]] assms(2)
  by (auto intro: stream_cleanUp_blocks)

lemma checkMacaroon_accepts:
  assumes "checkMacaroon bk ctx req m p = Returns None" and "svc p = Some s"
    and "ExternalValidators s = []" and "m \<in> set knownPluginMethods"
  shows "\<exists>name perms v bs mac.
    (req = PluginRequest name \<or> (\<exists>f. req = ControllerPluginRequest name f)) \<and>
    map_of (permissionMap p) m = Some perms \<and>
    ctx_md ctx = Some [v] \<and> hex_decode v = Inr bs \<and> Unmarshal bk bs = Inr mac \<and>
    (Allow bk (ctx\<lparr>ctx_plugin := Some name\<rparr>) mac perms = None \<or>
      Allow bk (ctx\<lparr>ctx_plugin := Some name\<rparr>) mac [\<lparr>Entity = ''uri'', Action = m\<rparr>] = None) \<and>
    (registeredPlugins s \<noteq> [] \<longrightarrow>
      (\<exists>c \<in> set (Caveats bk mac). caveat_allows name c = Returns True))"
proof -
  from assms obtain name perms where
    req: "req = PluginRequest name \<or> (\<exists>f. req = ControllerPluginRequest name f)"
    and perms: "map_of (permissionMap p) m = Some perms"
    and val: "ValidateMacaroon bk s (ctx\<lparr>ctx_plugin := Some name\<rparr>) perms m = Returns None"
    by (auto simp: checkMacaroon_def Let_def split: request.splits option.splits)
  from validated_means_allowed [OF val] assms(4) obtain v bs mac where
    "ctx_md ctx = Some [v]" "hex_decode v = Inr bs" "Unmarshal bk bs = Inr mac"
    "Allow bk (ctx\<lparr>ctx_plugin := Some name\<rparr>) mac perms = None \<or>
      Allow bk (ctx\<lparr>ctx_plugin := Some name\<rparr>) mac [\<lparr>Entity = ''uri'', Action = m\<rparr>] = None"
    "registeredPlugins s \<noteq> [] \<longrightarrow> (\<exists>c \<in> set (Caveats bk mac). caveat_allows name c = Returns True)"
    by auto
  with req perms show ?thesis by blast
qed


text \<open>
  A state subscriber is sent the current state and then exactly the changes: the loop that
  forwards the signals computes the sequence of states with adjacent repetitions removed.
\<close>

theorem state_updates_are_the_changes:
  "s # state_updates s signals = remdups_adj (s # signals)"
  by (induction s signals rule: state_updates.induct) auto

section \<open>Witnesses\<close>

definition demo_frame :: "string \<Rightarrow> frame" where
  "demo_frame ty = \<lparr>Source = ''rsync'', FrameType = ty, Timestamp = 5, Payload = ''x''\<rparr>"

definition demo_streams :: plugin_manager where
  "demo_streams = NewPluginManager ''plugins'' [] False\<lparr>
     pluginRegistry := [(''rsync'', new_instance
       \<lparr>Name = ''rsync'', Type = DATASOURCE_STR, ExecName = ''rsync'', Timeout = 30,
        MaxTimeouts = 3\<rparr> 0 7)],
     permissionMap := [(''/lanirpc.PluginAPI/SubscribePluginState'', [])],
     svc := Some demo_service\<rparr>"

definition demo_request :: "string \<Rightarrow> rpc_context" where
  "demo_request caveat = \<lparr>ctx_md = Some [hex_encode caveat], ctx_plugin = None, ctx_root_key_id = None\<rparr>"

lemmas demo_stream_defs = demo_frame_def demo_streams_def demo_request_def demo_bakery_def
  demo_service_def NewPluginManager_def

theorem stream_turn_sends_until_eof_witness:
  "\<exists>q'. stream_turn (\<lambda>_. None) (Length 4)
     (NewQueue 20\<lparr>q_items := map Some [demo_frame ''data'', demo_frame ''EOF'', demo_frame ''late'']\<rparr>) =
     Returns (Some (Some (Status OK PluginEOF)), [demo_frame ''data''], q') \<and>
     q_items q' = [Some (demo_frame ''late'')]"
  using stream_turn_sends_until_eof [of "\<lambda>_. None"
      "NewQueue 20\<lparr>q_items := map Some [demo_frame ''data'', demo_frame ''EOF'', demo_frame ''late'']\<rparr>"
      "[demo_frame ''data'', demo_frame ''EOF'', demo_frame ''late'']" 3]
  by (simp add: eval_nat_numeral demo_frame_def EOF_type_def)

lemma demo_validates:
  "ValidateMacaroon (demo_bakery None) demo_service
     ((demo_request ''declared plugins rsync:all'')\<lparr>ctx_plugin := Some n\<rparr>) [] m = Returns None"
  if "n \<in> {''rsync'', ''all''}"
  using that by (auto simp: ValidateMacaroon_def hex_decode_encode demo_stream_defs
      authorize_plugin_def caveat_allows_def contains_char simp del: hex_encode.simps)

theorem subscribe_all_never_ends_witness:
  "\<exists>p'. Subscribe (demo_bakery None) (demo_request ''declared plugins rsync:all'') ''all'' ''1''
      (demo_streams\<lparr>noMacaroons := True\<rparr>) = Returns (Inr [''rsync''], p') \<and>
    stream_cleanUp [''rsync''] = Blocks"
proof -
  have run: "Subscribe (demo_bakery None) (demo_request ''declared plugins rsync:all'') ''all'' ''1''
      (demo_streams\<lparr>noMacaroons := True\<rparr>) = Returns (Inr [''rsync''], demo_streams\<lparr>noMacaroons := True\<rparr>)"
    by (simp add: Subscribe_def guarded_def demo_stream_defs)
  from subscribe_all_never_ends [OF run] run show ?thesis by (auto simp: demo_stream_defs)
qed


end
