(* ===== verification/Interceptors.thy ===== *)
theory Interceptors
  imports PluginStreams
begin

text \<open>
  File \<^verbatim>\<open>intercept/grpc_intercept.go\<close>: the gates every gRPC call passes before its handler. The
  interceptor has a state, which the boot sequence advances, a permission map and, once the
  daemon is unlocked, a macaroon service. \<open>CreateGrpcOptions\<close> chains a logging interceptor, the
  state check and the macaroon check; the chaining function is gRPC middleware outside of the
  repository, so it is a parameter with its documented law, \<open>chain_law\<close>.

  A unary handler takes the context, the request and the world behind the server to an answer
  and a new world; the world is a type parameter, and so is what writing a line to the log
  does to it.
\<close>

section \<open>State\<close>

definition waitingToStart :: "8 word" where "waitingToStart = 0"
definition daemonLocked :: "8 word" where "daemonLocked = 1"
definition daemonUnlocked :: "8 word" where "daemonUnlocked = 2"
definition rpcActive :: "8 word" where "rpcActive = 3"

lemmas rpc_state_defs = waitingToStart_def daemonLocked_def daemonUnlocked_def rpcActive_def

definition macaroonWhitelist :: "string list" where
  "macaroonWhitelist =
     [''/lanirpc.Lani/TestCommand'', ''/lanirpc.Unlocker/Login'', ''/lanirpc.Unlocker/SetPassword'',
      ''/lanirpc.Unlocker/ChangePassword'', ''/lanirpc.Lani/SetTemperature'',
      ''/lanirpc.Lani/SetPressure'', ''/lanirpc.Lani/StartRecording'', ''/lanirpc.Lani/StopRecording'',
      ''/lanirpc.Lani/SubscribeDataStream'', ''/lanirpc.Lani/LoadTestPlan'',
      ''/lanirpc.Lani/StartTestPlan'', ''/lanirpc.Lani/StopTestPlan'',
      ''/lanirpc.Lani/InsertROIMarker'', ''/lanirpc.Health/Check'']"

definition pluginMethodNames :: "string list" where
  "pluginMethodNames =
     [''/lanirpc.PluginAPI/StartRecord'', ''/lanirpc.PluginAPI/StopRecord'',
      ''/lanirpc.PluginAPI/StartPlugin'', ''/lanirpc.PluginAPI/StopPlugin'',
      ''/lanirpc.PluginAPI/GetPlugin'']"

definition pluginStreamingMethodNames :: "string list" where
  "pluginStreamingMethodNames =
     [''/lanirpc.PluginAPI/Subscribe'', ''/lanirpc.PluginAPI/Command'',
      ''/lanirpc.PluginAPI/SubscribePluginState'']"

record grpc_interceptor =
  rpc_state :: "8 word"
  i_noMacaroons :: bool
  i_permissionMap :: "op list gomap"
  i_svc :: "mac_service option"

definition NewGrpcInterceptor :: "bool \<Rightarrow> grpc_interceptor" where
  "NewGrpcInterceptor noMac =
     \<lparr>rpc_state = waitingToStart, i_noMacaroons = noMac, i_permissionMap = [], i_svc = None\<rparr>"

definition SetWaitingToStart :: "grpc_interceptor \<Rightarrow> grpc_interceptor" where
  "SetWaitingToStart i = i\<lparr>rpc_state := waitingToStart\<rparr>"

definition SetDaemonLocked :: "grpc_interceptor \<Rightarrow> grpc_interceptor" where
  "SetDaemonLocked i = i\<lparr>rpc_state := daemonLocked\<rparr>"

definition SetDaemonUnlocked :: "grpc_interceptor \<Rightarrow> grpc_interceptor" where
  "SetDaemonUnlocked i = i\<lparr>rpc_state := daemonUnlocked\<rparr>"

definition SetRPCActive :: "grpc_interceptor \<Rightarrow> grpc_interceptor" where
  "SetRPCActive i = i\<lparr>rpc_state := rpcActive\<rparr>"

definition AddMacaroonService :: "mac_service \<Rightarrow> grpc_interceptor \<Rightarrow> grpc_interceptor" where
  "AddMacaroonService service i = i\<lparr>i_svc := Some service\<rparr>"

definition AddPermission ::
  "string \<Rightarrow> op list \<Rightarrow> grpc_interceptor \<Rightarrow> go_error option \<times> grpc_interceptor" where
  "AddPermission method ops i =
     (if has_key (i_permissionMap i) method then (Some ErrDuplicateMacConstraints, i)
      else (None, i\<lparr>i_permissionMap := AList.update method ops (i_permissionMap i)\<rparr>))"

text \<open>The permissions before the first duplicate stay added.\<close>

fun AddPermissions ::
  "op list gomap \<Rightarrow> grpc_interceptor \<Rightarrow> go_error option \<times> grpc_interceptor" where
  "AddPermissions [] i = (None, i)"
| "AddPermissions ((m, ops) # perms) i =
     (case AddPermission m ops i of
        (Some e, i) \<Rightarrow> (Some e, i)
      | (None, i) \<Rightarrow> AddPermissions perms i)"

text \<open>A copy of the map: its lists are copied too, and HOL's lists are values.\<close>

definition Permissions :: "grpc_interceptor \<Rightarrow> op list gomap" where
  "Permissions i = map (\<lambda>(k, v). (k, v)) (i_permissionMap i)"

section \<open>The checks\<close>

text \<open>The services of the daemon; only one of them implements \<^verbatim>\<open>lanirpc.UnlockerServer\<close>.\<close>

datatype server = LaniServer | PluginAPIServer | HealthServer | UnlockerServer

definition checkRPCState :: "grpc_interceptor \<Rightarrow> server \<Rightarrow> go_error option" where
  "checkRPCState i srv =
     (if rpc_state i = waitingToStart then Some ErrWaitingToStart
      else if rpc_state i = daemonLocked then
        (if srv \<noteq> UnlockerServer then Some ErrDaemonLocked else None)
      else if rpc_state i = daemonUnlocked \<or> rpc_state i = rpcActive then
        (if srv = UnlockerServer then Some ErrDaemonUnlocked else None)
      else Some ErrInvalidRPCState)"

definition checkMacaroon ::
  "'mac bakery \<Rightarrow> grpc_interceptor \<Rightarrow> rpc_context \<Rightarrow> string \<Rightarrow> go_error option outcome" where
  "checkMacaroon bk i ctx fullMethod =
     (if i_noMacaroons i then Returns None
      else if fullMethod \<in> set macaroonWhitelist then Returns None
      else
        (case i_svc i of
           None \<Rightarrow> Returns (Some ErrMacSvcNil)
         | Some s \<Rightarrow>
             (case map_of (i_permissionMap i) fullMethod of
                None \<Rightarrow> Returns (Some ErrUnknownPermission)
              | Some uriPermissions \<Rightarrow>
                  (case map_of (ExternalValidators s) fullMethod of
                     Some validator \<Rightarrow> validator ctx uriPermissions fullMethod
                   | None \<Rightarrow> ValidateMacaroon bk s ctx uriPermissions fullMethod))))"

definition addPluginNametoContext :: "rpc_context \<Rightarrow> request \<Rightarrow> go_error + rpc_context" where
  "addPluginNametoContext ctx req =
     (case req of
        PluginRequest n \<Rightarrow> Inr (ctx\<lparr>ctx_plugin := Some n\<rparr>)
      | ControllerPluginRequest n _ \<Rightarrow> Inr (ctx\<lparr>ctx_plugin := Some n\<rparr>)
      | OtherRequest \<Rightarrow> Inl ErrInvalidRequestType)"

section \<open>Unary interceptors\<close>

record call_info =
  FullMethod :: string
  Server :: server

type_synonym ('w, 'a) unary_handler =
  "rpc_context \<Rightarrow> request \<Rightarrow> 'w \<Rightarrow> ((rpc_error + 'a) \<times> 'w) outcome"

type_synonym ('w, 'a) unary_interceptor =
  "call_info \<Rightarrow> ('w, 'a) unary_handler \<Rightarrow> ('w, 'a) unary_handler"

type_synonym 'w logger = "string \<Rightarrow> rpc_error \<Rightarrow> 'w \<Rightarrow> 'w"

definition logUnaryServerInterceptor :: "'w logger \<Rightarrow> ('w, 'a) unary_interceptor" where
  "logUnaryServerInterceptor log info handler ctx req w =
     and_then (handler ctx req w) (\<lambda>(resp, w).
       Returns (resp, (case resp of Inl err \<Rightarrow> log (FullMethod info) err w | Inr _ \<Rightarrow> w)))"

definition state_refusal :: "go_error \<Rightarrow> rpc_error" where
  "state_refusal err =
     (if err \<noteq> ErrInvalidRPCState then status FailedPrecondition err else status Internal err)"

definition rpcStateUnaryServerInterceptor ::
  "grpc_interceptor \<Rightarrow> ('w, 'a) unary_interceptor" where
  "rpcStateUnaryServerInterceptor i info handler ctx req w =
     (case checkRPCState i (Server info) of
        Some err \<Rightarrow> Returns (Inl (state_refusal err), w)
      | None \<Rightarrow> handler ctx req w)"

definition MacaroonUnaryServerInterceptor ::
  "'mac bakery \<Rightarrow> grpc_interceptor \<Rightarrow> ('w, 'a) unary_interceptor" where
  "MacaroonUnaryServerInterceptor bk i info handler ctx req w =
     (if StrInStrSlice pluginMethodNames (FullMethod info) then
        (case addPluginNametoContext ctx req of
           Inl err \<Rightarrow> Returns (Inl (status Internal err), w)
         | Inr ctx \<Rightarrow>
             and_then (checkMacaroon bk i ctx (FullMethod info)) (\<lambda>r.
             case r of
               Some err \<Rightarrow> Returns (Inl (status PermissionDenied err), w)
             | None \<Rightarrow> handler ctx req w))
      else
        and_then (checkMacaroon bk i ctx (FullMethod info)) (\<lambda>r.
        case r of
          Some err \<Rightarrow> Returns (Inl (status PermissionDenied err), w)
        | None \<Rightarrow> handler ctx req w))"

section \<open>Stream interceptors\<close>

type_synonym 'w stream_handler =
  "server \<Rightarrow> rpc_context \<Rightarrow> 'w \<Rightarrow> (rpc_error option \<times> 'w) outcome"

type_synonym 'w stream_interceptor = "string \<Rightarrow> 'w stream_handler \<Rightarrow> 'w stream_handler"

definition logStreamServerInterceptor :: "'w logger \<Rightarrow> 'w stream_interceptor" where
  "logStreamServerInterceptor log fullMethod handler srv ctx w =
     and_then (handler srv ctx w) (\<lambda>(r, w).
       Returns (r, (case r of Some err \<Rightarrow> log fullMethod err w | None \<Rightarrow> w)))"

definition rpcStateStreamServerInterceptor :: "grpc_interceptor \<Rightarrow> 'w stream_interceptor" where
  "rpcStateStreamServerInterceptor i fullMethod handler srv ctx w =
     (case checkRPCState i srv of
        Some err \<Rightarrow> Returns (Some (state_refusal err), w)
      | None \<Rightarrow> handler srv ctx w)"

definition MacaroonStreamServerInterceptor ::
  "'mac bakery \<Rightarrow> grpc_interceptor \<Rightarrow> 'w stream_interceptor" where
  "MacaroonStreamServerInterceptor bk i fullMethod handler srv ctx w =
     (if StrInStrSlice pluginStreamingMethodNames fullMethod then handler srv ctx w
      else
        and_then (checkMacaroon bk i ctx fullMethod) (\<lambda>r.
        case r of
          Some err \<Rightarrow> Returns (Some (status PermissionDenied err), w)
        | None \<Rightarrow> handler srv ctx w))"

section \<open>The chain\<close>

definition CreateGrpcOptions ::
  "(('w, 'a) unary_interceptor list \<Rightarrow> ('w, 'a) unary_interceptor) \<Rightarrow>
   ('w stream_interceptor list \<Rightarrow> 'w stream_interceptor) \<Rightarrow>
   'mac bakery \<Rightarrow> 'w logger \<Rightarrow> grpc_interceptor \<Rightarrow>
     ('w, 'a) unary_interceptor \<times> 'w stream_interceptor" where
  "CreateGrpcOptions unaryChain streamChain bk log i =
     (unaryChain [logUnaryServerInterceptor log, rpcStateUnaryServerInterceptor i,
        MacaroonUnaryServerInterceptor bk i],
      streamChain [logStreamServerInterceptor log, rpcStateStreamServerInterceptor i,
        MacaroonStreamServerInterceptor bk i])"

text \<open>The documentation of the middleware: the first interceptor is the outermost, and the
  last wraps the handler.\<close>

definition chain_law :: "(('i \<Rightarrow> 'h \<Rightarrow> 'h) list \<Rightarrow> 'i \<Rightarrow> 'h \<Rightarrow> 'h) \<Rightarrow> bool" where
  "chain_law chain \<longleftrightarrow> (\<forall>is info h. chain is info h = foldr (\<lambda>i h. i info h) is h)"

section \<open>Mediation\<close>

text \<open>
  The contract of an interceptor: a call whose outcome depends on the handler at all has been
  admitted, with the context it goes on with. Mediators compose.
\<close>

locale mediator =
  fixes I :: "'i \<Rightarrow> ('a \<Rightarrow> 'b \<Rightarrow> 'w \<Rightarrow> 'r) \<Rightarrow> 'a \<Rightarrow> 'b \<Rightarrow> 'w \<Rightarrow> 'r"
    and admits :: "'i \<Rightarrow> 'a \<Rightarrow> 'b \<Rightarrow> 'a \<Rightarrow> bool"
  assumes only_if_admitted:
    "I i h a b w \<noteq> I i h' a b w \<Longrightarrow> \<exists>a'. admits i a b a' \<and> h a' b w \<noteq> h' a' b w"
begin

lemma refused_is_blind: "(\<And>a'. \<not> admits i a b a') \<Longrightarrow> I i h a b w = I i h' a b w"
  using only_if_admitted by blast

end

locale mediator_pair = outer: mediator I A + inner: mediator J B
  for I :: "'i \<Rightarrow> ('a \<Rightarrow> 'b \<Rightarrow> 'w \<Rightarrow> 'r) \<Rightarrow> 'a \<Rightarrow> 'b \<Rightarrow> 'w \<Rightarrow> 'r" and A
    and J :: "'i \<Rightarrow> ('a \<Rightarrow> 'b \<Rightarrow> 'w \<Rightarrow> 'r) \<Rightarrow> 'a \<Rightarrow> 'b \<Rightarrow> 'w \<Rightarrow> 'r" and B
begin

lemma both_admit:
  assumes "I i (J i h) a b w \<noteq> I i (J i h') a b w"
  shows "\<exists>a1 a2. A i a b a1 \<and> B i a1 b a2 \<and> h a2 b w \<noteq> h' a2 b w"
  using outer.only_if_admitted [OF assms] inner.only_if_admitted by blast

end

sublocale mediator_pair \<subseteq> both: mediator "\<lambda>i h. I i (J i h)"
    "\<lambda>i a b a2. \<exists>a1. A i a b a1 \<and> B i a1 b a2"
  by unfold_locales (use both_admit in blast)

text \<open>The three unary interceptors and the three stream interceptors keep it.\<close>

definition state_admits :: "grpc_interceptor \<Rightarrow> server \<Rightarrow> bool" where
  "state_admits i srv \<longleftrightarrow>
     (rpc_state i = daemonLocked \<and> srv = UnlockerServer) \<or>
     (rpc_state i \<in> {daemonUnlocked, rpcActive} \<and> srv \<noteq> UnlockerServer)"

lemma checkRPCState_admits: "checkRPCState i srv = None \<longleftrightarrow> state_admits i srv"
  by (auto simp: checkRPCState_def state_admits_def rpc_state_defs)

definition macaroon_admits ::
  "'mac bakery \<Rightarrow> grpc_interceptor \<Rightarrow> call_info \<Rightarrow> rpc_context \<Rightarrow> request \<Rightarrow> rpc_context \<Rightarrow> bool" where
  "macaroon_admits bk i info ctx req ctx' \<longleftrightarrow>
     (if FullMethod info \<in> set pluginMethodNames then addPluginNametoContext ctx req = Inr ctx'
      else ctx' = ctx) \<and>
     checkMacaroon bk i ctx' (FullMethod info) = Returns None"

lemma and_then_differs: "and_then x f \<noteq> and_then x g \<Longrightarrow> \<exists>a. x = Returns a \<and> f a \<noteq> g a"
  by (cases x) auto

interpretation log_unary: mediator "logUnaryServerInterceptor log" "\<lambda>info ctx req ctx'. ctx' = ctx"
  for log :: "'w logger"
  by unfold_locales (auto simp: logUnaryServerInterceptor_def)

interpretation state_unary: mediator "rpcStateUnaryServerInterceptor i"
    "\<lambda>info ctx req ctx'. state_admits i (Server info) \<and> ctx' = ctx" for i
  by unfold_locales
    (auto simp: rpcStateUnaryServerInterceptor_def checkRPCState_admits [symmetric]
      split: option.splits)

lemma macaroon_unary_differs:
  assumes "MacaroonUnaryServerInterceptor bk i info h ctx req w \<noteq>
    MacaroonUnaryServerInterceptor bk i info h' ctx req w"
  shows "\<exists>ctx'. macaroon_admits bk i info ctx req ctx' \<and> h ctx' req w \<noteq> h' ctx' req w"
  using assms unfolding MacaroonUnaryServerInterceptor_def macaroon_admits_def
  by (auto dest!: and_then_differs split: if_splits sum.splits option.splits)

interpretation macaroon_unary: mediator "MacaroonUnaryServerInterceptor bk i"
    "macaroon_admits bk i" for bk :: "'mac bakery" and i
  by unfold_locales (rule macaroon_unary_differs)

interpretation log_stream: mediator "logStreamServerInterceptor log" "\<lambda>m srv ctx srv'. srv' = srv"
  for log :: "'w logger"
  by unfold_locales (auto simp: logStreamServerInterceptor_def)

interpretation state_stream: mediator "rpcStateStreamServerInterceptor i"
    "\<lambda>m srv ctx srv'. state_admits i srv \<and> srv' = srv" for i
  by unfold_locales
    (auto simp: rpcStateStreamServerInterceptor_def checkRPCState_admits [symmetric]
      split: option.splits)

interpretation macaroon_stream: mediator "MacaroonStreamServerInterceptor bk i"
    "\<lambda>m srv ctx srv'. (m \<in> set pluginStreamingMethodNames \<or>
       checkMacaroon bk i ctx m = Returns None) \<and> srv' = srv" for bk :: "'mac bakery" and i
  by unfold_locales
    (auto simp: MacaroonStreamServerInterceptor_def dest!: and_then_differs
      split: if_splits option.splits)

interpretation checks_unary: mediator_pair "rpcStateUnaryServerInterceptor i"
    "\<lambda>info ctx req ctx'. state_admits i (Server info) \<and> ctx' = ctx"
    "MacaroonUnaryServerInterceptor bk i" "macaroon_admits bk i" for bk :: "'mac bakery" and i
  by unfold_locales

interpretation chain_unary: mediator_pair "logUnaryServerInterceptor log"
    "\<lambda>info ctx req ctx'. ctx' = ctx"
    "\<lambda>info h. rpcStateUnaryServerInterceptor i info (MacaroonUnaryServerInterceptor bk i info h)"
    "\<lambda>info ctx req ctx2. \<exists>ctx1. (state_admits i (Server info) \<and> ctx1 = ctx) \<and>
       macaroon_admits bk i info ctx1 req ctx2"
  for bk :: "'mac bakery" and i and log :: "'w logger"
  by unfold_locales

interpretation checks_stream: mediator_pair "rpcStateStreamServerInterceptor i"
    "\<lambda>m srv ctx srv'. state_admits i srv \<and> srv' = srv"
    "MacaroonStreamServerInterceptor bk i"
    "\<lambda>m srv ctx srv'. (m \<in> set pluginStreamingMethodNames \<or>
       checkMacaroon bk i ctx m = Returns None) \<and> srv' = srv" for bk :: "'mac bakery" and i
  by unfold_locales

interpretation chain_stream: mediator_pair "logStreamServerInterceptor log"
    "\<lambda>m srv ctx srv'. srv' = srv"
    "\<lambda>m h. rpcStateStreamServerInterceptor i m (MacaroonStreamServerInterceptor bk i m h)"
    "\<lambda>m srv ctx srv2. \<exists>srv1. (state_admits i srv \<and> srv1 = srv) \<and>
       ((m \<in> set pluginStreamingMethodNames \<or> checkMacaroon bk i ctx m = Returns None) \<and>
        srv2 = srv1)"
  for bk :: "'mac bakery" and i and log :: "'w logger"
  by unfold_locales

section \<open>What passes the gates\<close>

text \<open>
  C2. Complete mediation of unary calls: if the outcome of a call depends on its handler at all,
  then the daemon is locked and the call is for the unlocker, or it is unlocked and the call is
  for another service; and the macaroon check has accepted the call, for the plugin methods
  with the plugin name of the request in the context, which is the context the handler gets.
\<close>

theorem unary_calls_are_mediated:
  assumes "chain_law unaryChain"
    and "fst (CreateGrpcOptions unaryChain streamChain bk log i) info h ctx req w \<noteq>
      fst (CreateGrpcOptions unaryChain streamChain bk log i) info h' ctx req w"
  shows "(rpc_state i = daemonLocked \<and> Server info = UnlockerServer \<or>
      rpc_state i \<in> {daemonUnlocked, rpcActive} \<and> Server info \<noteq> UnlockerServer) \<and>
    (\<exists>ctx'. (if FullMethod info \<in> set pluginMethodNames
        then addPluginNametoContext ctx req = Inr ctx' else ctx' = ctx) \<and>
      checkMacaroon bk i ctx' (FullMethod info) = Returns None \<and> h ctx' req w \<noteq> h' ctx' req w)"
proof -
  from assms(2) have "logUnaryServerInterceptor log info (rpcStateUnaryServerInterceptor i info
      (MacaroonUnaryServerInterceptor bk i info h)) ctx req w \<noteq>
    logUnaryServerInterceptor log info (rpcStateUnaryServerInterceptor i info
      (MacaroonUnaryServerInterceptor bk i info h')) ctx req w"
    by (simp add: CreateGrpcOptions_def chain_law_def [THEN iffD1, OF assms(1)])
  from chain_unary.both.only_if_admitted [OF this] show ?thesis
    by (auto simp: state_admits_def macaroon_admits_def)
qed

text \<open>
  C29. The same for streams, except that the streaming methods of the plugin API pass without a
  macaroon: their handlers check it themselves.
\<close>

theorem streams_are_mediated:
  assumes "chain_law streamChain"
    and "snd (CreateGrpcOptions unaryChain streamChain bk log i) m h srv ctx w \<noteq>
      snd (CreateGrpcOptions unaryChain streamChain bk log i) m h' srv ctx w"
  shows "(rpc_state i = daemonLocked \<and> srv = UnlockerServer \<or>
      rpc_state i \<in> {daemonUnlocked, rpcActive} \<and> srv \<noteq> UnlockerServer) \<and>
    (m \<in> {''/lanirpc.PluginAPI/Subscribe'', ''/lanirpc.PluginAPI/Command'',
        ''/lanirpc.PluginAPI/SubscribePluginState''} \<or> checkMacaroon bk i ctx m = Returns None)"
proof -
  from assms(2) have "logStreamServerInterceptor log m (rpcStateStreamServerInterceptor i m
      (MacaroonStreamServerInterceptor bk i m h)) srv ctx w \<noteq>
    logStreamServerInterceptor log m (rpcStateStreamServerInterceptor i m
      (MacaroonStreamServerInterceptor bk i m h')) srv ctx w"
    by (simp add: CreateGrpcOptions_def chain_law_def [THEN iffD1, OF assms(1)])
  from chain_stream.both.only_if_admitted [OF this] show ?thesis
    by (auto simp: state_admits_def pluginStreamingMethodNames_def)
qed

text \<open>
  The check the streaming handlers make is the one the interceptor would have made: on a
  method that is not whitelisted, with the same macaroon service and the same permissions, the
  plugin manager's \<open>checkMacaroon\<close> is the interceptor's, in the context with the plugin name.
\<close>

theorem stream_check_is_interceptor_check:
  assumes "m \<notin> set macaroonWhitelist" and "\<not> i_noMacaroons i" and "i_svc i = svc p"
    and "map_of (i_permissionMap i) m = map_of (permissionMap p) m"
  shows "PluginStreams.checkMacaroon bk ctx req m p =
    (case addPluginNametoContext ctx req of
       Inl e \<Rightarrow> Returns (Some e)
     | Inr ctx' \<Rightarrow> checkMacaroon bk i ctx' m)"
  using assms
  by (simp add: PluginStreams.checkMacaroon_def checkMacaroon_def addPluginNametoContext_def
      Let_def split: request.split option.split)

text \<open>What acceptance means, for the methods that need a macaroon.\<close>

lemma interceptor_check_accepts:
  assumes "checkMacaroon bk i ctx m = Returns None" and "\<not> i_noMacaroons i"
    and "m \<notin> set macaroonWhitelist"
  shows "\<exists>s perms. i_svc i = Some s \<and> map_of (i_permissionMap i) m = Some perms \<and>
    (ExternalValidators s = [] \<longrightarrow> ValidateMacaroon bk s ctx perms m = Returns None)"
  using assms by (auto simp: checkMacaroon_def split: option.splits)

lemma no_service_whitelist_only:
  "checkMacaroon bk i ctx m = Returns None \<Longrightarrow> \<not> i_noMacaroons i \<Longrightarrow> i_svc i = None \<Longrightarrow>
     m \<in> set macaroonWhitelist"
  by (auto simp: checkMacaroon_def split: if_splits)

lemma AddPermissions_fresh:
  assumes "wf_map perms" and "\<And>m. has_key perms m \<Longrightarrow> \<not> has_key (i_permissionMap i) m"
  shows "\<exists>pm. AddPermissions perms i = (None, i\<lparr>i_permissionMap := pm\<rparr>) \<and>
    (\<forall>m. map_of pm m = (case map_of perms m of Some ops \<Rightarrow> Some ops
       | None \<Rightarrow> map_of (i_permissionMap i) m))"
  using assms
proof (induction perms arbitrary: i)
  case Nil
  then show ?case by (intro exI [of _ "i_permissionMap i"]) simp
next
  case (Cons a perms)
  obtain m ops where a: "a = (m, ops)" by force
  let ?i = "i\<lparr>i_permissionMap := AList.update m ops (i_permissionMap i)\<rparr>"
  from Cons.prems a have fresh: "wf_map perms" "\<not> has_key perms m" "\<not> has_key (i_permissionMap i) m"
    by (auto simp: wf_map_def has_key_iff_fst)
  have "\<exists>pm. AddPermissions perms ?i = (None, ?i\<lparr>i_permissionMap := pm\<rparr>) \<and>
    (\<forall>m. map_of pm m = (case map_of perms m of Some ops \<Rightarrow> Some ops
       | None \<Rightarrow> map_of (i_permissionMap ?i) m))"
    by (rule Cons.IH) (use Cons.prems fresh a in auto)
  then obtain pm where pm: "AddPermissions perms ?i = (None, ?i\<lparr>i_permissionMap := pm\<rparr>)"
    "\<And>k. map_of pm k = (case map_of perms k of Some ops \<Rightarrow> Some ops
       | None \<Rightarrow> map_of (i_permissionMap ?i) k)" by blast
  have "map_of pm k = (case map_of (a # perms) k of Some ops \<Rightarrow> Some ops
      | None \<Rightarrow> map_of (i_permissionMap i) k)" for k
    using fresh(2) a by (simp add: pm(2) has_key_def update_conv' split: option.split)
  with pm(1) fresh(3) a show ?case by (intro exI [of _ pm]) (simp add: AddPermission_def)
qed

section \<open>Witnesses\<close>

definition demo_interceptor :: grpc_interceptor where
  "demo_interceptor = SetRPCActive (AddMacaroonService demo_service
     (NewGrpcInterceptor False\<lparr>i_permissionMap := [(start_record_method, []),
        (''/lanirpc.PluginAPI/SubscribePluginState'', [])]\<rparr>))"

definition demo_chain :: "('i \<Rightarrow> 'h \<Rightarrow> 'h) list \<Rightarrow> 'i \<Rightarrow> 'h \<Rightarrow> 'h" where
  "demo_chain is info h = foldr (\<lambda>i h. i info h) is h"

lemma demo_chain: "chain_law demo_chain"
  by (simp add: chain_law_def demo_chain_def)

lemmas demo_interceptor_defs = demo_interceptor_def SetRPCActive_def AddMacaroonService_def
  NewGrpcInterceptor_def start_record_method_def

definition demo_options :: "(nat, nat) unary_interceptor \<times> nat stream_interceptor" where
  "demo_options = CreateGrpcOptions demo_chain demo_chain (demo_bakery None) (\<lambda>_ _ w. w)
     demo_interceptor"

abbreviation demo_call :: "(nat, nat) unary_handler \<Rightarrow> ((rpc_error + nat) \<times> nat) outcome" where
  "demo_call h \<equiv> fst demo_options
     \<lparr>FullMethod = start_record_method, Server = PluginAPIServer\<rparr> h
     (demo_request ''declared plugins rsync:all'') (PluginRequest ''rsync'') 0"

abbreviation demo_stream :: "nat \<Rightarrow> (rpc_error option \<times> nat) outcome" where
  "demo_stream n \<equiv> snd demo_options ''/lanirpc.PluginAPI/Command'' (\<lambda>_ _ w. Returns (None, w + n))
     PluginAPIServer (demo_request []) 0"

theorem unary_calls_are_mediated_witness:
  "\<exists>ctx'. addPluginNametoContext (demo_request ''declared plugins rsync:all'')
      (PluginRequest ''rsync'') = Inr ctx' \<and>
    checkMacaroon (demo_bakery None) demo_interceptor ctx' start_record_method = Returns None"
proof -
  have m: "start_record_method \<in> set pluginMethodNames"
    "start_record_method \<notin> set macaroonWhitelist"
    by (simp_all add: start_record_method_def pluginMethodNames_def macaroonWhitelist_def)
  have run: "demo_call (\<lambda>_ _ w. Returns (Inr n, w)) = Returns (Inr n, 0)" for n
    using demo_validates [of "''rsync''" start_record_method] m
    by (simp add: demo_options_def CreateGrpcOptions_def demo_chain_def logUnaryServerInterceptor_def
        rpcStateUnaryServerInterceptor_def MacaroonUnaryServerInterceptor_def checkRPCState_def
        checkMacaroon_def addPluginNametoContext_def demo_interceptor_defs rpc_state_defs)
      (simp add: demo_service_def)
  then have "demo_call (\<lambda>_ _ w. Returns (Inr 1, w)) \<noteq> demo_call (\<lambda>_ _ w. Returns (Inr 2, w))"
    by simp
  from unary_calls_are_mediated [OF demo_chain this [unfolded demo_options_def]] m(1) show ?thesis by auto
qed

theorem streams_are_mediated_witness:
  "rpc_state demo_interceptor = rpcActive \<and> demo_stream 3 = Returns (None, 3)"
proof -
  have run: "demo_stream n = Returns (None, n)" for n
    by (simp add: demo_options_def CreateGrpcOptions_def demo_chain_def
        logStreamServerInterceptor_def rpcStateStreamServerInterceptor_def
        MacaroonStreamServerInterceptor_def checkRPCState_def demo_interceptor_defs rpc_state_defs
        pluginStreamingMethodNames_def)
  have "demo_stream 3 \<noteq> demo_stream 2" unfolding run by simp
  from streams_are_mediated [OF demo_chain this [unfolded demo_options_def]] run [of 3]
  show ?thesis by (simp add: demo_interceptor_defs rpc_state_defs)
qed

theorem stream_check_is_interceptor_check_witness:
  "PluginStreams.checkMacaroon (demo_bakery None) (demo_request ''declared plugins rsync:all'')
     (PluginRequest ''rsync'') ''/lanirpc.PluginAPI/SubscribePluginState'' demo_streams =
   checkMacaroon (demo_bakery None) demo_interceptor
     ((demo_request ''declared plugins rsync:all'')\<lparr>ctx_plugin := Some ''rsync''\<rparr>)
     ''/lanirpc.PluginAPI/SubscribePluginState''"
  by (subst stream_check_is_interceptor_check [where i = demo_interceptor])
    (simp_all add: macaroonWhitelist_def demo_interceptor_defs demo_streams_def
      NewPluginManager_def addPluginNametoContext_def)

end
