(* ===== verification/Shutdown.thy ===== *)
theory Shutdown
  imports Channel "HOL-Library.Word"
begin

text \<open>
  File \<^verbatim>\<open>intercept/intercept.go\<close>: the object that turns signals and shutdown requests into an
  orderly shutdown. One goroutine, \<open>mainInterruptHandler\<close>, selects over the signals, the
  requests and its \<^verbatim>\<open>quit\<close> channel; \<open>RequestShutdown\<close> either hands its request over or sees that
  \<^verbatim>\<open>quit\<close> is closed. \<open>handler_branch\<close> is one turn of the goroutine's loop, \<open>shutdown_step\<close> the
  moves of the whole system. Logging is left out; the channels carry no data, so a buffered
  signal is counted and an unbuffered request is a waiting caller.
\<close>

record interceptor =
  pending_signals :: nat
  waiting_requests :: nat
  quit_chan :: "unit chan"
  shutdown_chan :: "unit chan"
  isShutdown :: bool
  handler_runs :: bool

text \<open>The global \<^verbatim>\<open>started\<close>, an \<^verbatim>\<open>int32\<close> used as a flag, and the interceptors created so far.\<close>

definition compare_and_swap :: "32 word \<Rightarrow> 32 word \<Rightarrow> 32 word \<Rightarrow> bool \<times> 32 word" where
  "compare_and_swap v old new = (if v = old then (True, new) else (False, v))"

definition new_interceptor :: interceptor where
  "new_interceptor =
     \<lparr>pending_signals = 0, waiting_requests = 0, quit_chan = make_chan 0, shutdown_chan = make_chan 0,
      isShutdown = False, handler_runs = True\<rparr>"

definition InitInterceptor :: "32 word \<Rightarrow> (go_error + interceptor) \<times> 32 word" where
  "InitInterceptor started =
     (case compare_and_swap started 0 1 of
        (False, s) \<Rightarrow> (Inl ErrServiceAlreadyStarted, s)
      | (True, s) \<Rightarrow> (Inr new_interceptor, s))"

definition Close :: "32 word \<Rightarrow> go_error option \<times> 32 word" where
  "Close started =
     (case compare_and_swap started 1 0 of
        (False, s) \<Rightarrow> (Some ErrServiceAlreadyStopped, s)
      | (True, s) \<Rightarrow> (None, s))"

section \<open>The handler\<close>

definition shutdown :: "interceptor \<Rightarrow> interceptor outcome" where
  "shutdown i =
     (if isShutdown i then Returns i
      else and_then (chan_close (quit_chan i)) (\<lambda>q.
        Returns (i\<lparr>isShutdown := True, quit_chan := q\<rparr>)))"

datatype branch = OnSignal | OnRequest | OnQuit

text \<open>\<open>None\<close>: the branch is not ready. Taking a request lets its caller go on. The last branch
  ends the goroutine, whose deferred store resets \<^verbatim>\<open>started\<close>.\<close>

definition handler_branch ::
  "branch \<Rightarrow> interceptor \<times> 32 word \<Rightarrow> (interceptor \<times> 32 word) outcome option" where
  "handler_branch b s =
     (case s of (i, started) \<Rightarrow>
        if \<not> handler_runs i then None
        else
          (case b of
             OnSignal \<Rightarrow>
               if pending_signals i = 0 then None
               else Some (and_then (shutdown (i\<lparr>pending_signals := pending_signals i - 1\<rparr>))
                 (\<lambda>i. Returns (i, started)))
           | OnRequest \<Rightarrow>
               if waiting_requests i = 0 then None
               else Some (and_then (shutdown (i\<lparr>waiting_requests := waiting_requests i - 1\<rparr>))
                 (\<lambda>i. Returns (i, started)))
           | OnQuit \<Rightarrow>
               if \<not> chan_closed (quit_chan i) then None
               else Some (and_then (chan_close (shutdown_chan i)) (\<lambda>c.
                 Returns (i\<lparr>shutdown_chan := c, handler_runs := False\<rparr>, 0)))))"

text \<open>A caller of \<open>RequestShutdown\<close> that sees \<^verbatim>\<open>quit\<close> closed returns.\<close>

definition leave_request :: "interceptor \<Rightarrow> interceptor option" where
  "leave_request i =
     (if waiting_requests i = 0 \<or> \<not> chan_closed (quit_chan i) then None
      else Some (i\<lparr>waiting_requests := waiting_requests i - 1\<rparr>))"

definition RequestShutdown :: "interceptor \<Rightarrow> interceptor" where
  "RequestShutdown i = i\<lparr>waiting_requests := waiting_requests i + 1\<rparr>"

text \<open>The runtime delivers a signal without blocking to a channel of capacity 1, and no longer
  after \<^verbatim>\<open>signal.Stop\<close>.\<close>

definition deliver_signal :: "interceptor \<Rightarrow> interceptor" where
  "deliver_signal i = i\<lparr>pending_signals := min 1 (pending_signals i + 1)\<rparr>"

definition ShutdownChannel :: "interceptor \<Rightarrow> unit chan" where
  "ShutdownChannel i = shutdown_chan i"

text \<open>The moves of the program itself, and those of its environment.\<close>

inductive program_move :: "interceptor \<times> 32 word \<Rightarrow> interceptor \<times> 32 word \<Rightarrow> bool" where
  handler: "handler_branch b s = Some (Returns s') \<Longrightarrow> program_move s s'"
| request_leaves: "leave_request i = Some i' \<Longrightarrow> program_move (i, n) (i', n)"

inductive any_move :: "interceptor \<times> 32 word \<Rightarrow> interceptor \<times> 32 word \<Rightarrow> bool" where
  program: "program_move s s' \<Longrightarrow> any_move s s'"
| signal: "any_move (i, n) (deliver_signal i, n)"
| request: "any_move (i, n) (RequestShutdown i, n)"

inductive_cases program_moveE: "program_move s s'"

inductive_cases any_moveE: "any_move s s'"

section \<open>Invariant\<close>

definition shutdown_inv :: "interceptor \<times> 32 word \<Rightarrow> bool" where
  "shutdown_inv s \<longleftrightarrow>
     (let i = fst s in
      isShutdown i = chan_closed (quit_chan i) \<and>
      handler_runs i = (\<not> chan_closed (shutdown_chan i)) \<and>
      (chan_closed (shutdown_chan i) \<longrightarrow> chan_closed (quit_chan i)))"

lemma shutdown_inv_branch:
  assumes "shutdown_inv s" and "handler_branch b s = Some r"
  shows "\<exists>s'. r = Returns s' \<and> shutdown_inv s'"
  using assms
  by (cases b) (auto simp: handler_branch_def shutdown_inv_def shutdown_def chan_close_def Let_def
      split: prod.splits if_splits)

lemma shutdown_inv_program:
  assumes "program_move s s'" and "shutdown_inv s"
  shows "shutdown_inv s'"
  using assms(1)
proof cases
  case (handler b)
  with shutdown_inv_branch [OF assms(2)] show ?thesis by fastforce
next
  case (request_leaves i i' n)
  with assms(2) show ?thesis by (auto simp: shutdown_inv_def leave_request_def split: if_splits)
qed

lemma shutdown_inv_any: "any_move s s' \<Longrightarrow> shutdown_inv s \<Longrightarrow> shutdown_inv s'"
  by (erule any_moveE)
    (auto dest: shutdown_inv_program simp: shutdown_inv_def deliver_signal_def RequestShutdown_def)

lemma shutdown_inv_reachable: "any_move\<^sup>*\<^sup>* s s' \<Longrightarrow> shutdown_inv s \<Longrightarrow> shutdown_inv s'"
  by (induction rule: rtranclp_induct) (auto dest: shutdown_inv_any)

lemma shutdown_inv_new: "shutdown_inv (new_interceptor, n)"
  by (simp add: shutdown_inv_def new_interceptor_def make_chan_def)

section \<open>Every shutdown comes to an end\<close>

text \<open>What the program still has to do.\<close>

definition work :: "interceptor \<times> 32 word \<Rightarrow> nat" where
  "work s = pending_signals (fst s) + waiting_requests (fst s) + (if handler_runs (fst s) then 1 else 0)"

lemma work_decreases: "program_move s s' \<Longrightarrow> work s' < work s"
  by (erule program_moveE)
    (auto simp: handler_branch_def leave_request_def shutdown_def work_def chan_close_def
      outcome_simps split: prod.splits if_splits branch.splits)

lemma work_bounds_moves: "(program_move ^^ n) s s' \<Longrightarrow> n \<le> work s"
proof (induction n arbitrary: s)
  case (Suc n)
  from relpowp_Suc_E2 [OF Suc.prems] obtain t where "program_move s t" "(program_move ^^ n) t s'"
    by metis
  with Suc.IH [of t] work_decreases [of s t] show ?case by simp
qed simp

definition triggered :: "interceptor \<Rightarrow> bool" where
  "triggered i \<longleftrightarrow> 0 < pending_signals i \<or> 0 < waiting_requests i \<or> chan_closed (quit_chan i)"

lemma triggered_stays:
  assumes "program_move s s'" and "triggered (fst s)" and "shutdown_inv s"
  shows "triggered (fst s')"
  using assms
  by (auto elim!: program_moveE simp: handler_branch_def leave_request_def shutdown_def
      chan_close_def triggered_def shutdown_inv_def outcome_simps Let_def
      split: prod.splits if_splits branch.splits)

lemma not_stuck:
  assumes "shutdown_inv (i, n)" and "triggered i"
    and "\<not> chan_closed (shutdown_chan i) \<or> 0 < waiting_requests i"
  shows "\<exists>s'. program_move (i, n) s'"
proof (cases "handler_runs i")
  case True
  then have "\<exists>b r. handler_branch b (i, n) = Some r"
    using assms(2) by (auto simp: triggered_def handler_branch_def
        intro: exI [of _ OnSignal] exI [of _ OnRequest] exI [of _ OnQuit])
  then show ?thesis using shutdown_inv_branch [OF assms(1)] program_move.handler by blast
next
  case False
  with assms have "leave_request i = Some (i\<lparr>waiting_requests := waiting_requests i - 1\<rparr>)"
    by (simp add: shutdown_inv_def leave_request_def)
  then show ?thesis using program_move.request_leaves by blast
qed

text \<open>
  C18. Once a signal or a request has arrived, the shutdown runs to its end whatever else happens:
  from every reachable state the program itself makes at most \<open>work s\<close> more moves, none of
  them panics, and where it cannot move any more the shutdown channel is closed, the handler
  has returned and no caller of \<open>RequestShutdown\<close> is left waiting.
\<close>

theorem shutdown_completes:
  assumes "any_move\<^sup>*\<^sup>* (new_interceptor, 1) s" and "triggered (fst s)"
  shows "(\<forall>n s'. (program_move ^^ n) s s' \<longrightarrow> n \<le> work s) \<and>
    (\<forall>s'. program_move\<^sup>*\<^sup>* s s' \<longrightarrow>
      (\<forall>b. handler_branch b s' \<noteq> Some Panics) \<and>
      ((\<nexists>s''. program_move s' s'') \<longrightarrow>
         chan_closed (ShutdownChannel (fst s')) \<and> \<not> handler_runs (fst s') \<and>
         waiting_requests (fst s') = 0))"
proof -
  have inv: "shutdown_inv s"
    using shutdown_inv_reachable [OF assms(1)] shutdown_inv_new by blast
  have later: "shutdown_inv s' \<and> triggered (fst s')" if "program_move\<^sup>*\<^sup>* s s'" for s'
    using that inv assms(2)
    by (induction rule: rtranclp_induct) (auto dest: shutdown_inv_program triggered_stays)
  show ?thesis
  proof (intro conjI allI impI)
    fix n s'
    assume "(program_move ^^ n) s s'"
    then show "n \<le> work s" by (rule work_bounds_moves)
  next
    fix s' b
    assume "program_move\<^sup>*\<^sup>* s s'"
    with later shutdown_inv_branch show "handler_branch b s' \<noteq> Some Panics" by fastforce
  next
    fix s'
    assume "program_move\<^sup>*\<^sup>* s s'" and stuck: "\<nexists>s''. program_move s' s''"
    from later [OF \<open>program_move\<^sup>*\<^sup>* s s'\<close>] not_stuck [of "fst s'" "snd s'"] stuck
    have "\<not> (\<not> chan_closed (shutdown_chan (fst s')) \<or> 0 < waiting_requests (fst s'))"
      unfolding prod.collapse by blast
    then have "chan_closed (shutdown_chan (fst s')) \<and> waiting_requests (fst s') = 0" by simp
    with later [OF \<open>program_move\<^sup>*\<^sup>* s s'\<close>]
    show "chan_closed (ShutdownChannel (fst s'))" "\<not> handler_runs (fst s')"
      "waiting_requests (fst s') = 0"
      by (auto simp: ShutdownChannel_def shutdown_inv_def Let_def)
  qed
qed

theorem shutdown_completes_witness:
  "let s = (RequestShutdown new_interceptor, 1) in
   any_move\<^sup>*\<^sup>* (new_interceptor, 1) s \<and> work s = 2 \<and>
   (\<forall>n s'. (program_move ^^ n) s s' \<longrightarrow> n \<le> 2)"
proof -
  have run: "any_move\<^sup>*\<^sup>* (new_interceptor, 1) (RequestShutdown new_interceptor, 1)"
    by (rule r_into_rtranclp) (rule any_move.request)
  have w: "work (RequestShutdown new_interceptor, 1) = 2" "triggered (RequestShutdown new_interceptor)"
    by (simp_all add: work_def triggered_def RequestShutdown_def new_interceptor_def)
  from shutdown_completes [OF run] w run show ?thesis by (simp add: Let_def)
qed

end
