(* ===== verification/Unlocker.thy ===== *)
theory Unlocker
  imports RootKeyStorage PluginManager
begin

text \<open>
  File \<^verbatim>\<open>unlocker/unlocker.go\<close>: the service that sets, checks and changes the daemon's password
  and hands it to the boot sequence over a channel. It keeps the hash of the password in a
  bucket of its own; the macaroon store of \<open>RootKeyStorage\<close> keeps its encryption key in another
  bucket of the same database, and \<open>ChangePassword\<close> has to change both. SHA-256 is a parameter.

  A proto field of bytes is \<open>string option\<close>: \<open>None\<close> is the \<^verbatim>\<open>nil\<close> slice an absent field has.
  Removing a file is the operating system's: it fails for a missing file, and for any file in
  the set \<open>kept\<close>.
\<close>

record password_msg =
  Password :: "string option"
  Err :: "go_error option"

record unlocker =
  ps_pwd :: "bucket option"
  ps_mac :: "bucket option"
  PasswordMsgs :: "password_msg chan"
  macaroonFiles :: "string list"
  files :: "string list"

definition pwdKeyID :: string where
  "pwdKeyID = ''pwd''"

definition bytes :: "string option \<Rightarrow> string" where
  "bytes s = (case s of None \<Rightarrow> [] | Some s \<Rightarrow> s)"

text \<open>A transaction on the password bucket; its closure may panic.\<close>

definition pwd_Update ::
  "bolt \<Rightarrow> (bucket option \<Rightarrow> (go_error option \<times> bucket option) outcome) \<Rightarrow> unlocker \<Rightarrow>
     (go_error option \<times> unlocker) outcome" where
  "pwd_Update db f u =
     and_then (f (ps_pwd u)) (\<lambda>(err, b).
     case Finish db err (ps_pwd u) b of (err, b) \<Rightarrow> Returns (err, u\<lparr>ps_pwd := b\<rparr>))"

definition InitUnlockerService ::
  "bolt \<Rightarrow> bucket option \<Rightarrow> bucket option \<Rightarrow> string list \<Rightarrow> string list \<Rightarrow>
     (go_error + unlocker) outcome" where
  "InitUnlockerService db pwd mac macFiles fs =
     and_then
       (pwd_Update db (\<lambda>b. Returns (None, Some (case b of None \<Rightarrow> [] | Some b \<Rightarrow> b)))
         \<lparr>ps_pwd = pwd, ps_mac = mac, PasswordMsgs = make_chan 1, macaroonFiles = macFiles,
          files = fs\<rparr>)
       (\<lambda>(err, u). Returns (case err of Some e \<Rightarrow> Inl e | None \<Rightarrow> Inr u))"

text \<open>A failing \<^verbatim>\<open>Put\<close> rolls back by hand, which a managed transaction answers with a panic.\<close>

definition setPassword ::
  "bolt \<Rightarrow> (string \<Rightarrow> string) \<Rightarrow> string option \<Rightarrow> bool \<Rightarrow> unlocker \<Rightarrow>
     (go_error option \<times> unlocker) outcome" where
  "setPassword db sha256 password overwrite =
     pwd_Update db (\<lambda>bucket.
       case bucket of
         None \<Rightarrow> Returns (Some ErrBucketNotFound, bucket)
       | Some b \<Rightarrow>
           if bget b pwdKeyID \<noteq> [] \<and> \<not> overwrite
           then Returns (Some ErrPasswordAlreadySet, bucket)
           else
             (case Put db pwdKeyID (sha256 (bytes password)) b of
                Inl e \<Rightarrow> Panics
              | Inr b' \<Rightarrow> Returns (None, Some b')))"

definition compare_password ::
  "(string \<Rightarrow> string) \<Rightarrow> string option \<Rightarrow> bucket option \<Rightarrow> go_error option" where
  "compare_password sha256 password bucket =
     (case bucket of
        None \<Rightarrow> Some ErrBucketNotFound
      | Some b \<Rightarrow>
          if bget b pwdKeyID = [] then Some ErrPasswordNotSet
          else if sha256 (bytes password) \<noteq> bget b pwdKeyID then Some ErrWrongPassword
          else None)"

definition readPassword ::
  "bolt \<Rightarrow> (string \<Rightarrow> string) \<Rightarrow> string option \<Rightarrow> unlocker \<Rightarrow> (go_error option \<times> unlocker) outcome" where
  "readPassword db sha256 password =
     pwd_Update db (\<lambda>bucket. Returns (compare_password sha256 password bucket, bucket))"

section \<open>Handlers\<close>

text \<open>The \<^verbatim>\<open>select\<close> at the end of every handler: \<open>done\<close> tells whether the caller's context ends
  before there is room in the channel, \<open>first\<close> which branch is taken when both are ready.\<close>

definition send_password ::
  "bool \<Rightarrow> bool \<Rightarrow> string option \<Rightarrow> unlocker \<Rightarrow> ((rpc_error + unit) \<times> unlocker) outcome" where
  "send_password done first pw u =
     (if (chan_closed (PasswordMsgs u) \<or> can_send (PasswordMsgs u)) \<and> (first \<or> \<not> done) then
        and_then (chan_send \<lparr>Password = pw, Err = None\<rparr> (PasswordMsgs u)) (\<lambda>c.
          Returns (Inr (), u\<lparr>PasswordMsgs := c\<rparr>))
      else if done then Returns (Inl (status DeadlineExceededCode ErrUnlockTimeout), u)
      else Blocks)"

definition login_error :: "go_error \<Rightarrow> rpc_error" where
  "login_error err =
     (if err = ErrPasswordNotSet then status FailedPrecondition err
      else if err = ErrWrongPassword then status InvalidArgument err
      else status Internal err)"

definition Login ::
  "bolt \<Rightarrow> (string \<Rightarrow> string) \<Rightarrow> bool \<Rightarrow> bool \<Rightarrow> string option \<Rightarrow> unlocker \<Rightarrow>
     ((rpc_error + unit) \<times> unlocker) outcome" where
  "Login db sha256 done first password u =
     and_then (readPassword db sha256 password u) (\<lambda>(err, u).
     case err of
       Some e \<Rightarrow> Returns (Inl (login_error e), u)
     | None \<Rightarrow> send_password done first password u)"

definition SetPassword ::
  "bolt \<Rightarrow> (string \<Rightarrow> string) \<Rightarrow> bool \<Rightarrow> bool \<Rightarrow> string option \<Rightarrow> unlocker \<Rightarrow>
     ((rpc_error + unit) \<times> unlocker) outcome" where
  "SetPassword db sha256 done first password u =
     and_then (setPassword db sha256 password False u) (\<lambda>(err, u).
     case err of
       Some e \<Rightarrow>
         Returns (Inl (if e = ErrPasswordAlreadySet then status FailedPrecondition e
                       else status Internal e), u)
     | None \<Rightarrow> send_password done first password u)"

fun remove_files :: "string set \<Rightarrow> string list \<Rightarrow> string list \<Rightarrow> go_error option \<times> string list" where
  "remove_files kept [] fs = (None, fs)"
| "remove_files kept (file # rest) fs =
     (if file \<in> set fs \<and> file \<notin> kept then remove_files kept rest (removeAll file fs)
      else (Some (Foreign (''remove '' @ file)), fs))"

record change_request =
  CurrentPassword :: "string option"
  NewPassword :: "string option"
  NewMacaroonRootKey :: bool

text \<open>The second half of \<open>ChangePassword\<close>: the macaroon store is loaded, unlocked, changed and
  shut down. \<open>n\<close> and \<open>m\<close> are the randomness of the new key and of the encryption. \<open>Close\<close> never
  fails and changes the memory only.\<close>

definition change_store ::
  "bolt \<Rightarrow> 'k snacl \<Rightarrow> nat \<Rightarrow> nat \<Rightarrow> string option \<Rightarrow> string option \<Rightarrow> bucket option \<Rightarrow>
     go_error option \<times> bucket option" where
  "change_store db S n m current new mac =
     (case InitRootKeyStorage db mac of
        (Inl e, b) \<Rightarrow> (Some e, b)
      | (Inr r, b) \<Rightarrow>
          (case CreateUnlock db S n (Some (bytes current)) r of
             (Inl e, r) \<Rightarrow> (Some e, Bucket (Close r))
           | (Inr _, r) \<Rightarrow>
               (case RootKeyStorage.ChangePassword db S n m current new r of
                  (Inl e, r) \<Rightarrow> (Some e, Bucket (Close r))
                | (Inr _, r) \<Rightarrow> (None, Bucket (Close r)))))"

definition ChangePassword ::
  "bolt \<Rightarrow> (string \<Rightarrow> string) \<Rightarrow> 'k snacl \<Rightarrow> nat \<Rightarrow> nat \<Rightarrow> string set \<Rightarrow> bool \<Rightarrow> bool \<Rightarrow>
     change_request \<Rightarrow> unlocker \<Rightarrow> ((rpc_error + unit) \<times> unlocker) outcome" where
  "ChangePassword db sha256 S n m kept done first req u =
     and_then (readPassword db sha256 (CurrentPassword req) u) (\<lambda>(err, u).
     case err of
       Some e \<Rightarrow> Returns (Inl (login_error e), u)
     | None \<Rightarrow>
         and_then (setPassword db sha256 (NewPassword req) True u) (\<lambda>(err, u).
         case err of
           Some e \<Rightarrow> Returns (Inl (status Internal e), u)
         | None \<Rightarrow>
             (case (if NewMacaroonRootKey req then remove_files kept (macaroonFiles u) (files u)
                    else (None, files u)) of
                (Some e, fs) \<Rightarrow>
                  Returns (Inl (Status Internal (''could not remove macaroon file: '' @ error_msg e)),
                    u\<lparr>files := fs\<rparr>)
              | (None, fs) \<Rightarrow>
                  (case change_store db S n m (CurrentPassword req) (NewPassword req) (ps_mac u) of
                     (Some e, b) \<Rightarrow> Returns (Inl (status Internal e), u\<lparr>files := fs, ps_mac := b\<rparr>)
                   | (None, b) \<Rightarrow>
                       send_password done first (NewPassword req)
                         (u\<lparr>files := fs, ps_mac := b\<rparr>)))))"

section \<open>What the password bucket says\<close>

text \<open>\<open>accepts\<close>: the hash of the password is the one stored.\<close>

definition accepts :: "(string \<Rightarrow> string) \<Rightarrow> unlocker \<Rightarrow> string \<Rightarrow> bool" where
  "accepts sha256 u pw \<longleftrightarrow>
     (\<exists>b. ps_pwd u = Some b \<and> bget b pwdKeyID \<noteq> [] \<and> bget b pwdKeyID = sha256 pw)"

lemma same_bucket [simp]: "ps_pwd u = b \<Longrightarrow> u\<lparr>ps_pwd := b\<rparr> = u"
  by auto

lemma compare_password_None:
  "compare_password sha256 pw (ps_pwd u) = None \<longleftrightarrow> accepts sha256 u (bytes pw)"
  by (auto simp: compare_password_def accepts_def split: option.splits)

lemma readPassword_cases:
  assumes "bolt_laws db"
  obtains e where "readPassword db sha256 pw u = Returns (e, u)"
    "\<not> accepts sha256 u (bytes pw) \<Longrightarrow> e = compare_password sha256 pw (ps_pwd u)"
proof -
  let ?err = "compare_password sha256 pw (ps_pwd u)"
  have "Finish db ?err (ps_pwd u) (ps_pwd u) = (?err, ps_pwd u) \<or>
    (?err = None \<and> (\<exists>e. Finish db ?err (ps_pwd u) (ps_pwd u) = (Some e, ps_pwd u)))"
    using assms by (cases ?err) (auto simp: bolt_laws_def)
  with that compare_password_None [of sha256 pw u] show ?thesis
    by (fastforce simp: readPassword_def pwd_Update_def)
qed

lemma readPassword_None:
  assumes "bolt_laws db" and "readPassword db sha256 pw u = Returns (None, u')"
  shows "u' = u \<and> accepts sha256 u (bytes pw)"
  using assms(2) compare_password_None [of sha256 pw u]
  by - (rule readPassword_cases [OF assms(1), of sha256 pw u], auto)

lemma setPassword_cases:
  assumes "bolt_laws db" and "setPassword db sha256 pw overwrite u = Returns (e, u')"
  shows "(\<exists>e'. e = Some e' \<and> u' = u) \<or>
    (\<exists>b b'. e = None \<and> ps_pwd u = Some b \<and> (bget b pwdKeyID = [] \<or> overwrite) \<and>
       u' = u\<lparr>ps_pwd := Some b'\<rparr> \<and> bget b' pwdKeyID = sha256 (bytes pw))"
proof -
  have fin: "Finish db None old new = (None, new) \<or> (\<exists>e. Finish db None old new = (Some e, old))"
    "Finish db (Some e) old new = (Some e, old)" for e old new
    using assms(1) by (auto simp: bolt_laws_def)
  show ?thesis
  proof (cases "ps_pwd u")
    case None
    with assms(2) fin show ?thesis by (auto simp: setPassword_def pwd_Update_def)
  next
    case (Some b)
    show ?thesis
    proof (cases "bget b pwdKeyID \<noteq> [] \<and> \<not> overwrite")
      case True
      with Some assms(2) fin show ?thesis by (auto simp: setPassword_def pwd_Update_def)
    next
      case False
      with Some assms(2) obtain b' where put: "Put db pwdKeyID (sha256 (bytes pw)) b = Inr b'"
        by (auto simp: setPassword_def pwd_Update_def split: sum.splits)
      with False Some assms(2) fin(1) [of "Some b" "Some b'"] Put_bget [OF assms(1) put]
      show ?thesis by (auto simp: setPassword_def pwd_Update_def)
    qed
  qed
qed

lemma send_password_frame:
  assumes "send_password done first pw u = Returns (r, u')"
  shows "ps_pwd u' = ps_pwd u \<and> ps_mac u' = ps_mac u \<and>
    (\<forall>e. r = Inl e \<longrightarrow> u' = u \<and> e = status DeadlineExceededCode ErrUnlockTimeout) \<and>
    (\<forall>x. r = Inr x \<longrightarrow> chan_history (PasswordMsgs u') =
       chan_history (PasswordMsgs u) @ [\<lparr>Password = pw, Err = None\<rparr>])"
  using assms by (auto simp: send_password_def outcome_simps dest: chan_send_history
      split: if_splits)

section \<open>The two stores together\<close>

text \<open>\<open>coherent\<close>: one password is both the daemon's and the one that opens the macaroon store.\<close>

definition coherent :: "(string \<Rightarrow> string) \<Rightarrow> 'k snacl \<Rightarrow> unlocker \<Rightarrow> string \<Rightarrow> bool" where
  "coherent sha256 S u pw \<longleftrightarrow>
     accepts sha256 u pw \<and> (\<exists>b k. ps_mac u = Some b \<and> unlocks S b pw k)"

text \<open>\<open>opens_store\<close>: unlocking the macaroon store with the password succeeds or fails at the
  commit only.\<close>

definition opens_store :: "bolt \<Rightarrow> 'k snacl \<Rightarrow> unlocker \<Rightarrow> string \<Rightarrow> bool" where
  "opens_store db S u pw \<longleftrightarrow>
     (\<exists>n. encKey (snd (CreateUnlock db S n (Some pw) \<lparr>Bucket = ps_mac u, encKey = None\<rparr>)) \<noteq> None)"

lemma opens_store_unlocks:
  assumes "bolt_laws db" and "ps_mac u = Some b" and "unlocks S b pw k"
  shows "opens_store db S u pw' \<longleftrightarrow> pw' = pw"
  using CreateUnlock_again [OF assms(1) _ _ assms(3), of "\<lparr>Bucket = ps_mac u, encKey = None\<rparr>"]
    assms(2)
  by (cases "pw' = pw") (auto simp: opens_store_def)

lemma InitRootKeyStorage_some:
  assumes "bolt_laws db"
  shows "(\<exists>e. InitRootKeyStorage db (Some b) = (Inl e, Some b)) \<or>
    InitRootKeyStorage db (Some b) = (Inr \<lparr>Bucket = Some b, encKey = None\<rparr>, Some b)"
proof -
  have "Finish db None (Some b) (Some b) = (None, Some b) \<or>
    (\<exists>e. Finish db None (Some b) (Some b) = (Some e, Some b))"
    using assms by (auto simp: bolt_laws_def)
  then show ?thesis by (auto simp: InitRootKeyStorage_def Update_def)
qed

lemma CreateUnlock_same_bucket:
  assumes "bolt_laws db" and "unlocks S b pw k"
    and "CreateUnlock db S n (Some pw) \<lparr>Bucket = Some b, encKey = None\<rparr> = (x, r)"
  shows "Bucket r = Some b \<and> encKey r = Some k"
proof -
  let ?r = "\<lparr>Bucket = Some b, encKey = None\<rparr>"
  from CreateUnlock_again(1) [OF assms(1) _ _ assms(2), of ?r n] assms(3)
  have key: "encKey r = Some k" by simp
  have "Bucket r = Some b"
  proof (cases x)
    case (Inl e)
    with assms(3) have "CreateUnlock db S n (Some pw) ?r = (Inl e, r)" by simp
    with Update_fails [OF assms(1)] show ?thesis
      by (fastforce simp: CreateUnlock_def split: if_splits)
  next
    case (Inr y)
    with assms(3) have "CreateUnlock db S n (Some pw) ?r = (Inr y, r)" by simp
    with Update_succeeds [OF assms(1)] assms(2) show ?thesis
      unfolding CreateUnlock_def unlocks_def by (fastforce split: sum.splits)
  qed
  with key show ?thesis by simp
qed

lemma change_store_cases:
  fixes S :: "'k snacl"
  assumes "bolt_laws db" and "snacl_laws S" and "unlocks S b pw k"
    and "bytes current = pw" and "change_store db S n m current new (Some b) = (err, mac)"
  shows "(\<exists>e. err = Some e \<and> mac = Some b) \<or>
    (\<exists>pw' b' k'. err = None \<and> new = Some pw' \<and> mac = Some b' \<and> unlocks S b' pw' k')"
proof -
  have "(\<exists>e. InitRootKeyStorage db (Some b) = (Inl e :: go_error + 'k rks, Some b)) \<or>
    InitRootKeyStorage db (Some b) = (Inr \<lparr>Bucket = Some b, encKey = None :: 'k option\<rparr>, Some b)"
    by (rule InitRootKeyStorage_some [OF assms(1)])
  then show ?thesis
  proof (elim disjE exE)
    fix e
    assume "InitRootKeyStorage db (Some b) = (Inl e :: go_error + 'k rks, Some b)"
    with assms(5) show ?thesis by (auto simp: change_store_def)
  next
    assume init: "InitRootKeyStorage db (Some b) =
      (Inr \<lparr>Bucket = Some b, encKey = None :: 'k option\<rparr>, Some b)"
    obtain x r where cu: "CreateUnlock db S n (Some pw) \<lparr>Bucket = Some b, encKey = None\<rparr> = (x, r)"
      by force
    note r = CreateUnlock_same_bucket [OF assms(1,3) cu]
    obtain y r' where cp: "RootKeyStorage.ChangePassword db S n m current new r = (y, r')" by force
    show ?thesis
    proof (cases x)
      case (Inl e)
      with assms(4,5) init cu r show ?thesis by (auto simp: change_store_def Close_def)
    next
      case x: (Inr _)
      show ?thesis
      proof (cases y)
        case (Inl e)
        have "Bucket r' = Bucket r" using cp Inl
          by (auto simp: RootKeyStorage.ChangePassword_def dest!: Update_fails [OF assms(1)]
              split: option.splits if_splits)
        with assms(4,5) init cu cp r x Inl show ?thesis by (auto simp: change_store_def Close_def)
      next
        case (Inr z)
        then obtain old pw' where some: "current = Some old" "new = Some pw'"
          using cp r by (auto simp: RootKeyStorage.ChangePassword_def split: option.splits if_splits)
        with assms(4) have "old = pw" by (simp add: bytes_def)
        with ChangePassword_succeeds [OF assms(1,2) _ _ assms(3), of r n m pw' r'] cp Inr r some
        obtain k' b' where "unlocks S b' pw' k'" "r' = r\<lparr>Bucket := Some b', encKey := Some k'\<rparr>"
          by auto
        with assms(4,5) init cu cp x Inr some show ?thesis by (auto simp: change_store_def Close_def)
      qed
    qed
  qed
qed

text \<open>What \<open>ChangePassword\<close> leaves behind, on every path.\<close>

lemma ChangePassword_cases:
  assumes "bolt_laws db" and "snacl_laws S" and "ps_mac u = Some b" and "unlocks S b pw k"
    and "bytes (CurrentPassword req) = pw"
    and "ChangePassword db sha256 S n m kept done first req u = Returns (r, u')"
  shows "(\<exists>e. r = Inl e \<and> ps_pwd u' = ps_pwd u \<and> ps_mac u' = ps_mac u) \<or>
    (accepts sha256 u pw \<and> (\<exists>p. ps_pwd u' = Some p \<and> bget p pwdKeyID = sha256 (bytes (NewPassword req))) \<and>
      ((\<exists>e. r = Inl e \<and> ps_mac u' = ps_mac u) \<or>
       (\<exists>pw' b' k'. NewPassword req = Some pw' \<and> ps_mac u' = Some b' \<and> unlocks S b' pw' k' \<and>
          (r = Inr () \<or> r = Inl (status DeadlineExceededCode ErrUnlockTimeout)))))"
proof -
  obtain e1 where read: "readPassword db sha256 (CurrentPassword req) u = Returns (e1, u)"
    by (rule readPassword_cases [OF assms(1)])
  show ?thesis
  proof (cases e1)
    case (Some e)
    with read assms(6) show ?thesis by (auto simp: ChangePassword_def)
  next
    case None
    with readPassword_None [OF assms(1)] read assms(5) have acc: "accepts sha256 u pw" by auto
    obtain e2 u2 where set: "setPassword db sha256 (NewPassword req) True u = Returns (e2, u2)"
      using assms(6) read None by (auto simp: ChangePassword_def outcome_simps)
    show ?thesis
    proof (cases e2)
      case (Some e)
      with setPassword_cases [OF assms(1) set] have "u2 = u" by auto
      with Some set read None assms(6) show ?thesis by (auto simp: ChangePassword_def)
    next
      case e2: None
      with setPassword_cases [OF assms(1) set] obtain p where
        u2: "u2 = u\<lparr>ps_pwd := Some p\<rparr>" "bget p pwdKeyID = sha256 (bytes (NewPassword req))" by auto
      obtain e3 fs where rm: "(if NewMacaroonRootKey req then remove_files kept (macaroonFiles u2) (files u2)
          else (None, files u2)) = (e3, fs)" by force
      obtain e4 mac where cs: "change_store db S n m (CurrentPassword req) (NewPassword req)
          (ps_mac u2) = (e4, mac)" by force
      have mac2: "ps_mac u2 = Some b" using u2(1) assms(3) by simp
      from assms(6) have run: "(case e3 of Some e \<Rightarrow>
            Returns (Inl (Status Internal (''could not remove macaroon file: '' @ error_msg e)),
              u2\<lparr>files := fs\<rparr>)
        | None \<Rightarrow> (case e4 of Some e \<Rightarrow> Returns (Inl (status Internal e), u2\<lparr>files := fs, ps_mac := mac\<rparr>)
            | None \<Rightarrow> send_password done first (NewPassword req) (u2\<lparr>files := fs, ps_mac := mac\<rparr>)))
        = Returns (r, u')"
        using read None set e2 rm cs by (cases e3) (simp_all add: ChangePassword_def)
      show ?thesis
      proof (cases e3)
        case (Some e)
        with run acc u2 show ?thesis by auto
      next
        case e3: None
        show ?thesis
        proof (cases e4)
          case (Some e)
          with change_store_cases [OF assms(1,2,4,5) cs [unfolded mac2]] have "mac = Some b" by auto
          with run acc u2 e3 Some assms(3) show ?thesis by auto
        next
          case e4: None
          with change_store_cases [OF assms(1,2,4,5) cs [unfolded mac2]] obtain pw' b' k' where
            mac: "NewPassword req = Some pw'" "mac = Some b'" "unlocks S b' pw' k'" by auto
          from run e3 e4 have "send_password done first (NewPassword req)
              (u2\<lparr>files := fs, ps_mac := mac\<rparr>) = Returns (r, u')" by simp
          from send_password_frame [OF this] acc u2 mac show ?thesis by (cases r) auto
        qed
      qed
    qed
  qed
qed

section \<open>Properties\<close>


text \<open>
  C11. A password change that succeeds keeps the two stores together: if the current password was
  the daemon's and opened the macaroon store, then the new one is and does, and it is what the
  boot sequence is sent.
\<close>

theorem change_keeps_stores_together:
  assumes "bolt_laws db" and "snacl_laws S" and "\<And>s. length (sha256 s) = 32"
    and "coherent sha256 S u (bytes (CurrentPassword req))"
    and "ChangePassword db sha256 S n m kept done first req u = Returns (Inr (), u')"
  shows "\<exists>new. NewPassword req = Some new \<and> coherent sha256 S u' new \<and>
    (\<forall>pw. opens_store db S u' pw \<longleftrightarrow> pw = new)"
proof -
  from assms(4) obtain b k where b: "ps_mac u = Some b" "unlocks S b (bytes (CurrentPassword req)) k"
    unfolding coherent_def by blast
  from ChangePassword_cases [OF assms(1,2) b refl assms(5)] obtain p new b' k' where
    new: "ps_pwd u' = Some p" "bget p pwdKeyID = sha256 new" "NewPassword req = Some new"
      "ps_mac u' = Some b'" "unlocks S b' new k'"
    by (auto simp: bytes_def)
  from assms(3) [of new] have "sha256 new \<noteq> []" by auto
  with new opens_store_unlocks [OF assms(1) new(4,5)] show ?thesis
    by (auto simp: coherent_def accepts_def)
qed

text \<open>
  After \<open>SetPassword\<close> has been accepted, \<open>Login\<close> accepts a password only if it has the same
  hash and refuses every other one with \<open>InvalidArgument\<close> and no effect; and a second
  \<open>SetPassword\<close> is refused with no effect.
\<close>

theorem set_then_login:
  assumes "bolt_laws db" and "\<And>s. length (sha256 s) = 32"
    and "SetPassword db sha256 done first pw u = Returns (Inr (), u1)"
  shows "(\<forall>d f pw' u2. Login db sha256 d f pw' u1 = Returns (Inr (), u2) \<longrightarrow>
      sha256 (bytes pw') = sha256 (bytes pw)) \<and>
    (\<forall>d f pw'. sha256 (bytes pw') \<noteq> sha256 (bytes pw) \<longrightarrow>
      Login db sha256 d f pw' u1 = Returns (Inl (status InvalidArgument ErrWrongPassword), u1)) \<and>
    (\<forall>d f pw'. SetPassword db sha256 d f pw' u1 =
      Returns (Inl (status FailedPrecondition ErrPasswordAlreadySet), u1))"
proof -
  from assms(3) obtain u0 where set: "setPassword db sha256 pw False u = Returns (None, u0)"
    and send: "send_password done first pw u0 = Returns (Inr (), u1)"
    by (auto simp: SetPassword_def outcome_simps split: option.splits)
  from setPassword_cases [OF assms(1) set] obtain b where
    "ps_pwd u0 = Some b" "bget b pwdKeyID = sha256 (bytes pw)" by auto
  moreover have "sha256 (bytes pw) \<noteq> []" using assms(2) [of "bytes pw"] by auto
  ultimately have b: "ps_pwd u1 = Some b" "bget b pwdKeyID = sha256 (bytes pw)" "bget b pwdKeyID \<noteq> []"
    using send_password_frame [OF send] by auto
  have refused: "Login db sha256 d f pw' u1 = Returns (Inl (status InvalidArgument ErrWrongPassword), u1)"
    if "sha256 (bytes pw') \<noteq> sha256 (bytes pw)" for d f pw'
  proof -
    from that b have "\<not> accepts sha256 u1 (bytes pw')"
      "compare_password sha256 pw' (ps_pwd u1) = Some ErrWrongPassword"
      by (auto simp: accepts_def compare_password_def)
    moreover obtain e where "readPassword db sha256 pw' u1 = Returns (e, u1)"
        "\<not> accepts sha256 u1 (bytes pw') \<Longrightarrow> e = compare_password sha256 pw' (ps_pwd u1)"
      using readPassword_cases [OF assms(1), of sha256 pw' u1] by metis
    ultimately show ?thesis by (simp add: Login_def login_error_def)
  qed
  have "Finish db (Some ErrPasswordAlreadySet) (Some b) (Some b) =
      (Some ErrPasswordAlreadySet, Some b)"
    using assms(1) by (simp add: bolt_laws_def)
  with b have "SetPassword db sha256 d f pw' u1 =
      Returns (Inl (status FailedPrecondition ErrPasswordAlreadySet), u1)" for d f pw'
    by (simp add: SetPassword_def setPassword_def pwd_Update_def)
  with refused show ?thesis by force
qed

section \<open>Witnesses\<close>

text \<open>A toy hash of 32 bytes that tells apart what the examples need.\<close>

definition demo_hash :: "string \<Rightarrow> string" where
  "demo_hash s = (case s of [] \<Rightarrow> replicate 32 CHR ''e'' | c # _ \<Rightarrow> replicate 32 c)"

lemma demo_hash_length: "length (demo_hash s) = 32"
  by (simp add: demo_hash_def split: list.split)

definition demo_unlocker :: unlocker where
  "demo_unlocker = \<lparr>ps_pwd = Some [(''pwd'', demo_hash ''pw'')],
     ps_mac = Some [(''enckey'', ''mpw''), (''0'', seal ''pw'' ''key'')],
     PasswordMsgs = make_chan 1, macaroonFiles = [''admin'', ''test''], files = [''test'']\<rparr>"

lemma demo_coherent: "coherent demo_hash demo_snacl demo_unlocker ''pw''"
  by (simp add: coherent_def accepts_def demo_unlocker_def bget_def pwdKeyID_def demo_hash_def
      unlocks_def encryptionKeyID_def demo_snacl_def)

lemmas demo_change_defs = ChangePassword_def readPassword_def setPassword_def pwd_Update_def
  compare_password_def demo_unlocker_def bget_def pwdKeyID_def demo_hash_def bytes_def demo_bolt_def

definition demo_change :: "bool \<Rightarrow> change_request" where
  "demo_change newKey =
     \<lparr>CurrentPassword = Some ''pw'', NewPassword = Some ''new'', NewMacaroonRootKey = newKey\<rparr>"


theorem change_keeps_stores_together_witness:
  "\<exists>u'. ChangePassword demo_bolt demo_hash demo_snacl 1 2 {} False True (demo_change False)
       demo_unlocker = Returns (Inr (), u') \<and>
     coherent demo_hash demo_snacl u' ''new''"
proof -
  have "\<exists>u'. ChangePassword demo_bolt demo_hash demo_snacl 1 2 {} False True (demo_change False)
      demo_unlocker = Returns (Inr (), u')"
    by (simp add: demo_change_defs demo_change_def change_store_def InitRootKeyStorage_def
        demo_storage CreateUnlock_def RootKeyStorage.ChangePassword_def send_password_def
        can_send_def chan_send_def make_chan_def)
  then obtain u' where run: "ChangePassword demo_bolt demo_hash demo_snacl 1 2 {} False True
      (demo_change False) demo_unlocker = Returns (Inr (), u')" by blast
  have "coherent demo_hash demo_snacl demo_unlocker (bytes (CurrentPassword (demo_change False)))"
    using demo_coherent by (simp add: demo_change_def bytes_def)
  from change_keeps_stores_together [OF demo_laws demo_hash_length this run] run show ?thesis
    by (auto simp: demo_change_def)
qed

theorem set_then_login_witness:
  "\<exists>u1. SetPassword demo_bolt demo_hash False True (Some ''pw'') (demo_unlocker\<lparr>ps_pwd := Some []\<rparr>) =
       Returns (Inr (), u1) \<and>
     Login demo_bolt demo_hash False True (Some ''no'') u1 =
       Returns (Inl (status InvalidArgument ErrWrongPassword), u1)"
proof -
  have "\<exists>u1. SetPassword demo_bolt demo_hash False True (Some ''pw'')
      (demo_unlocker\<lparr>ps_pwd := Some []\<rparr>) = Returns (Inr (), u1)"
    by (simp add: demo_change_defs SetPassword_def send_password_def can_send_def chan_send_def
        make_chan_def)
  then obtain u1 where run: "SetPassword demo_bolt demo_hash False True (Some ''pw'')
      (demo_unlocker\<lparr>ps_pwd := Some []\<rparr>) = Returns (Inr (), u1)" by blast
  have "demo_hash (bytes (Some ''no'')) \<noteq> demo_hash (bytes (Some ''pw''))"
    by (simp add: demo_hash_def bytes_def)
  with set_then_login [OF demo_laws(1) demo_hash_length run] run show ?thesis by blast
qed

end
