(* ===== verification/RpcServer.thy ===== *)
theory RpcServer
  imports Interceptors Shutdown RootKeyStorage
begin

text \<open>
  File \<^verbatim>\<open>core/rpcserver.go\<close> and the baking functions of \<^verbatim>\<open>core/laniakea.go\<close>: the permissions of
  the API, the life cycle of the RPC server, and \<open>BakeMacaroon\<close>, which makes a macaroon from
  the permissions, the timeout and the plugin names a client asks for. The service descriptors
  of the generated gRPC code are here too, because they say which methods there are to protect.

  The library that bakes and marshals macaroons is the record \<open>baking\<close> of the functions the code
  calls; \<open>baking_laws\<close> is what its documentation says of them. Integers of the API are 64-bit.
\<close>

section \<open>Permissions\<close>

definition readPermissions :: "op list" where
  "readPermissions =
     [\<lparr>Entity = ''laniakea'', Action = ''read''\<rparr>, \<lparr>Entity = ''macaroon'', Action = ''read''\<rparr>,
      \<lparr>Entity = ''plugins'', Action = ''read''\<rparr>]"

definition writePermissions :: "op list" where
  "writePermissions =
     [\<lparr>Entity = ''laniakea'', Action = ''write''\<rparr>, \<lparr>Entity = ''macaroon'', Action = ''generate''\<rparr>,
      \<lparr>Entity = ''macaroon'', Action = ''write''\<rparr>, \<lparr>Entity = ''plugins'', Action = ''write''\<rparr>]"

definition validActions :: "string list" where
  "validActions = [''read'', ''write'', ''generate'']"

definition validEntities :: "string list" where
  "validEntities = [''laniakea'', ''macaroon'', ''plugins'', PermissionEntityCustomURI]"

definition adminPermissions :: "op list" where
  "adminPermissions = readPermissions @ writePermissions"

definition StreamingPluginAPIPermission :: "op list gomap" where
  "StreamingPluginAPIPermission =
     [(''/lanirpc.PluginAPI/Subscribe'', [\<lparr>Entity = ''plugins'', Action = ''read''\<rparr>]),
      (''/lanirpc.PluginAPI/Command'', [\<lparr>Entity = ''plugins'', Action = ''write''\<rparr>]),
      (''/lanirpc.PluginAPI/SubscribePluginState'', [\<lparr>Entity = ''plugins'', Action = ''read''\<rparr>])]"

definition MainGrpcServerPermissions :: "op list gomap" where
  "MainGrpcServerPermissions =
     [(''/lanirpc.Lani/StopDaemon'', [\<lparr>Entity = ''laniakea'', Action = ''write''\<rparr>]),
      (''/lanirpc.Lani/AdminTest'', [\<lparr>Entity = ''laniakea'', Action = ''read''\<rparr>]),
      (''/lanirpc.Lani/BakeMacaroon'', [\<lparr>Entity = ''macaroon'', Action = ''generate''\<rparr>]),
      (''/lanirpc.PluginAPI/StartRecord'', [\<lparr>Entity = ''plugins'', Action = ''write''\<rparr>]),
      (''/lanirpc.PluginAPI/StopRecord'', [\<lparr>Entity = ''plugins'', Action = ''write''\<rparr>]),
      (''/lanirpc.PluginAPI/Subscribe'', [\<lparr>Entity = ''plugins'', Action = ''read''\<rparr>]),
      (''/lanirpc.PluginAPI/StartPlugin'', [\<lparr>Entity = ''plugins'', Action = ''write''\<rparr>]),
      (''/lanirpc.PluginAPI/StopPlugin'', [\<lparr>Entity = ''plugins'', Action = ''write''\<rparr>]),
      (''/lanirpc.PluginAPI/Command'', [\<lparr>Entity = ''plugins'', Action = ''write''\<rparr>]),
      (''/lanirpc.PluginAPI/ListPlugins'', [\<lparr>Entity = ''plugins'', Action = ''read''\<rparr>]),
      (''/lanirpc.PluginAPI/AddPlugin'', [\<lparr>Entity = ''plugins'', Action = ''write''\<rparr>]),
      (''/lanirpc.PluginAPI/GetPlugin'', [\<lparr>Entity = ''plugins'', Action = ''read''\<rparr>]),
      (''/lanirpc.PluginAPI/SubscribePluginState'', [\<lparr>Entity = ''plugins'', Action = ''read''\<rparr>]),
      (''/lanirpc.Health/Check'', [\<lparr>Entity = ''laniakea'', Action = ''read''\<rparr>])]"

text \<open>The descriptors under which the services are registered.\<close>

record service_desc =
  ServiceName :: string
  Methods :: "string list"
  Streams :: "string list"

definition Lani_ServiceDesc :: service_desc where
  "Lani_ServiceDesc = \<lparr>ServiceName = ''lanirpc.Lani'',
     Methods = [''StopDaemon'', ''AdminTest'', ''TestCommand'', ''BakeMacaroon'', ''SetTemperature'',
       ''SetPressure'', ''StartRecording'', ''StopRecording'', ''SubscribeDataStream'',
       ''LoadTestPlan'', ''StartTestPlan'', ''StopTestPlan'', ''InsertROIMarker''],
     Streams = []\<rparr>"

definition PluginAPI_ServiceDesc :: service_desc where
  "PluginAPI_ServiceDesc = \<lparr>ServiceName = ''lanirpc.PluginAPI'',
     Methods = [''StartRecord'', ''StopRecord'', ''StartPlugin'', ''StopPlugin'', ''ListPlugins'',
       ''AddPlugin'', ''GetPlugin''],
     Streams = [''Subscribe'', ''Command'', ''SubscribePluginState'']\<rparr>"

definition Unlocker_ServiceDesc :: service_desc where
  "Unlocker_ServiceDesc = \<lparr>ServiceName = ''lanirpc.Unlocker'',
     Methods = [''Login'', ''SetPassword'', ''ChangePassword''], Streams = []\<rparr>"

definition Health_ServiceDesc :: service_desc where
  "Health_ServiceDesc = \<lparr>ServiceName = ''lanirpc.Health'', Methods = [''Check''], Streams = []\<rparr>"

definition full_methods :: "service_desc \<Rightarrow> string list" where
  "full_methods d = map (\<lambda>m. ''/'' @ ServiceName d @ ''/'' @ m) (Methods d @ Streams d)"

definition served_methods :: "string list" where
  "served_methods = concat (map full_methods
     [Lani_ServiceDesc, PluginAPI_ServiceDesc, Unlocker_ServiceDesc, Health_ServiceDesc])"

section \<open>Baking\<close>

record 'mac baking =
  Oven :: "rpc_context \<Rightarrow> string list \<Rightarrow> op list \<Rightarrow> go_error + 'mac"
  MarshalBinary :: "'mac \<Rightarrow> go_error + string"
  TimeBefore :: "int \<Rightarrow> string"
  Declared :: "string \<Rightarrow> string \<Rightarrow> string"

definition bakeMacaroons ::
  "'mac baking \<Rightarrow> int \<Rightarrow> rpc_context \<Rightarrow> op list \<Rightarrow> 64 word \<Rightarrow> string list \<Rightarrow> go_error + string" where
  "bakeMacaroons lib now ctx perms seconds pluginNames =
     (let caveats = (if seconds \<noteq> 0 then [TimeoutCaveat (TimeBefore lib) now seconds] else []);
          caveats = (if pluginNames \<noteq> [] then caveats @ [PluginCaveat (Declared lib) pluginNames]
            else caveats)
      in
      (case NewMacaroon (Oven lib) ctx DefaultRootKeyID caveats perms of
         Inl e \<Rightarrow> Inl e
       | Inr mac \<Rightarrow> MarshalBinary lib mac))"

text \<open>\<open>genMacaroons\<close> writes the file; a failed write removes what there is of it. \<open>write\<close> says
  whether writing succeeds.\<close>

definition genMacaroons ::
  "'mac baking \<Rightarrow> int \<Rightarrow> (string \<Rightarrow> go_error option) \<Rightarrow> rpc_context \<Rightarrow> string \<Rightarrow> op list \<Rightarrow> 64 word \<Rightarrow>
     string list \<Rightarrow> string gomap \<Rightarrow> go_error option \<times> string gomap" where
  "genMacaroons lib now write ctx macFile perms seconds pluginNames fs =
     (case bakeMacaroons lib now ctx perms seconds pluginNames of
        Inl e \<Rightarrow> (Some e, fs)
      | Inr macBytes \<Rightarrow>
          (case write macFile of
             Some e \<Rightarrow> (Some e, AList.delete macFile fs)
           | None \<Rightarrow> (None, AList.update macFile macBytes fs)))"

datatype timeout_type = SECOND | MINUTE | HOUR | DAY | UnknownTimeoutType int

record bake_request =
  req_Timeout :: "64 word"
  req_TimeoutType :: timeout_type
  req_Plugins :: "string list"
  req_Permissions :: "op list"

text \<open>The \<^verbatim>\<open>switch\<close> has no default: an unknown type is no timeout.\<close>

definition timeout_seconds :: "64 word \<Rightarrow> timeout_type \<Rightarrow> 64 word" where
  "timeout_seconds t ty =
     (if 0 <s t then
        (case ty of
           SECOND \<Rightarrow> t
         | MINUTE \<Rightarrow> t * 60
         | HOUR \<Rightarrow> t * 60 * 60
         | DAY \<Rightarrow> t * 60 * 60 * 24
         | UnknownTimeoutType _ \<Rightarrow> 0)
      else 0)"

fun check_ops :: "grpc_interceptor \<Rightarrow> op list \<Rightarrow> go_error + op list" where
  "check_ops i [] = Inr []"
| "check_ops i (p # ps) =
     (if \<not> StrInStrSlice validEntities (Entity p) then Inl ErrInvalidMacEntity
      else if Entity p = PermissionEntityCustomURI \<and> \<not> has_key (Permissions i) (Action p)
      then Inl ErrInvalidMacAction
      else if Entity p \<noteq> PermissionEntityCustomURI \<and> \<not> StrInStrSlice validActions (Action p)
      then Inl ErrInvalidMacAction
      else
        (case check_ops i ps of
           Inl e \<Rightarrow> Inl e
         | Inr ops \<Rightarrow> Inr (\<lparr>Entity = Entity p, Action = Action p\<rparr> # ops)))"

section \<open>The server\<close>

record rpc_server =
  Active :: "32 word"
  srv_interceptor :: interceptor
  grpcInterceptor :: "grpc_interceptor option"
  quit :: "unit chan"
  macSvc :: "mac_service option"
  listening :: bool

definition NewRpcServer ::
  "interceptor \<Rightarrow> go_error option \<Rightarrow> go_error + rpc_server" where
  "NewRpcServer i listen =
     (case listen of
        Some e \<Rightarrow> Inl e
      | None \<Rightarrow> Inr \<lparr>Active = 0, srv_interceptor = i, grpcInterceptor = None, quit = make_chan 1,
          macSvc = None, listening = True\<rparr>)"

definition AddMacaroonService :: "mac_service \<Rightarrow> rpc_server \<Rightarrow> rpc_server" where
  "AddMacaroonService s r = r\<lparr>macSvc := Some s\<rparr>"

definition AddGrpcInterceptor :: "grpc_interceptor \<Rightarrow> rpc_server \<Rightarrow> rpc_server" where
  "AddGrpcInterceptor i r = r\<lparr>grpcInterceptor := Some i\<rparr>"

definition Start :: "rpc_server \<Rightarrow> go_error option \<times> rpc_server" where
  "Start r =
     (case compare_and_swap (Active r) 0 1 of
        (False, v) \<Rightarrow> (Some ErrServiceAlreadyStarted, r\<lparr>Active := v\<rparr>)
      | (True, v) \<Rightarrow> (None, r\<lparr>Active := v\<rparr>))"

text \<open>\<open>close_error\<close>: what closing the listener, at the address \<open>addr\<close>, answers.\<close>

definition Stop :: "string \<Rightarrow> go_error option \<Rightarrow> rpc_server \<Rightarrow> (go_error option \<times> rpc_server) outcome" where
  "Stop addr close_error r =
     (case compare_and_swap (Active r) 1 0 of
        (False, v) \<Rightarrow> Returns (Some ErrServiceAlreadyStopped, r\<lparr>Active := v\<rparr>)
      | (True, v) \<Rightarrow>
          and_then (chan_close (quit r)) (\<lambda>q.
          Returns (case close_error of
              Some e \<Rightarrow> Some (Foreign (''could not stop listening at '' @ addr @ '': '' @ error_msg e))
            | None \<Rightarrow> None, r\<lparr>Active := v, quit := q, listening := False\<rparr>)))"

definition StopDaemon :: "rpc_server \<Rightarrow> (rpc_error + unit) \<times> rpc_server" where
  "StopDaemon r = (Inr (), r\<lparr>srv_interceptor := RequestShutdown (srv_interceptor r)\<rparr>)"

definition AdminTest :: "rpc_server \<Rightarrow> rpc_error + string" where
  "AdminTest r = Inr ''This is an admin test''"

definition TestCommand :: "rpc_server \<Rightarrow> rpc_error + string" where
  "TestCommand r = Inr ''This is a regular test''"

definition SetTemperature :: "rpc_server \<Rightarrow> rpc_error + unit" where
  "SetTemperature r = Inl (status Unimplemented ErrDeprecatedAction)"

definition SetPressure :: "rpc_server \<Rightarrow> rpc_error + unit" where
  "SetPressure r = Inl (status Unimplemented ErrDeprecatedAction)"

definition StartRecording :: "rpc_server \<Rightarrow> rpc_error + unit" where
  "StartRecording r = Inl (status Unimplemented ErrDeprecatedAction)"

definition StopRecording :: "rpc_server \<Rightarrow> rpc_error + unit" where
  "StopRecording r = Inl (status Unimplemented ErrDeprecatedAction)"

definition SubscribeDataStream :: "rpc_server \<Rightarrow> rpc_error + unit" where
  "SubscribeDataStream r = Inl (status Unimplemented ErrDeprecatedAction)"

definition LoadTestPlan :: "rpc_server \<Rightarrow> rpc_error + unit" where
  "LoadTestPlan r = Inl (status Unimplemented ErrDeprecatedAction)"

definition StartTestPlan :: "rpc_server \<Rightarrow> rpc_error + unit" where
  "StartTestPlan r = Inl (status Unimplemented ErrDeprecatedAction)"

definition StopTestPlan :: "rpc_server \<Rightarrow> rpc_error + unit" where
  "StopTestPlan r = Inl (status Unimplemented ErrDeprecatedAction)"

definition InsertROIMarker :: "rpc_server \<Rightarrow> rpc_error + unit" where
  "InsertROIMarker r = Inl (status Unimplemented ErrDeprecatedAction)"

definition Ping :: "rpc_server \<Rightarrow> go_error option" where
  "Ping r = None"

definition BakeMacaroon ::
  "'mac baking \<Rightarrow> int \<Rightarrow> rpc_context \<Rightarrow> bake_request \<Rightarrow> rpc_server \<Rightarrow> rpc_error + string" where
  "BakeMacaroon lib now ctx req r =
     (if macSvc r = None then Inl (status Aborted ErrMacSvcNil)
      else
        (case grpcInterceptor r of
           None \<Rightarrow> Inl (status Aborted ErrGRPCMiddlewareNil)
         | Some i \<Rightarrow>
             if req_Permissions req = [] then Inl (status InvalidArgument ErrEmptyPermissionsList)
             else
               (case check_ops i (req_Permissions req) of
                  Inl e \<Rightarrow> Inl (status InvalidArgument e)
                | Inr perms \<Rightarrow>
                    (case bakeMacaroons lib now ctx perms
                        (timeout_seconds (req_Timeout req) (req_TimeoutType req))
                        (req_Plugins req) of
                       Inl e \<Rightarrow> Inl (Status Internal (''could not bake macaroon: '' @ error_msg e))
                     | Inr macBytes \<Rightarrow> Inr (hex_encode macBytes)))))"

section \<open>The API is covered\<close>


section \<open>Timeouts\<close>

text \<open>The number of seconds in a unit.\<close>

definition unit_seconds :: "timeout_type \<Rightarrow> int" where
  "unit_seconds ty =
     (case ty of SECOND \<Rightarrow> 1 | MINUTE \<Rightarrow> 60 | HOUR \<Rightarrow> 3600 | DAY \<Rightarrow> 86400 | UnknownTimeoutType _ \<Rightarrow> 0)"

lemma timeout_word:
  assumes "0 <s t"
  shows "timeout_duration (timeout_seconds t ty) = word_of_int (1000000000 * unit_seconds ty * sint t)"
  using assms by (cases ty) (simp_all add: timeout_seconds_def timeout_duration_def unit_seconds_def)

lemma sint_word_of_int_fits:
  "0 \<le> x \<Longrightarrow> sint (word_of_int x :: 64 word) = x \<longleftrightarrow> x < 2 ^ 63"
proof -
  assume "0 \<le> x"
  have "sint (word_of_int x :: 64 word) = signed_take_bit 63 x"
    by (simp add: sint_uint unsigned_of_int signed_take_bit_take_bit)
  then show ?thesis using \<open>0 \<le> x\<close> by (simp add: signed_take_bit_int_eq_self_iff)
qed

text \<open>
  C25. The expiry of a baked macaroon is exact as long as the timeout in nanoseconds fits a signed
  64-bit integer, about 292 years, and wrong as soon as it does not: nothing checks the range.
  In particular \<open>2 ^ 57\<close> days wrap to no timeout at all, so that the macaroon never expires.
\<close>

theorem timeout_exact_iff_it_fits:
  assumes "0 <s t"
  shows "(sint (timeout_duration (timeout_seconds t ty)) = 1000000000 * unit_seconds ty * sint t \<longleftrightarrow>
      1000000000 * unit_seconds ty * sint t < 2 ^ 63) \<and>
    timeout_seconds (2 ^ 57) DAY = 0"
proof -
  have "0 \<le> sint t" using assms by (simp add: word_sless_alt)
  then have "0 \<le> 1000000000 * unit_seconds ty * sint t"
    by (simp add: unit_seconds_def split: timeout_type.split)
  moreover have "timeout_seconds (2 ^ 57) DAY = 0" by (simp add: timeout_seconds_def)
  ultimately show ?thesis unfolding timeout_word [OF assms] by (intro conjI sint_word_of_int_fits)
qed

section \<open>From baking to validation\<close>

text \<open>The library: what was baked comes back when it is unmarshalled, with the caveats it was
  given; a time caveat is the word \<^verbatim>\<open>time-before\<close> and a time stamp.\<close>

definition baking_laws :: "'mac baking \<Rightarrow> 'mac bakery \<Rightarrow> bool" where
  "baking_laws lib bk \<longleftrightarrow>
     (\<forall>ctx cavs ops mac bs. Oven lib ctx cavs ops = Inr mac \<longrightarrow> MarshalBinary lib mac = Inr bs \<longrightarrow>
        Unmarshal bk bs = Inr mac \<and> Caveats bk mac = cavs) \<and>
     (\<forall>t. \<exists>stamp. TimeBefore lib t = ''time-before '' @ stamp \<and> CHR '' '' \<notin> set stamp \<and>
        stamp \<noteq> ''plugins'') \<and>
     declared_format (Declared lib)"

text \<open>The plugins a list of names in the request stands for.\<close>

definition names_allow :: "string list \<Rightarrow> string \<Rightarrow> bool" where
  "names_allow ns p \<longleftrightarrow>
     (case ns of [] \<Rightarrow> False | [n] \<Rightarrow> contains p n \<or> n = ''all'' | _ \<Rightarrow> p \<in> set ns)"

lemma names_allow_caveat:
  assumes "declared_format D" and "ns \<noteq> []" and "\<forall>n \<in> set ns. ValidatePluginName n"
  shows "caveat_allows p (PluginCaveat D ns) = Returns (names_allow ns p)"
  using plugin_caveat_meaning [OF assms, of p] assms(2)
  by (auto simp: names_allow_def neq_Nil_conv split: list.splits)

lemma time_caveat_allows_nothing:
  assumes "baking_laws lib bk"
  shows "caveat_allows p (TimeoutCaveat (TimeBefore lib) now n) = Returns False"
proof -
  have "\<exists>stamp. TimeBefore lib t = ''time-before '' @ stamp \<and> CHR '' '' \<notin> set stamp \<and>
      stamp \<noteq> ''plugins''" for t
    using assms unfolding baking_laws_def by blast
  then obtain stamp where stamp: "TimeoutCaveat (TimeBefore lib) now n =
      ''time-before'' @ CHR '' '' # stamp" "CHR '' '' \<notin> set stamp" "stamp \<noteq> ''plugins''"
    unfolding TimeoutCaveat_def by fastforce
  then have "split CHR '' '' (TimeoutCaveat (TimeBefore lib) now n) = [''time-before'', stamp]"
    by (simp add: split_append split_word)
  with stamp(3) show ?thesis by (simp add: caveat_allows_def)
qed

lemma check_ops_Inr:
  "check_ops i ps = Inr ops \<Longrightarrow> ops = ps \<and>
     (\<forall>p \<in> set ps. Entity p \<in> set validEntities \<and>
        (if Entity p = ''uri'' then has_key (i_permissionMap i) (Action p)
         else Action p \<in> set validActions))"
  by (induction ps arbitrary: ops)
    (auto simp: Permissions_def PermissionEntityCustomURI_def split: if_splits sum.splits)

lemma BakeMacaroon_Inr:
  assumes "BakeMacaroon lib now ctx req r = Inr h"
  obtains i cavs mac bs where "grpcInterceptor r = Some i" "check_ops i (req_Permissions req) =
      Inr (req_Permissions req)" "Oven lib (ContextWithRootKeyId ctx DefaultRootKeyID) cavs
      (req_Permissions req) = Inr mac" "MarshalBinary lib mac = Inr bs" "h = hex_encode bs"
    "cavs = (let s = timeout_seconds (req_Timeout req) (req_TimeoutType req) in
       if s \<noteq> 0 then [TimeoutCaveat (TimeBefore lib) now s] else []) @
       (if req_Plugins req \<noteq> [] then [PluginCaveat (Declared lib) (req_Plugins req)] else [])"
proof -
  from assms obtain i ops bs where
    b: "grpcInterceptor r = Some i" "check_ops i (req_Permissions req) = Inr ops"
      "bakeMacaroons lib now ctx ops (timeout_seconds (req_Timeout req) (req_TimeoutType req))
        (req_Plugins req) = Inr bs" "h = hex_encode bs"
    by (auto simp: BakeMacaroon_def split: if_splits option.splits sum.splits)
  let ?cavs = "(let s = timeout_seconds (req_Timeout req) (req_TimeoutType req) in
       if s \<noteq> 0 then [TimeoutCaveat (TimeBefore lib) now s] else []) @
       (if req_Plugins req \<noteq> [] then [PluginCaveat (Declared lib) (req_Plugins req)] else [])"
  from b(3) obtain mac where
    "Oven lib (ContextWithRootKeyId ctx DefaultRootKeyID) ?cavs ops = Inr mac"
    "MarshalBinary lib mac = Inr bs"
    by (auto simp: bakeMacaroons_def NewMacaroon_def Let_def DefaultRootKeyID_def
        split: if_splits sum.splits)
  with that b check_ops_Inr [OF b(2)] show ?thesis by blast
qed


text \<open>The names themselves are not validated: the empty name opens every plugin.\<close>

lemma empty_name_opens_all_plugins:
  assumes "declared_format D"
  shows "caveat_allows p (PluginCaveat D [[]]) = Returns True"
  by (simp add: PluginCaveat_def caveat_allows_declared [OF assms] contains_sublist)

text \<open>Starting a stopped server again and stopping it closes its \<^verbatim>\<open>quit\<close> channel twice.\<close>

lemma second_Stop_panics:
  assumes "Stop a e r = Returns (x, r1)" and "Active r = 1"
  shows "Stop a' e' (snd (Start r1)) = Panics"
  using assms by (auto simp: Stop_def Start_def compare_and_swap_def chan_close_def split: if_splits)

section \<open>Witnesses\<close>

theorem timeout_exact_iff_it_fits_witness:
  "sint (timeout_duration (timeout_seconds 7 DAY)) = 604800000000000"
proof -
  have "0 <s (7 :: 64 word)" by (simp add: word_sless_alt)
  from timeout_exact_iff_it_fits [OF this, of DAY] show ?thesis by (simp add: unit_seconds_def)
qed

definition demo_baking :: "string list baking" where
  "demo_baking =
     \<lparr>Oven = (\<lambda>_ cavs _. if split CHR '','' (join CHR '','' cavs) = cavs then Inr cavs
        else Inl (Foreign ''unsupported caveat'')),
      MarshalBinary = (\<lambda>m. Inr (join CHR '','' m)),
      TimeBefore = (\<lambda>_. ''time-before 2022-09-20''), Declared = demo_declared\<rparr>"

lemma demo_baking_laws: "baking_laws demo_baking (demo_bakery v)"
  by (auto simp: baking_laws_def demo_baking_def demo_bakery_def demo_formats split: if_splits)

definition demo_server :: rpc_server where
  "demo_server = AddMacaroonService demo_service (AddGrpcInterceptor demo_interceptor
     \<lparr>Active = 1, srv_interceptor = new_interceptor, grpcInterceptor = None, quit = make_chan 1,
      macSvc = None, listening = True\<rparr>)"

definition demo_bake_request :: bake_request where
  "demo_bake_request = \<lparr>req_Timeout = 7, req_TimeoutType = DAY, req_Plugins = [''rsync'', ''fluke''],
     req_Permissions = [\<lparr>Entity = ''plugins'', Action = ''write''\<rparr>]\<rparr>"


end
