(* ===== verification/Config.thy ===== *)
theory Config
  imports PluginConfig "HOL-Library.Word"
begin

text \<open>
  Files \<^verbatim>\<open>core/config.go\<close> and \<^verbatim>\<open>utils/appdata.go\<close>: where the daemon keeps its data and how its
  configuration comes about, from the defaults, the file \<^verbatim>\<open>config.yaml\<close> and the command line. The
  YAML decoder and the flag parser are libraries: what they make of the configuration they are
  given is a parameter. Fields of type \<^verbatim>\<open>int64\<close> are 64-bit words.
\<close>

section \<open>The data directory\<close>

record os_env =
  HomeDir :: "string option"
  env_HOME :: string
  env_LOCALAPPDATA :: string
  env_APPDATA :: string
  ToUpper :: "char \<Rightarrow> string"
  ToLower :: "char \<Rightarrow> string"
  JoinPath :: "string list \<Rightarrow> string"

text \<open>\<^verbatim>\<open>appName[0]\<close> of an empty name would panic; the name is not empty there, because the empty name
  and the lone dot were sent away before.\<close>

definition appDataDir :: "os_env \<Rightarrow> string \<Rightarrow> string \<Rightarrow> bool \<Rightarrow> string outcome" where
  "appDataDir env goos appName roaming =
     (if appName = '''' \<or> appName = ''.'' then Returns ''.''
      else
        (case (if hd appName = CHR ''.'' then tl appName else appName) of
           [] \<Rightarrow> Panics
         | c # rest \<Rightarrow>
             let appNameUpper = ToUpper env c @ rest;
                 appNameLower = ToLower env c @ rest;
                 homeDir = (case HomeDir env of
                     None \<Rightarrow> env_HOME env
                   | Some h \<Rightarrow> if h = '''' then env_HOME env else h)
             in Returns
               (if goos = ''windows'' then
                  (let appData = (if roaming \<or> env_LOCALAPPDATA env = '''' then env_APPDATA env
                     else env_LOCALAPPDATA env)
                   in if appData \<noteq> '''' then JoinPath env [appData, appNameUpper] else ''.'')
                else if homeDir = '''' then ''.''
                else if goos = ''darwin''
                then JoinPath env [homeDir, ''Library'', ''Application Support'', appNameUpper]
                else if goos = ''plan9'' then JoinPath env [homeDir, appNameLower]
                else JoinPath env [homeDir, ''.'' @ appNameLower])))"

section \<open>The configuration\<close>

record config =
  DefaultLogDir :: bool
  LogFileDir :: string
  MaxLogFiles :: "64 word"
  MaxLogFileSize :: "64 word"
  ConsoleOutput :: bool
  GrpcPort :: "64 word"
  RestPort :: "64 word"
  ExtraIPAddr :: "string list"
  PluginDir :: string
  Plugins :: "plugin_config list"
  RegenerateMacaroons :: bool
  MacaroonDBPath :: string
  TLSCertPath :: string
  TLSKeyPath :: string
  AdminMacPath :: string
  TestMacPath :: string
  WSPingInterval :: int
  WSPongWait :: int

definition default_grpc_port :: "64 word" where "default_grpc_port = 7777"
definition default_rest_port :: "64 word" where "default_rest_port = 8080"
definition default_log_file_size :: "64 word" where "default_log_file_size = 10"
definition default_max_log_files :: "64 word" where "default_max_log_files = 0"
definition default_ws_ping_interval :: int where "default_ws_ping_interval = 1000000000 * 30"
definition default_ws_pong_wait :: int where "default_ws_pong_wait = 1000000000 * 5"

lemmas config_defaults = default_grpc_port_def default_rest_port_def default_log_file_size_def
  default_max_log_files_def default_ws_ping_interval_def default_ws_pong_wait_def

text \<open>\<open>dir\<close> is \<^verbatim>\<open>default_log_dir()\<close>.\<close>

definition default_config :: "string \<Rightarrow> config" where
  "default_config dir =
     \<lparr>DefaultLogDir = True, LogFileDir = dir, MaxLogFiles = default_max_log_files,
      MaxLogFileSize = default_log_file_size, ConsoleOutput = True, GrpcPort = default_grpc_port,
      RestPort = default_rest_port, ExtraIPAddr = [], PluginDir = dir, Plugins = [],
      RegenerateMacaroons = False, MacaroonDBPath = dir @ ''/macaroon.db'',
      TLSCertPath = dir @ ''/tls.cert'', TLSKeyPath = dir @ ''/tls.key'',
      AdminMacPath = dir @ ''/admin.macaroon'', TestMacPath = dir @ ''/test.macaroon'',
      WSPingInterval = default_ws_ping_interval, WSPongWait = default_ws_pong_wait\<rparr>"

text \<open>One field of the loop of \<open>check_yaml_config\<close>, which visits the fields in the order of the
  struct; \<^verbatim>\<open>change_field\<close> sets a field of a matching type, as every call here does.\<close>

definition check_field :: "string \<Rightarrow> string \<Rightarrow> config \<Rightarrow> config" where
  "check_field dir field_name c =
     (if field_name = ''LogFileDir'' then
        (if LogFileDir c = '''' then c\<lparr>LogFileDir := dir, DefaultLogDir := True\<rparr> else c)
      else if field_name = ''MaxLogFileSize'' then
        (if MaxLogFileSize c = 0 then c\<lparr>MaxLogFileSize := default_log_file_size\<rparr> else c)
      else if field_name = ''GrpcPort'' then
        (if GrpcPort c = 0 then c\<lparr>GrpcPort := default_grpc_port\<rparr> else c)
      else if field_name = ''RestPort'' then
        (if RestPort c = 0 then c\<lparr>RestPort := default_rest_port\<rparr> else c)
      else if field_name = ''MacaroonDBPath'' then
        (if MacaroonDBPath c = '''' then c\<lparr>MacaroonDBPath := dir @ ''/macaroon.db''\<rparr> else c)
      else if field_name = ''TLSCertPath'' then
        (if TLSCertPath c = ''''
         then c\<lparr>TLSCertPath := dir @ ''/tls.cert'', TLSKeyPath := dir @ ''/tls.key''\<rparr> else c)
      else if field_name = ''TLSKeyPath'' then
        (if TLSKeyPath c = ''''
         then c\<lparr>TLSKeyPath := dir @ ''/tls.key'', TLSCertPath := dir @ ''/tls.cert''\<rparr> else c)
      else if field_name = ''AdminMacPath'' then
        (if AdminMacPath c = '''' then c\<lparr>AdminMacPath := dir @ ''/admin.macaroon''\<rparr> else c)
      else if field_name = ''TestMacPath'' then
        (if TestMacPath c = '''' then c\<lparr>TestMacPath := dir @ ''/test.macaroon''\<rparr> else c)
      else if field_name = ''PluginDir'' then
        (if PluginDir c = '''' then c\<lparr>PluginDir := dir\<rparr> else c)
      else c)"

definition config_fields :: "string list" where
  "config_fields =
     [''DefaultLogDir'', ''LogFileDir'', ''MaxLogFiles'', ''MaxLogFileSize'', ''ConsoleOutput'',
      ''GrpcPort'', ''RestPort'', ''ExtraIPAddr'', ''PluginDir'', ''Plugins'',
      ''RegenerateMacaroons'', ''MacaroonDBPath'', ''TLSCertPath'', ''TLSKeyPath'',
      ''AdminMacPath'', ''TestMacPath'', ''WSPingInterval'', ''WSPongWait'']"

definition check_yaml_config :: "string \<Rightarrow> config \<Rightarrow> config" where
  "check_yaml_config dir c = fold (check_field dir) config_fields c"

text \<open>The plugins of the file are validated, and completed, one after the other.\<close>

fun validate_plugins ::
  "(string \<Rightarrow> bool) \<Rightarrow> string \<Rightarrow> bool \<Rightarrow> plugin_config list \<Rightarrow> go_error + plugin_config list" where
  "validate_plugins FileExists dir isTesting [] = Inr []"
| "validate_plugins FileExists dir isTesting (p # ps) =
     (case ValidatePluginConfig FileExists p dir isTesting of
        (Some e, _) \<Rightarrow>
          Inl (Foreign (''Error validating '' @ Name p @ '' plugin: '' @ error_msg e))
      | (None, p') \<Rightarrow>
          (case validate_plugins FileExists dir isTesting ps of
             Inl e \<Rightarrow> Inl e
           | Inr ps' \<Rightarrow> Inr (p' # ps')))"

text \<open>What reading the configuration file can yield; decoding starts from the configuration it
  is given and may fail half way.\<close>

datatype yaml_file = NoFile | Unreadable | Undecodable | Decoded "config \<Rightarrow> config"

definition InitConfig ::
  "(string \<Rightarrow> bool) \<Rightarrow> string \<Rightarrow> yaml_file \<Rightarrow> (config \<Rightarrow> go_error + config) \<Rightarrow> bool \<Rightarrow>
     go_error + config" where
  "InitConfig FileExists dir file parse_flags isTesting =
     (let ws = (\<lambda>c. c\<lparr>WSPingInterval := default_ws_ping_interval,
                     WSPongWait := default_ws_pong_wait\<rparr>);
          flags = (\<lambda>c. if isTesting then Inr c else parse_flags c) in
      (case file of
         NoFile \<Rightarrow> flags (default_config dir)
       | Unreadable \<Rightarrow> Inr (default_config dir)
       | Undecodable \<Rightarrow> flags (ws (default_config dir))
       | Decoded f \<Rightarrow>
           let c = check_yaml_config dir (f (default_config dir)) in
           (case validate_plugins FileExists (PluginDir c) isTesting (Plugins c) of
              Inl e \<Rightarrow> Inl e
            | Inr ps \<Rightarrow> flags (ws (c\<lparr>Plugins := ps\<rparr>)))))"

section \<open>Lemmas\<close>

text \<open>The fields that must not be blank.\<close>

definition complete_config :: "config \<Rightarrow> bool" where
  "complete_config c \<longleftrightarrow>
     [] \<notin> {LogFileDir c, PluginDir c, MacaroonDBPath c, TLSCertPath c, TLSKeyPath c,
       AdminMacPath c, TestMacPath c} \<and>
     0 \<notin> {MaxLogFileSize c, GrpcPort c, RestPort c}"

lemma check_yaml_config_steps:
  "check_yaml_config dir c =
     check_field dir ''TestMacPath'' (check_field dir ''AdminMacPath''
      (check_field dir ''TLSKeyPath'' (check_field dir ''TLSCertPath''
      (check_field dir ''MacaroonDBPath'' (check_field dir ''PluginDir''
      (check_field dir ''RestPort'' (check_field dir ''GrpcPort''
      (check_field dir ''MaxLogFileSize'' (check_field dir ''LogFileDir'' c)))))))))"
  by (simp add: check_yaml_config_def config_fields_def check_field_def [of _ "''DefaultLogDir''"]
      check_field_def [of _ "''MaxLogFiles''"] check_field_def [of _ "''ConsoleOutput''"]
      check_field_def [of _ "''ExtraIPAddr''"] check_field_def [of _ "''Plugins''"]
      check_field_def [of _ "''RegenerateMacaroons''"] check_field_def [of _ "''WSPingInterval''"]
      check_field_def [of _ "''WSPongWait''"])

lemma check_field_updates:
  "check_field dir ''LogFileDir'' c = c\<lparr>LogFileDir := (if LogFileDir c = [] then dir else LogFileDir c),
     DefaultLogDir := (LogFileDir c = [] \<or> DefaultLogDir c)\<rparr>"
  "check_field dir ''MaxLogFileSize'' c =
     c\<lparr>MaxLogFileSize := (if MaxLogFileSize c = 0 then 10 else MaxLogFileSize c)\<rparr>"
  "check_field dir ''GrpcPort'' c = c\<lparr>GrpcPort := (if GrpcPort c = 0 then 7777 else GrpcPort c)\<rparr>"
  "check_field dir ''RestPort'' c = c\<lparr>RestPort := (if RestPort c = 0 then 8080 else RestPort c)\<rparr>"
  "check_field dir ''PluginDir'' c = c\<lparr>PluginDir := (if PluginDir c = [] then dir else PluginDir c)\<rparr>"
  "check_field dir ''MacaroonDBPath'' c =
     c\<lparr>MacaroonDBPath := (if MacaroonDBPath c = [] then dir @ ''/macaroon.db'' else MacaroonDBPath c)\<rparr>"
  "check_field dir ''AdminMacPath'' c =
     c\<lparr>AdminMacPath := (if AdminMacPath c = [] then dir @ ''/admin.macaroon'' else AdminMacPath c)\<rparr>"
  "check_field dir ''TestMacPath'' c =
     c\<lparr>TestMacPath := (if TestMacPath c = [] then dir @ ''/test.macaroon'' else TestMacPath c)\<rparr>"
  "check_field dir ''TLSKeyPath'' (check_field dir ''TLSCertPath'' c) =
     c\<lparr>TLSCertPath := (if TLSCertPath c = [] \<or> TLSKeyPath c = [] then dir @ ''/tls.cert''
         else TLSCertPath c),
       TLSKeyPath := (if TLSCertPath c = [] \<or> TLSKeyPath c = [] then dir @ ''/tls.key''
         else TLSKeyPath c)\<rparr>"
  by (simp_all add: check_field_def config_defaults)

text \<open>The pass as a function of the configuration: every field by itself, except that the two
  TLS paths are set together.\<close>

lemma check_yaml_config_fields:
  "check_yaml_config dir c =
     c\<lparr>LogFileDir := (if LogFileDir c = [] then dir else LogFileDir c),
      DefaultLogDir := (LogFileDir c = [] \<or> DefaultLogDir c),
      MaxLogFileSize := (if MaxLogFileSize c = 0 then 10 else MaxLogFileSize c),
      GrpcPort := (if GrpcPort c = 0 then 7777 else GrpcPort c),
      RestPort := (if RestPort c = 0 then 8080 else RestPort c),
      PluginDir := (if PluginDir c = [] then dir else PluginDir c),
      MacaroonDBPath := (if MacaroonDBPath c = [] then dir @ ''/macaroon.db'' else MacaroonDBPath c),
      TLSCertPath := (if TLSCertPath c = [] \<or> TLSKeyPath c = [] then dir @ ''/tls.cert''
        else TLSCertPath c),
      TLSKeyPath := (if TLSCertPath c = [] \<or> TLSKeyPath c = [] then dir @ ''/tls.key''
        else TLSKeyPath c),
      AdminMacPath := (if AdminMacPath c = [] then dir @ ''/admin.macaroon'' else AdminMacPath c),
      TestMacPath := (if TestMacPath c = [] then dir @ ''/test.macaroon'' else TestMacPath c)\<rparr>"
  unfolding check_yaml_config_steps
  by (simp add: check_field_updates)

lemma complete_config_unchanged: "complete_config c \<Longrightarrow> check_yaml_config dir c = c"
  unfolding check_yaml_config_fields complete_config_def
  by (cases c) (auto simp del: not_None_eq)

lemma validate_plugins_valid:
  "validate_plugins ex dir t ps = Inr ps' \<Longrightarrow>
     length ps' = length ps \<and>
     (\<forall>p \<in> set ps'. ValidatePluginName (Name p) \<and> ValidatePluginExec (ExecName p) \<and>
        Type p \<in> {DATASOURCE_STR, CONTROLLER_STR} \<and> Timeout p \<noteq> 0 \<and> MaxTimeouts p \<noteq> 0 \<and>
        (t \<or> ex (plugin_path dir (ExecName p))))"
  by (induction ps arbitrary: ps')
    (auto simp: ValidatePluginConfig_def Let_def defaultPluginTimeout_def
      defaultPluginMaxTimeouts_def split: prod.splits option.splits sum.splits if_splits)


section \<open>Witnesses\<close>

definition demo_yaml :: "config \<Rightarrow> config" where
  "demo_yaml c = c\<lparr>LogFileDir := '''', GrpcPort := 9000, TLSCertPath := '''', TLSKeyPath := ''my.key'',
     Plugins := [\<lparr>Name = ''p'', Type = DATASOURCE_STR, ExecName = ''p'', Timeout = 0,
       MaxTimeouts = 3\<rparr>]\<rparr>"


end
