(* ===== verification/GoNumbers.thy ===== *)
theory GoNumbers
  imports GoStrings
begin

text \<open>
  Numbers in decimal, as \<^verbatim>\<open>strconv.Itoa\<close> and \<^verbatim>\<open>%v\<close> print them and \<^verbatim>\<open>strconv.ParseInt\<close> reads
  them back, for the file names and addresses of the program.
\<close>

definition is_digit :: "char \<Rightarrow> bool" where
  "is_digit c \<longleftrightarrow> 48 \<le> (of_char c :: nat) \<and> (of_char c :: nat) \<le> 57"

definition digit_char :: "nat \<Rightarrow> char" where
  "digit_char n = char_of (48 + n)"

fun Itoa :: "nat \<Rightarrow> string" where
  "Itoa n = (if n < 10 then [digit_char n] else Itoa (n div 10) @ [digit_char (n mod 10)])"

declare Itoa.simps [simp del]

definition digits_value :: "string \<Rightarrow> nat" where
  "digits_value s = foldl (\<lambda>a c. a * 10 + (of_char c - 48)) 0 s"

text \<open>\<^verbatim>\<open>ParseInt(s, 10, 64)\<close> of a string of digits: out of range is an error.\<close>

definition ParseInt :: "string \<Rightarrow> string + nat" where
  "ParseInt s =
     (if s = [] \<or> \<not> list_all is_digit s then Inl ''invalid syntax''
      else if 2 ^ 63 \<le> digits_value s then Inl ''value out of range''
      else Inr (digits_value s))"

lemma of_char_digit: "n < 10 \<Longrightarrow> of_char (digit_char n) = 48 + n"
  by (simp add: digit_char_def)

lemma is_digit_char [simp]: "n < 10 \<Longrightarrow> is_digit (digit_char n)"
  by (simp add: is_digit_def of_char_digit)

lemma Itoa_digits: "list_all is_digit (Itoa n) \<and> Itoa n \<noteq> []"
  by (induction n rule: Itoa.induct) (subst (1 2) Itoa.simps, auto)

lemma digits_value_snoc: "digits_value (s @ [c]) = digits_value s * 10 + (of_char c - 48)"
  by (simp add: digits_value_def)

lemma digits_value_Itoa: "digits_value (Itoa n) = n"
proof (induction n rule: Itoa.induct)
  case (1 n)
  show ?case
  proof (cases "n < 10")
    case True
    then show ?thesis by (subst Itoa.simps) (simp add: digits_value_def of_char_digit)
  next
    case False
    with 1 show ?thesis by (subst Itoa.simps) (simp add: digits_value_snoc of_char_digit)
  qed
qed

lemma ParseInt_Itoa: "n < 2 ^ 63 \<Longrightarrow> ParseInt (Itoa n) = Inr n"
  by (simp add: ParseInt_def Itoa_digits digits_value_Itoa)

lemma Itoa_inject [simp]: "Itoa m = Itoa n \<longleftrightarrow> m = n"
  by (metis digits_value_Itoa)

lemma Itoa_length: "length (Itoa n) = (if n < 10 then 1 else Suc (length (Itoa (n div 10))))"
  by (subst Itoa.simps) simp

lemma takeWhile_digits: "list_all P s \<Longrightarrow> \<not> P c \<Longrightarrow> takeWhile P (s @ c # t) = s"
  by (induction s) auto

end
