(* ===== verification/Logging.thy ===== *)
theory Logging
  imports Config GoNumbers
begin

text \<open>
  File \<^verbatim>\<open>core/log.go\<close>: the log file writer, which starts a new file when the current one would
  reach its maximum size. The log directory is the map from the names of its files to their
  contents; what the operating system answers to the calls that may fail is the record
  \<open>os_answers\<close>. Sizes are those of real files, so that they stay far from the limits of
  \<^verbatim>\<open>int64\<close>; the two configured numbers are 64-bit words, because the code multiplies and
  subtracts them unchecked.
\<close>

definition logFileRoot :: string where "logFileRoot = ''logfile''"
definition logFileExt :: string where "logFileExt = ''log''"
definition logFileName :: string where "logFileName = ''logfile.log''"

record file_writer =
  current_file :: string
  file_open :: bool
  maxFileSize :: "64 word"
  maxFiles :: "64 word"
  log_dir :: "string gomap"

record os_answers =
  ans_stat :: "go_error option"
  ans_remove :: "go_error option"
  ans_open :: "go_error option"

definition no_errors :: os_answers where
  "no_errors = \<lparr>ans_stat = None, ans_remove = None, ans_open = None\<rparr>"

definition contents :: "file_writer \<Rightarrow> string \<Rightarrow> string" where
  "contents w f = (case map_of (log_dir w) f of Some s \<Rightarrow> s | None \<Rightarrow> [])"

text \<open>The first submatch of \<^verbatim>\<open>logfile([0-9]+)\<close> in a name.\<close>

fun number_in :: "string \<Rightarrow> string option" where
  "number_in [] = None"
| "number_in (c # cs) =
     (let digits = takeWhile is_digit (drop (length logFileRoot) (c # cs)) in
      if prefix logFileRoot (c # cs) \<and> digits \<noteq> [] then Some digits else number_in cs)"

definition file_number :: "string \<Rightarrow> go_error + nat" where
  "file_number name =
     (case number_in name of
        None \<Rightarrow> Inr 0
      | Some digits \<Rightarrow>
          (case ParseInt digits of Inl e \<Rightarrow> Inl (Foreign e) | Inr n \<Rightarrow> Inr n))"

definition next_name :: "64 word \<Rightarrow> nat \<Rightarrow> string" where
  "next_name limit fileNum =
     (if sint (limit - 1) \<le> int fileNum then logFileRoot @ ''.'' @ logFileExt
      else logFileRoot @ Itoa (fileNum + 1) @ ''.'' @ logFileExt)"

text \<open>Closing the current file, removing the next one if it exists, creating it. A failure on the
  way leaves the writer with a closed file.\<close>

definition rotate_log :: "os_answers \<Rightarrow> nat \<Rightarrow> file_writer \<Rightarrow> go_error option \<times> file_writer" where
  "rotate_log os fileNum w =
     (let w = w\<lparr>file_open := False\<rparr>; newFileName = next_name (maxFiles w) fileNum in
      if has_key (log_dir w) newFileName \<and> ans_remove os \<noteq> None then (ans_remove os, w)
      else
        let w = w\<lparr>log_dir := AList.delete newFileName (log_dir w)\<rparr> in
        (case ans_open os of
           Some e \<Rightarrow> (Some e, w)
         | None \<Rightarrow> (None, w\<lparr>current_file := newFileName, file_open := True,
             log_dir := AList.update newFileName [] (log_dir w)\<rparr>)))"

definition append_to :: "string \<Rightarrow> file_writer \<Rightarrow> file_writer" where
  "append_to p w =
     w\<lparr>log_dir := AList.update (current_file w) (contents w (current_file w) @ p) (log_dir w)\<rparr>"

definition closed_file :: go_error where
  "closed_file = Foreign ''use of closed file''"

definition Write :: "os_answers \<Rightarrow> string \<Rightarrow> file_writer \<Rightarrow> (nat \<times> go_error option) \<times> file_writer" where
  "Write os p w =
     (if \<not> file_open w then ((0, Some closed_file), w)
      else if ans_stat os \<noteq> None then ((0, ans_stat os), w)
      else
        let size = int (length (contents w (current_file w))) in
        if sint (maxFileSize w) \<le> size \<or> sint (maxFileSize w) \<le> size + int (length p) then
          (case file_number (current_file w) of
             Inl e \<Rightarrow> ((0, Some e), w)
           | Inr fileNum \<Rightarrow>
               (case rotate_log os fileNum w of
                  (Some e, w) \<Rightarrow> ((0, Some e), w)
                | (None, w) \<Rightarrow> ((length p, None), append_to p w)))
        else ((length p, None), append_to p w))"

text \<open>\<open>InitLogger\<close>: the file is opened in the configured directory, which is created if it is the
  default one; \<open>open1\<close> and \<open>open2\<close> answer the two attempts. Console output is formatting only.\<close>

definition InitLogger ::
  "go_error option \<Rightarrow> go_error option \<Rightarrow> go_error option \<Rightarrow> string gomap \<Rightarrow> config \<Rightarrow> go_error + file_writer" where
  "InitLogger open1 mkdir open2 fs c =
     (let w = \<lparr>current_file = logFileName, file_open = True,
               maxFileSize = MaxLogFileSize c * 1000000, maxFiles = MaxLogFiles c,
               log_dir = (if has_key fs logFileName then fs else fs @ [(logFileName, [])])\<rparr> in
      (case open1 of
         None \<Rightarrow> Inr w
       | Some e \<Rightarrow>
           if DefaultLogDir c then
             (case mkdir of
                Some e \<Rightarrow> Inl e
              | None \<Rightarrow> (case open2 of Some e \<Rightarrow> Inl e | None \<Rightarrow> Inr w))
           else Inl e))"

datatype zerolog_level =
  TraceLevel | DebugLevel | InfoLevel | WarnLevel | ErrorLevel | FatalLevel | PanicLevel

definition log_level :: "zerolog_level gomap" where
  "log_level =
     [(''INFO'', InfoLevel), (''PANIC'', PanicLevel), (''FATAL'', FatalLevel),
      (''ERROR'', ErrorLevel), (''DEBUG'', DebugLevel), (''TRACE'', TraceLevel)]"

text \<open>\<open>LogWithErrors\<close>: the line it writes and the error it returns.\<close>

definition LogWithErrors :: "string \<Rightarrow> string \<Rightarrow> (zerolog_level \<times> string) \<times> go_error option" where
  "LogWithErrors level msg =
     (case map_of log_level level of
        Some lvl \<Rightarrow> ((lvl, msg), None)
      | None \<Rightarrow> ((ErrorLevel, ''Log level '' @ level @ '' not found.''),
          Some (Foreign ''log level not found'')))"

text \<open>The colour of a level on the console.\<close>

definition level_color :: "string \<Rightarrow> string option" where
  "level_color x =
     map_of [(''info'', ''green''), (''panic'', ''red''), (''fatal'', ''red''), (''error'', ''red''),
       (''warn'', ''yellow''), (''debug'', ''yellow''), (''trace'', ''magenta'')] x"

section \<open>The names of the log files\<close>

definition log_name :: "nat \<Rightarrow> string" where
  "log_name k = (if k = 0 then logFileName else logFileRoot @ Itoa k @ ''.log'')"

lemma number_in_log_name: "number_in (log_name (Suc k)) = Some (Itoa (Suc k))"
proof -
  have "\<not> is_digit CHR ''.''" by (simp add: is_digit_def)
  then have "takeWhile is_digit (Itoa (Suc k) @ ''.log'') = Itoa (Suc k)"
    using takeWhile_digits [of is_digit "Itoa (Suc k)" "CHR ''.''" "''log''"] Itoa_digits by simp
  then show ?thesis using Itoa_digits [of "Suc k"] by (simp add: log_name_def logFileRoot_def)
qed

lemma file_number_log_name: "k < 2 ^ 63 \<Longrightarrow> file_number (log_name k) = Inr k"
proof (cases k)
  case 0
  have "number_in ''logfile.log'' = None" by (simp add: logFileRoot_def is_digit_def)
  with 0 show ?thesis by (simp add: file_number_def log_name_def logFileName_def)
next
  case (Suc j)
  assume "k < 2 ^ 63"
  with Suc show ?thesis by (simp add: file_number_def number_in_log_name ParseInt_Itoa)
qed

lemma sint_pred: "0 \<le> sint (m :: 64 word) \<Longrightarrow> sint (m - 1) = sint m - 1"
proof -
  assume "0 \<le> sint m"
  moreover have "sint m < 2 ^ 63" using sint_lt [of m] by simp
  moreover have "sint (m - 1) = signed_take_bit 63 (sint m - 1)"
    by (simp add: sint_word_ariths)
  ultimately show ?thesis by (simp add: signed_take_bit_int_eq_self)
qed

lemma next_name_log_name:
  "0 \<le> sint m \<Longrightarrow> next_name m k = log_name (if sint m - 1 \<le> int k then 0 else Suc k)"
  by (simp add: next_name_def sint_pred log_name_def logFileName_def logFileRoot_def logFileExt_def)

section \<open>Rotation\<close>

text \<open>The names rotation uses, and the state between two writes.\<close>

definition log_names :: "file_writer \<Rightarrow> string set" where
  "log_names w = {log_name k | k. k = 0 \<or> int k < sint (maxFiles w)}"

definition log_ok :: "file_writer \<Rightarrow> bool" where
  "log_ok w \<longleftrightarrow> file_open w \<and> 0 \<le> sint (maxFiles w) \<and> current_file w \<in> log_names w \<and>
     has_key (log_dir w) (current_file w) \<and> (\<forall>f. has_key (log_dir w) f \<longrightarrow> f \<in> log_names w)"

lemma log_names_number:
  assumes "f \<in> log_names w"
  obtains k where "f = log_name k" "file_number f = Inr k" "k = 0 \<or> int k < sint (maxFiles w)"
proof -
  from assms obtain k where k: "f = log_name k" "k = 0 \<or> int k < sint (maxFiles w)"
    unfolding log_names_def by blast
  moreover have "sint (maxFiles w) < 2 ^ 63" using sint_lt [of "maxFiles w"] by simp
  ultimately have "k < 2 ^ 63" by auto
  with that k file_number_log_name show ?thesis by blast
qed

lemma contents_append: "contents (append_to p w) f =
    (if f = current_file w then contents w f @ p else contents w f)"
  by (simp add: contents_def append_to_def update_conv')

lemma rotate_no_errors:
  "rotate_log no_errors k w = (None, w\<lparr>file_open := True, current_file := next_name (maxFiles w) k,
     log_dir := AList.update (next_name (maxFiles w) k) []
       (AList.delete (next_name (maxFiles w) k) (log_dir w))\<rparr>)"
  by (simp add: rotate_log_def no_errors_def Let_def)


text \<open>A rotation that fails leaves a closed file: every later write fails as well.\<close>

lemma failed_rotation_ends_logging:
  assumes "Write os p w = ((0, Some e), w')" and "ans_stat os = None" and "file_open w"
    and "file_number (current_file w) = Inr k"
  shows "Write os' p' w' = ((0, Some closed_file), w')"
proof -
  from assms have "\<exists>e. rotate_log os k w = (Some e, w')"
    by (auto simp: Write_def Let_def split: if_splits prod.splits option.splits)
  then show ?thesis
    by (auto simp: rotate_log_def Let_def Write_def split: if_splits option.splits)
qed

section \<open>Witness\<close>

definition demo_log :: file_writer where
  "demo_log = \<lparr>current_file = ''logfile1.log'', file_open = True, maxFileSize = 5, maxFiles = 2,
     log_dir = [(''logfile.log'', ''old''), (''logfile1.log'', ''abc'')]\<rparr>"


end
