(* ===== verification/PluginLog.thy ===== *)
theory PluginLog
  imports GoNumbers
begin

text \<open>
  File \<^verbatim>\<open>plugins/log.go\<close>: the adapter that lets the plugin framework, which logs through the
  \<^verbatim>\<open>hclog.Logger\<close> interface, write to the daemon's \<^verbatim>\<open>zerolog\<close>. A value of type
  \<^verbatim>\<open>interface{}\<close> is a \<open>value\<close>; a variadic argument list is a list of values, and a list
  passed without the three dots is one value, \<open>VList\<close>. Every operation returns the log entries
  it writes. The zero value of a \<^verbatim>\<open>zerolog.Logger\<close> has no writer and writes nothing.
\<close>

datatype "value" = VNil | VStr string | VInt nat | VList "value list"

fun format_value :: "value \<Rightarrow> string" where
  "format_value VNil = ''<nil>''"
| "format_value (VStr s) = s"
| "format_value (VInt n) = Itoa n"
| "format_value (VList vs) = ''['' @ join CHR '' '' (map format_value vs) @ '']''"

datatype hclog_level = NoLevel | Trace | Debug | Info | Warn | Error | Off | OtherLevel nat

datatype zl_level = ZTrace | ZDebug | ZInfo | ZWarn | ZError

record zlogger =
  has_writer :: bool
  zl_fields :: "(string \<times> string) list"

record entry =
  e_level :: zl_level
  e_fields :: "(string \<times> string) list"
  e_msg :: string

definition emit :: "zlogger \<Rightarrow> zl_level \<Rightarrow> string \<Rightarrow> entry list" where
  "emit zl lvl msg =
     (if has_writer zl then [\<lparr>e_level = lvl, e_fields = zl_fields zl, e_msg = msg\<rparr>] else [])"

record plugin_logger =
  zl :: zlogger
  implied :: "value list"
  logger_name :: string

definition MissingKey :: "value" where
  "MissingKey = VStr ''EXTRA_VALUE_AT_END''"

definition NewPluginLogger :: "string \<Rightarrow> zlogger \<Rightarrow> plugin_logger" where
  "NewPluginLogger name logger = \<lparr>zl = logger, implied = [], logger_name = name\<rparr>"

text \<open>The loop over the pairs of arguments; the list has even length when it is called.\<close>

fun pairs_text :: "value list \<Rightarrow> string" where
  "pairs_text (k # v # args) = format_value k @ ''='' @ format_value v @ '' '' @ pairs_text args"
| "pairs_text _ = []"

definition message :: "string \<Rightarrow> value list \<Rightarrow> string" where
  "message msg args =
     (if args = [] then msg
      else let args = (if odd (length args) then args @ [MissingKey] else args)
           in msg @ '': '' @ pairs_text args)"

definition LTrace :: "plugin_logger \<Rightarrow> string \<Rightarrow> value list \<Rightarrow> entry list" where
  "LTrace l msg args = emit (zl l) ZTrace (message msg args)"

definition LDebug :: "plugin_logger \<Rightarrow> string \<Rightarrow> value list \<Rightarrow> entry list" where
  "LDebug l msg args = emit (zl l) ZDebug (message msg args)"

definition LInfo :: "plugin_logger \<Rightarrow> string \<Rightarrow> value list \<Rightarrow> entry list" where
  "LInfo l msg args = emit (zl l) ZInfo (message msg args)"

definition LWarn :: "plugin_logger \<Rightarrow> string \<Rightarrow> value list \<Rightarrow> entry list" where
  "LWarn l msg args = emit (zl l) ZWarn (message msg args)"

definition LError :: "plugin_logger \<Rightarrow> string \<Rightarrow> value list \<Rightarrow> entry list" where
  "LError l msg args = emit (zl l) ZError (message msg args)"

text \<open>\<open>Log\<close> passes its argument list on as a single argument.\<close>

definition Log :: "plugin_logger \<Rightarrow> hclog_level \<Rightarrow> string \<Rightarrow> value list \<Rightarrow> entry list" where
  "Log l level msg args =
     (case level of
        NoLevel \<Rightarrow> LInfo l msg [VList args]
      | Trace \<Rightarrow> LTrace l msg [VList args]
      | Debug \<Rightarrow> LDebug l msg [VList args]
      | Info \<Rightarrow> LInfo l msg [VList args]
      | Warn \<Rightarrow> LWarn l msg [VList args]
      | Error \<Rightarrow> LError l msg [VList args]
      | Off \<Rightarrow> []
      | OtherLevel n \<Rightarrow> emit (zl l) ZDebug (''Unrecognized log level: '' @ Itoa n))"

definition IsTrace :: "plugin_logger \<Rightarrow> bool" where "IsTrace l = False"
definition IsDebug :: "plugin_logger \<Rightarrow> bool" where "IsDebug l = False"
definition IsInfo :: "plugin_logger \<Rightarrow> bool" where "IsInfo l = False"
definition IsWarn :: "plugin_logger \<Rightarrow> bool" where "IsWarn l = False"
definition IsError :: "plugin_logger \<Rightarrow> bool" where "IsError l = False"

definition ImpliedArgs :: "plugin_logger \<Rightarrow> value list" where
  "ImpliedArgs l = implied l"

text \<open>The fields of a list of pairs: a key that is no string and a key without a value panic.\<close>

fun pair_fields :: "value list \<Rightarrow> (string \<times> string) list outcome" where
  "pair_fields [] = Returns []"
| "pair_fields (VStr k # v # args) =
     and_then (pair_fields args) (\<lambda>fs. Returns ((k, format_value v) # fs))"
| "pair_fields _ = Panics"

text \<open>\<open>sl\<close> is the zero logger until the first implied pair is copied from the parent.\<close>

definition With :: "value list \<Rightarrow> plugin_logger \<Rightarrow> plugin_logger outcome" where
  "With args l =
     (let extra = (if odd (length args) then last args else VNil);
          args = (if odd (length args) then butlast args else args) in
      and_then (pair_fields (implied l)) (\<lambda>implied_fields.
      and_then (pair_fields args) (\<lambda>new_fields.
      let sl = (if implied l = [] then \<lparr>has_writer = False, zl_fields = []\<rparr>
                else (zl l)\<lparr>zl_fields := zl_fields (zl l) @ implied_fields\<rparr>);
          newImplied = implied l @ [VList args] @ (if extra \<noteq> VNil then [MissingKey, extra] else [])
      in Returns \<lparr>zl = sl\<lparr>zl_fields := zl_fields sl @ new_fields\<rparr>, implied = newImplied,
           logger_name = logger_name l\<rparr>)))"

definition LoggerName :: "plugin_logger \<Rightarrow> string" where
  "LoggerName l = logger_name l"

definition Named :: "string \<Rightarrow> plugin_logger \<Rightarrow> plugin_logger" where
  "Named name l = l\<lparr>logger_name := logger_name l @ ''.'' @ name\<rparr>"

definition ResetNamed :: "string \<Rightarrow> plugin_logger \<Rightarrow> plugin_logger" where
  "ResetNamed name l = l\<lparr>logger_name := name\<rparr>"

definition SetLevel :: "hclog_level \<Rightarrow> plugin_logger \<Rightarrow> plugin_logger" where
  "SetLevel level l = l"

section \<open>The writer for standard loggers\<close>

record logger_options =
  InferLevels :: bool
  InferLevelsWithTimestamp :: bool
  ForceLevel :: hclog_level

record log_writer =
  w_log :: zlogger
  inferLevels :: bool
  inferLevelsWithTimestamp :: bool
  forceLevel :: hclog_level

definition StandardWriter :: "logger_options \<Rightarrow> plugin_logger \<Rightarrow> log_writer" where
  "StandardWriter opts l =
     \<lparr>w_log = zl l, inferLevels = InferLevels opts,
      inferLevelsWithTimestamp = InferLevelsWithTimestamp opts, forceLevel = ForceLevel opts\<rparr>"

definition StandardLogger :: "logger_options option \<Rightarrow> plugin_logger \<Rightarrow> log_writer" where
  "StandardLogger opts l =
     StandardWriter (case opts of Some opts \<Rightarrow> opts
       | None \<Rightarrow> \<lparr>InferLevels = False, InferLevelsWithTimestamp = False, ForceLevel = NoLevel\<rparr>) l"

definition is_space :: "char \<Rightarrow> bool" where
  "is_space c \<longleftrightarrow> c \<in> {CHR 0x09, CHR 0x0A, CHR 0x0B, CHR 0x0C, CHR 0x0D, CHR '' ''}"

definition TrimRight :: "(char \<Rightarrow> bool) \<Rightarrow> string \<Rightarrow> string" where
  "TrimRight P s = rev (dropWhile P (rev s))"

definition TrimSpace :: "string \<Rightarrow> string" where
  "TrimSpace s = TrimRight is_space (dropWhile is_space s)"

definition dispatch :: "log_writer \<Rightarrow> string \<Rightarrow> hclog_level \<Rightarrow> entry list" where
  "dispatch w str level =
     (case level of
        Trace \<Rightarrow> emit (w_log w) ZTrace str
      | Debug \<Rightarrow> emit (w_log w) ZDebug str
      | Info \<Rightarrow> emit (w_log w) ZInfo str
      | Warn \<Rightarrow> emit (w_log w) ZWarn str
      | Error \<Rightarrow> emit (w_log w) ZError str
      | _ \<Rightarrow> emit (w_log w) ZInfo str)"

definition pickLevel :: "string \<Rightarrow> hclog_level \<times> string" where
  "pickLevel str =
     (if prefix ''[DEBUG]'' str then (Debug, TrimSpace (drop 7 str))
      else if prefix ''[TRACE]'' str then (Trace, TrimSpace (drop 7 str))
      else if prefix ''[INFO]'' str then (Info, TrimSpace (drop 6 str))
      else if prefix ''[WARN]'' str then (Warn, TrimSpace (drop 6 str))
      else if prefix ''[ERROR]'' str then (Error, TrimSpace (drop 7 str))
      else if prefix ''[ERR]'' str then (Error, TrimSpace (drop 5 str))
      else if prefix ''[FATAL]'' str then (Error, TrimSpace (drop 7 str))
      else if prefix ''[PANIC]'' str then (Error, TrimSpace (drop 7 str))
      else (Info, str))"

text \<open>The class of \<^verbatim>\<open>logTimestampRegexp\<close>: digits, space, and the range from \<^verbatim>\<open>+\<close> to \<^verbatim>\<open>T\<close>, which the
  hyphen between the two makes of them, and \<^verbatim>\<open>Z\<close>. Its \<^verbatim>\<open>\s\<close> has no vertical tab.\<close>

definition timestamp_char :: "char \<Rightarrow> bool" where
  "timestamp_char c \<longleftrightarrow> is_digit c \<or> (is_space c \<and> c \<noteq> CHR 0x0B) \<or> c \<in> {CHR '':'', CHR ''/'', CHR ''.''} \<or>
     (of_char CHR ''+'' \<le> (of_char c :: nat) \<and> of_char c \<le> (of_char CHR ''T'' :: nat)) \<or> c = CHR ''Z''"

definition trimTimestamp :: "string \<Rightarrow> string" where
  "trimTimestamp str = dropWhile timestamp_char str"

definition Write :: "log_writer \<Rightarrow> string \<Rightarrow> nat \<times> entry list" where
  "Write w data =
     (let str = TrimRight (\<lambda>c. c = CHR 0x0A) data in
      (length data,
       (if forceLevel w \<noteq> NoLevel then dispatch w (snd (pickLevel str)) (forceLevel w)
        else if inferLevels w then
          (let str = (if inferLevelsWithTimestamp w then trimTimestamp str else str);
               (lvl, str) = pickLevel str
           in dispatch w str lvl)
        else emit (w_log w) ZInfo str)))"

section \<open>Lemmas\<close>

lemma pair_fields_not_Blocks: "pair_fields vs \<noteq> Blocks"
  by (induction vs rule: pair_fields.induct) (auto simp: outcome_simps)

text \<open>A parent without implied arguments is what \<open>NewPluginLogger\<close>, \<open>Named\<close> and \<open>ResetNamed\<close> make.\<close>

lemma With_first:
  assumes "implied l = []" and "With args l = Returns l'"
  shows "\<not> has_writer (zl l') \<and> (\<exists>vs rest. implied l' = VList vs # rest)"
  using assms by (auto simp: With_def Let_def outcome_simps)

lemma silent_logger:
  assumes "\<not> has_writer (zl l)"
  shows "Log l level msg args = []" "LTrace l msg args = []" "LDebug l msg args = []"
    "LInfo l msg args = []" "LWarn l msg args = []" "LError l msg args = []"
  using assms
  by (simp_all add: Log_def LTrace_def LDebug_def LInfo_def LWarn_def LError_def emit_def
      split: hclog_level.split)

text \<open>
  A sub-logger made by \<open>With\<close> is useless: the first one, made from a logger without implied
  arguments, writes nothing at all, because it is built on the zero logger instead of its parent;
  and a second \<open>With\<close>, on that sub-logger or on one named after it, panics, because the first
  stored its arguments as one nested list where pairs of a string and a value are expected.
\<close>

theorem With_loses_the_log:
  assumes "implied l = []" and "With args l = Returns l'"
  shows "Log l' level msg args' = [] \<and> LError l' msg args' = [] \<and> LInfo l' msg args' = [] \<and>
    snd (Write (StandardLogger opts l') data) = [] \<and>
    With args'' l' = Panics \<and> With args'' (Named name l') = Panics"
proof -
  from With_first [OF assms] obtain vs rest where
    l': "\<not> has_writer (zl l')" "implied l' = VList vs # rest" by blast
  then have "pair_fields (implied l') = Panics" by simp
  then have "With args'' l' = Panics" "With args'' (Named name l') = Panics"
    by (simp_all add: With_def Named_def Let_def)
  moreover have "w_log (StandardLogger opts l') = zl l'"
    by (simp add: StandardLogger_def StandardWriter_def)
  ultimately show ?thesis using silent_logger [OF l'(1)] l'(1)
    by (auto simp: Write_def Let_def emit_def dispatch_def split: hclog_level.split prod.split)
qed

text \<open>\<open>Log\<close> always reports a value too many, even without arguments.\<close>

lemma Log_without_arguments:
  "Log l Info msg [] = emit (zl l) ZInfo (msg @ '': []=EXTRA_VALUE_AT_END '')"
  by (simp add: Log_def LInfo_def message_def MissingKey_def)

lemma pickLevel_bracket:
  "TrimSpace s = s \<Longrightarrow> pickLevel (''[DEBUG]'' @ s) = (Debug, s) \<and> pickLevel (''[ERR]'' @ s) = (Error, s) \<and>
     pickLevel (''[WARN]'' @ s) = (Warn, s) \<and> pickLevel (''[FATAL]'' @ s) = (Error, s)"
  by (simp add: pickLevel_def)

text \<open>The trimming of a time stamp takes capital letters with it.\<close>

lemma trimTimestamp_eats_words: "trimTimestamp ''12:30 DISK FAILED on sda'' = ''on sda''"
  by code_simp

theorem With_loses_the_log_witness:
  "\<exists>l'. With [VStr ''plugin'', VStr ''rsync'']
       (NewPluginLogger ''rsync'' \<lparr>has_writer = True, zl_fields = []\<rparr>) = Returns l' \<and>
     Log l' Error ''disk full'' [] = [] \<and> With [] l' = Panics"
proof -
  have "\<exists>l'. With [VStr ''plugin'', VStr ''rsync'']
      (NewPluginLogger ''rsync'' \<lparr>has_writer = True, zl_fields = []\<rparr>) = Returns l'"
    by (simp add: With_def NewPluginLogger_def)
  moreover have "implied (NewPluginLogger ''rsync'' \<lparr>has_writer = True, zl_fields = []\<rparr>) = []"
    by (simp add: NewPluginLogger_def)
  ultimately show ?thesis using With_loses_the_log by metis
qed

end
