(* ===== verification/FileNames.thy ===== *)
theory FileNames
  imports GoNumbers GoErrors
begin

text \<open>
  The rest of \<^verbatim>\<open>utils/general.go\<close>: \<open>FileExists\<close>, \<open>UniqueFileName\<close> and the helpers on the text
  of numbers. What \<^verbatim>\<open>os.Stat\<close> answers for a path is a parameter. The loop of \<open>UniqueFileName\<close>
  ends only when it finds a free name, so it is a partial function: \<open>None\<close> is a loop that never
  ends.
\<close>

datatype stat_result = Found | NotExist | StatError

text \<open>Every error that is not the absence of the file counts as existence.\<close>

definition FileExists :: "(string \<Rightarrow> stat_result) \<Rightarrow> string \<Rightarrow> bool" where
  "FileExists stat name = (stat name \<noteq> NotExist)"

text \<open>\<^verbatim>\<open>filepath.Ext\<close>: the last path element from its last dot on.\<close>

definition Ext :: "string \<Rightarrow> string" where
  "Ext path =
     (let r = takeWhile (\<lambda>c. c \<noteq> CHR ''/'') (rev path) in
      if CHR ''.'' \<in> set r then CHR ''.'' # rev (takeWhile (\<lambda>c. c \<noteq> CHR ''.'') r) else [])"

definition numbered :: "nat \<Rightarrow> string" where
  "numbered counter = '' ('' @ Itoa counter @ '')''"

text \<open>The body of the loop: the old number, taken to have one digit up to ten and two from then on,
  is cut off and the new one put in its place.\<close>

definition next_path :: "nat \<Rightarrow> string \<Rightarrow> string" where
  "next_path counter path =
     (let ext = Ext path; n = length path - length ext in
      if 1 < counter \<and> counter < 11 then take (n - 4) path @ numbered counter @ ext
      else if 11 \<le> counter then take (n - 5) path @ numbered counter @ ext
      else take n path @ numbered counter @ ext)"

partial_function (option) unique_loop :: "(string \<Rightarrow> stat_result) \<Rightarrow> nat \<Rightarrow> string \<Rightarrow> string option" where
  "unique_loop stat counter path =
     (if FileExists stat path then unique_loop stat (counter + 1) (next_path counter path)
      else Some path)"

definition UniqueFileName :: "(string \<Rightarrow> stat_result) \<Rightarrow> string \<Rightarrow> string option" where
  "UniqueFileName stat path = unique_loop stat 1 path"

text \<open>\<open>rand\<close> is the sequence of numbers the generator delivers.\<close>

definition letters :: string where
  "letters = ''abcdefghijklmnopqrstuvwxyzABCDEFGHIJKLMNOPQRSTUVWXYZ''"

definition RandSeq :: "(nat \<Rightarrow> nat) \<Rightarrow> nat \<Rightarrow> string" where
  "RandSeq rand n = map (\<lambda>i. letters ! (rand i mod length letters)) [0..<n]"

text \<open>The loop of \<open>NormalizeToNDecimalPlace\<close> on the digits of the number, printed with \<^verbatim>\<open>%f\<close>
  and stripped of point and sign: leading zeros are counted and removed. The first digit of no
  digits at all does not exist.\<close>

fun strip_zeros :: "string \<Rightarrow> nat \<Rightarrow> (string \<times> nat) outcome" where
  "strip_zeros [] i = Panics"
| "strip_zeros (c # cs) i = (if c = CHR ''0'' then strip_zeros cs (i + 1) else Returns (c # cs, i))"

definition normalized_digits :: "string \<Rightarrow> (string \<times> nat) outcome" where
  "normalized_digits s =
     and_then (strip_zeros (filter (\<lambda>c. c \<noteq> CHR ''.'' \<and> c \<noteq> CHR ''-'') s) 0) (\<lambda>(d, i).
       Returns (take 1 d @ ''.'' @ drop 1 d, i))"

text \<open>The arithmetic of \<^verbatim>\<open>float64\<close>, its printing with \<^verbatim>\<open>%f\<close> and its parsing are parameters.\<close>

record 'f float_math =
  at_least_one :: "'f \<Rightarrow> bool"
  print_f :: "'f \<Rightarrow> string"
  parse_f :: "string \<Rightarrow> go_error + 'f"
  times_f :: "'f \<Rightarrow> 'f \<Rightarrow> 'f"
  over_f :: "'f \<Rightarrow> 'f \<Rightarrow> 'f"
  pow10 :: "nat \<Rightarrow> 'f"
  Round :: "'f \<Rightarrow> 'f"

definition NormalizeToNDecimalPlace :: "'f float_math \<Rightarrow> 'f \<Rightarrow> (go_error + 'f) outcome" where
  "NormalizeToNDecimalPlace F oldF =
     (if at_least_one F oldF then Returns (Inl (Foreign ''float is larger than or equal to 1''))
      else
        and_then (normalized_digits (print_f F oldF)) (\<lambda>(newS, i).
        case parse_f F newS of
          Inl err \<Rightarrow> Returns (Inl err)
        | Inr newF \<Rightarrow>
            Returns (Inr (over_f F (Round F (times_f F (over_f F oldF newF) (pow10 F i))) (pow10 F i)))))"

text \<open>\<open>NumDecPlaces\<close> of a float printed with as many digits as it needs.\<close>

definition NumDecPlaces :: "string \<Rightarrow> nat" where
  "NumDecPlaces s =
     (let i = length (takeWhile (\<lambda>c. c \<noteq> CHR ''.'') s) in
      if i < length s then length s - i - 1 else 1)"

section \<open>Extensions\<close>

lemma Ext_of_dotted:
  assumes "CHR ''.'' \<notin> set e" and "CHR ''/'' \<notin> set e"
  shows "Ext (p @ CHR ''.'' # e) = CHR ''.'' # e"
proof -
  let ?P = "\<lambda>c. c \<noteq> CHR ''/''" and ?Q = "\<lambda>c. c \<noteq> CHR ''.''"
  have "takeWhile ?P (rev e @ CHR ''.'' # rev p) = rev e @ takeWhile ?P (CHR ''.'' # rev p)"
    by (rule takeWhile_append2) (use assms(2) in auto)
  then have r: "takeWhile ?P (rev (p @ CHR ''.'' # e)) = rev e @ CHR ''.'' # takeWhile ?P (rev p)"
    by simp
  have "takeWhile ?Q (rev e @ CHR ''.'' # takeWhile ?P (rev p)) =
      rev e @ takeWhile ?Q (CHR ''.'' # takeWhile ?P (rev p))"
    by (rule takeWhile_append2) (use assms(1) in auto)
  then show ?thesis unfolding Ext_def Let_def r by simp
qed

lemma Ext_of_plain:
  assumes "CHR ''.'' \<notin> set e" and "CHR ''/'' \<notin> set e" and "Ext p = []"
  shows "Ext (p @ e) = []"
proof -
  let ?P = "\<lambda>c. c \<noteq> CHR ''/''"
  have "takeWhile ?P (rev e @ rev p) = rev e @ takeWhile ?P (rev p)"
    by (rule takeWhile_append2) (use assms(2) in auto)
  then have r: "takeWhile ?P (rev (p @ e)) = rev e @ takeWhile ?P (rev p)" by simp
  from assms(3) have "CHR ''.'' \<notin> set (takeWhile ?P (rev p))"
    by (auto simp: Ext_def Let_def split: if_splits)
  with assms(1) show ?thesis unfolding Ext_def Let_def r by simp
qed

lemma split_at_first:
  assumes "x \<in> set xs"
  obtains u where "xs = takeWhile (\<lambda>c. c \<noteq> x) xs @ x # u"
  using assms
proof (induction xs arbitrary: thesis)
  case (Cons a xs)
  show ?case
  proof (cases "a = x")
    case False
    with Cons.prems obtain u where "xs = takeWhile (\<lambda>c. c \<noteq> x) xs @ x # u"
      using Cons.IH by auto
    with False Cons.prems(1) show ?thesis by simp
  qed (use Cons.prems in simp)
qed simp

lemma Ext_shape:
  "Ext p = [] \<or> (\<exists>e. Ext p = CHR ''.'' # e \<and> CHR ''.'' \<notin> set e \<and> CHR ''/'' \<notin> set e)"
proof -
  let ?r = "takeWhile (\<lambda>c. c \<noteq> CHR ''/'') (rev p)"
  have "CHR ''.'' \<notin> set (takeWhile (\<lambda>c. c \<noteq> CHR ''.'') ?r)"
    "CHR ''/'' \<notin> set (takeWhile (\<lambda>c. c \<noteq> CHR ''.'') ?r)"
    by (auto dest: set_takeWhileD)
  then show ?thesis by (auto simp: Ext_def Let_def)
qed

lemma last_part:
  assumes "x \<in> set r" and "rev p = r @ v"
  shows "\<exists>q. p = q @ x # rev (takeWhile (\<lambda>c. c \<noteq> x) r)"
proof -
  from assms(1) obtain u where u: "r = takeWhile (\<lambda>c. c \<noteq> x) r @ x # u" by (rule split_at_first)
  define t where "t = takeWhile (\<lambda>c. c \<noteq> x) r"
  from assms(2) u have "rev p = (t @ x # u) @ v" unfolding t_def by argo
  then have "rev (rev p) = rev ((t @ x # u) @ v)" by (rule arg_cong)
  then have "p = (rev v @ rev u) @ x # rev t" by simp
  then show ?thesis unfolding t_def by blast
qed

lemma Ext_suffix: "\<exists>q. p = q @ Ext p"
proof (cases "CHR ''.'' \<in> set (takeWhile (\<lambda>c. c \<noteq> CHR ''/'') (rev p))")
  case True
  show ?thesis unfolding Ext_def Let_def if_P [OF True]
    by (rule last_part [OF True takeWhile_dropWhile_id [symmetric]])
next
  case False
  then show ?thesis unfolding Ext_def Let_def by simp
qed

lemma Itoa_plain: "c \<in> set (Itoa n) \<Longrightarrow> is_digit c"
  using Itoa_digits [of n] by (auto simp: list_all_iff)

lemma numbered_plain: "CHR ''.'' \<notin> set (numbered n) \<and> CHR ''/'' \<notin> set (numbered n)"
  using Itoa_plain [of "CHR ''.''" n] Itoa_plain [of "CHR ''/''" n]
  by (auto simp: numbered_def is_digit_def)

definition plain :: "string \<Rightarrow> bool" where
  "plain e \<longleftrightarrow> CHR ''.'' \<notin> set e \<and> CHR ''/'' \<notin> set e"

lemma plain_append [simp]: "plain (a @ b) \<longleftrightarrow> plain a \<and> plain b"
  by (auto simp: plain_def)

lemma plain_take: "plain a \<Longrightarrow> plain (take n a)"
  by (auto simp: plain_def dest: in_set_takeD)

lemma plain_numbered [simp]: "plain (numbered n)"
  using numbered_plain by (simp add: plain_def)

text \<open>Putting something plain before the extension keeps the extension.\<close>

lemma Ext_plain_insert:
  assumes "path = stem @ x" and "x = Ext path" and "plain e"
  shows "Ext (stem @ e @ x) = x"
proof (cases "x = []")
  case True
  with assms show ?thesis by (auto intro: Ext_of_plain simp: plain_def)
next
  case False
  with assms(2) Ext_shape [of path] obtain y where
    "x = CHR ''.'' # y" "CHR ''.'' \<notin> set y" "CHR ''/'' \<notin> set y" by auto
  then show ?thesis using Ext_of_dotted [of y "stem @ e"] by simp
qed

lemma length_numbered: "length (numbered n) = 3 + length (Itoa n)"
  by (simp add: numbered_def)

lemma length_numbered_cases:
  "n < 10 \<Longrightarrow> length (numbered n) = 4"
  "10 \<le> n \<Longrightarrow> n < 100 \<Longrightarrow> length (numbered n) = 5"
  "10 \<le> n \<Longrightarrow> 5 \<le> length (numbered n)"
proof -
  have pos: "0 < length (Itoa m)" for m using Itoa_digits [of m] by simp
  show "length (numbered n) = 4" if "n < 10"
    using that by (simp add: length_numbered Itoa_length)
  show "length (numbered n) = 5" if "10 \<le> n" "n < 100"
    using that by (simp add: length_numbered Itoa_length [of n] Itoa_length [of "n div 10"])
  show "5 \<le> length (numbered n)" if "10 \<le> n"
  proof -
    from that have "length (Itoa n) = Suc (length (Itoa (n div 10)))" by (subst Itoa_length) simp
    with pos [of "n div 10"] show ?thesis unfolding length_numbered by linarith
  qed
qed

section \<open>The names the loop tries\<close>

primrec candidate :: "string \<Rightarrow> nat \<Rightarrow> string" where
  "candidate path 0 = path"
| "candidate path (Suc k) = next_path (Suc k) (candidate path k)"

text \<open>From the first number on, a candidate is the name, the number and the extension; from the
  hundred and first on the rest of an older number may be in between.\<close>

lemma candidate_Suc:
  assumes "path = stem @ x" and "x = Ext path"
  shows "\<exists>junk. candidate path (Suc k) = stem @ junk @ numbered (Suc k) @ x \<and> plain junk \<and>
    (Suc k \<le> 100 \<longrightarrow> junk = [])"
proof (induction k)
  case 0
  have "candidate path (Suc 0) = stem @ [] @ numbered (Suc 0) @ x"
    using assms(1) assms(2) [symmetric] by (simp add: next_path_def Let_def)
  then show ?case by (intro exI [of _ "[]"]) (simp add: plain_def)
next
  case (Suc k)
  then obtain junk where j: "candidate path (Suc k) = stem @ junk @ numbered (Suc k) @ x"
    "plain junk" "Suc k \<le> 100 \<longrightarrow> junk = []" by blast
  let ?c = "candidate path (Suc k)" and ?n = "numbered (Suc k)"
  have ext: "Ext ?c = x"
    using Ext_plain_insert [OF assms, of "junk @ ?n"] j(1,2) by simp
  define cut :: nat where "cut = (if Suc (Suc k) < 11 then 4 else 5)"
  have len: "length ?c - length x - cut = length stem + (length (junk @ ?n) - cut)"
    "cut \<le> length (junk @ ?n)"
    using length_numbered_cases [of "Suc k"] j(1) by (auto simp: cut_def split: if_splits)
  have "candidate path (Suc (Suc k)) = take (length ?c - length x - cut) ?c @
      numbered (Suc (Suc k)) @ x"
    unfolding candidate.simps(2) [of path "Suc k"] next_path_def Let_def ext cut_def by simp
  also have "take (length ?c - length x - cut) ?c =
      stem @ take (length (junk @ ?n) - cut) (junk @ ?n)"
    unfolding len(1) unfolding j(1) using len(2) by simp
  finally have c: "candidate path (Suc (Suc k)) =
      stem @ take (length (junk @ ?n) - cut) (junk @ ?n) @ numbered (Suc (Suc k)) @ x" by simp
  have "plain (take (length (junk @ ?n) - cut) (junk @ ?n))"
    by (rule plain_take) (simp add: j(2))
  moreover have "take (length (junk @ ?n) - cut) (junk @ ?n) = []" if "Suc (Suc k) \<le> 100"
    using that j(3) length_numbered_cases [of "Suc k"] by (auto simp: cut_def)
  ultimately show ?case using c by blast
qed

lemma candidate_distinct:
  assumes "candidate path (Suc j) = candidate path (Suc k)"
  shows "j = k"
proof -
  obtain stem where stem: "path = stem @ Ext path" using Ext_suffix by blast
  from candidate_Suc [OF stem refl, of j] candidate_Suc [OF stem refl, of k] assms
  obtain a b where "a @ numbered (Suc j) @ Ext path = b @ numbered (Suc k) @ Ext path"
    by (metis append.assoc)
  then have "(a @ '' '') @ CHR ''('' # Itoa (Suc j) = (b @ '' '') @ CHR ''('' # Itoa (Suc k)"
    by (simp add: numbered_def)
  then have "rev (Itoa (Suc j)) @ CHR ''('' # rev (a @ '' '') =
      rev (Itoa (Suc k)) @ CHR ''('' # rev (b @ '' '')"
    by (metis rev_append rev.simps(2) append.assoc append_Cons append_Nil)
  moreover have "takeWhile is_digit (rev (Itoa n) @ CHR ''('' # r) = rev (Itoa n)" for n r
    by (rule takeWhile_digits) (use Itoa_digits [of n] in \<open>simp_all add: list_all_iff is_digit_def\<close>)
  ultimately have "rev (Itoa (Suc j)) = rev (Itoa (Suc k))" by metis
  then show ?thesis by simp
qed

section \<open>Termination\<close>

lemma unique_loop_finds:
  assumes "\<forall>j. k \<le> j \<and> j < n \<longrightarrow> stat (candidate path j) \<noteq> NotExist" and "k \<le> n"
    and "stat (candidate path n) = NotExist"
  shows "unique_loop stat (Suc k) (candidate path k) = Some (candidate path n)"
  using assms
proof (induction "n - k" arbitrary: k)
  case 0
  then show ?case by (subst unique_loop.simps) (simp add: FileExists_def)
next
  case (Suc d)
  then have "unique_loop stat (Suc (Suc k)) (candidate path (Suc k)) = Some (candidate path n)"
    by (intro Suc.hyps(1)) auto
  moreover have "stat (candidate path k) \<noteq> NotExist" using Suc by auto
  ultimately show ?case by (subst unique_loop.simps) (simp add: FileExists_def)
qed

lemma unique_loop_result: "unique_loop stat k path = Some q \<Longrightarrow> stat q = NotExist"
  by (erule unique_loop.raw_induct [rotated]) (auto simp: FileExists_def split: if_splits)

text \<open>
  C39. \<open>UniqueFileName\<close> returns, and returns a free name, when only finitely many paths exist or
  cannot be examined: the result is the first free one in the sequence of the path itself and
  its numbered variants, which for the numbers up to a hundred are name, blank, number in
  parentheses, extension. If every path is taken or cannot be examined (a directory without
  search permission is enough) the loop never ends.
\<close>

theorem UniqueFileName_terminates:
  assumes "finite {p. stat p \<noteq> NotExist}" and "path = stem @ Ext path"
  shows "(\<exists>n. UniqueFileName stat path = Some (candidate path n) \<and>
      stat (candidate path n) = NotExist \<and> (\<forall>j<n. stat (candidate path j) \<noteq> NotExist)) \<and>
    candidate path 0 = path \<and>
    (\<forall>k. 1 \<le> k \<and> k \<le> 100 \<longrightarrow> candidate path k = stem @ '' ('' @ Itoa k @ '')'' @ Ext path) \<and>
    (\<forall>stat'. (\<forall>p. stat' p \<noteq> NotExist) \<longrightarrow> UniqueFileName stat' path = None)"
proof -
  have "\<exists>n. stat (candidate path n) = NotExist"
  proof (rule ccontr)
    assume "\<nexists>n. stat (candidate path n) = NotExist"
    then have "range (\<lambda>k. candidate path (Suc k)) \<subseteq> {p. stat p \<noteq> NotExist}"
      by (intro image_subsetI CollectI) (metis (no_types))
    with assms(1) have "finite (range (\<lambda>k. candidate path (Suc k)))" by (rule rev_finite_subset)
    moreover have "inj (\<lambda>k. candidate path (Suc k))" by (rule injI) (rule candidate_distinct)
    ultimately show False using finite_imageD by blast
  qed
  then have "\<exists>n. stat (candidate path n) = NotExist \<and>
      (\<forall>j<n. \<not> stat (candidate path j) = NotExist)"
    by (rule exists_least_iff [THEN iffD1])
  then obtain n where n: "stat (candidate path n) = NotExist"
      "\<forall>j<n. stat (candidate path j) \<noteq> NotExist" by blast
  with unique_loop_finds [of 0 n stat path]
  have "UniqueFileName stat path = Some (candidate path n)" by (simp add: UniqueFileName_def)
  moreover have "candidate path k = stem @ '' ('' @ Itoa k @ '')'' @ Ext path"
    if "1 \<le> k" "k \<le> 100" for k
    using that candidate_Suc [OF assms(2) refl, of "k - 1"] by (auto simp: numbered_def)
  moreover have "UniqueFileName stat' path = None" if "\<forall>p. stat' p \<noteq> NotExist" for stat'
    using that unique_loop_result [of stat' 1 path]
    by (cases "UniqueFileName stat' path") (auto simp: UniqueFileName_def)
  ultimately show ?thesis using n by auto
qed

text \<open>The digits of zero, and of every number that prints as zeros only, make the other helper
  panic.\<close>

lemma zero_has_no_digits: "normalized_digits ''0.000000'' = Panics"
  by (simp add: normalized_digits_def)

text \<open>It panics exactly on the numbers below one whose print has no digit but zeros: zero, and what is less
  than half a millionth.\<close>

lemma strip_zeros_Panics: "strip_zeros s i = Panics \<longleftrightarrow> set s \<subseteq> {CHR ''0''}"
  by (induction s i rule: strip_zeros.induct) auto

lemma Normalize_Panics:
  "NormalizeToNDecimalPlace F x = Panics \<longleftrightarrow>
     \<not> at_least_one F x \<and> set (print_f F x) \<subseteq> {CHR ''0'', CHR ''.'', CHR ''-''}"
proof -
  have "(case e of Inl err \<Rightarrow> Returns (Inl err) | Inr f \<Rightarrow> Returns (Inr (g f))) \<noteq> Panics"
    for e :: "go_error + 'a" and g :: "'a \<Rightarrow> 'a" by (cases e) simp_all
  then have "NormalizeToNDecimalPlace F x = Panics \<longleftrightarrow> \<not> at_least_one F x \<and> normalized_digits (print_f F x) = Panics"
    by (auto simp: NormalizeToNDecimalPlace_def outcome_simps)
  also have "normalized_digits s = Panics \<longleftrightarrow> set s \<subseteq> {CHR ''0'', CHR ''.'', CHR ''-''}" for s
    by (auto simp: normalized_digits_def outcome_simps strip_zeros_Panics)
  finally show ?thesis .
qed

definition demo_stat :: "string \<Rightarrow> stat_result" where
  "demo_stat p = (if p \<in> {''a.txt'', ''a (1).txt''} then Found else NotExist)"

theorem UniqueFileName_terminates_witness:
  "UniqueFileName demo_stat ''a.txt'' = Some ''a (2).txt''"
proof -
  have "{p. demo_stat p \<noteq> NotExist} \<subseteq> {''a.txt'', ''a (1).txt''}"
    by (auto simp: demo_stat_def split: if_splits)
  then have fin: "finite {p. demo_stat p \<noteq> NotExist}" by (rule finite_subset) simp
  have ext: "Ext ''a.txt'' = ''.txt''" by code_simp
  have itoa: "Itoa 1 = ''1''" "Itoa 2 = ''2''" by code_simp+
  have split: "''a.txt'' = ''a'' @ Ext ''a.txt''" by (simp add: ext)
  note all = UniqueFileName_terminates [OF fin split]
  from all obtain n where n: "UniqueFileName demo_stat ''a.txt'' = Some (candidate ''a.txt'' n)"
      "demo_stat (candidate ''a.txt'' n) = NotExist"
      "\<forall>j<n. demo_stat (candidate ''a.txt'' j) \<noteq> NotExist" by blast
  have c: "candidate ''a.txt'' 0 = ''a.txt''" "candidate ''a.txt'' 1 = ''a (1).txt''"
    "candidate ''a.txt'' 2 = ''a (2).txt''"
    using all itoa ext by auto
  have "demo_stat (candidate ''a.txt'' 2) = NotExist" "demo_stat (candidate ''a.txt'' 0) \<noteq> NotExist"
    "demo_stat (candidate ''a.txt'' 1) \<noteq> NotExist" unfolding c by (simp_all add: demo_stat_def)
  with n have "n = 2"
    by (metis One_nat_def less_2_cases linorder_neqE_nat)
  with n(1) c(3) show ?thesis by simp
qed

end
