(* ===== verification/Health.thy ===== *)
theory Health
  imports PluginManager
begin

text \<open>
  File \<^verbatim>\<open>health/service.go\<close>: the registry of services that can be pinged, and the health check
  of one or of all of them. What \<^verbatim>\<open>Ping\<close> of a service answers is a parameter: an answer that wins
  the \<^verbatim>\<open>select\<close>, or none before the context of five seconds is done. The answer of a service that
  is not waited for any more has no receiver: its goroutine stays (\<open>leaked\<close> counts them).
\<close>

datatype health_state = HealthUpdate_UNKNOWN | HealthUpdate_SERVING | HealthUpdate_NOT_SERVING

record health_update =
  hu_Name :: string
  hu_State :: health_state

datatype ping_result = Answered "go_error option" | TimedOut

record 's health_service =
  registeredServices :: "'s gomap"
  leaked :: nat

definition NewHealthService :: "'s health_service" where
  "NewHealthService = \<lparr>registeredServices = [], leaked = 0\<rparr>"

definition RegisterHealthService ::
  "string \<Rightarrow> 's \<Rightarrow> 's health_service \<Rightarrow> go_error option \<times> 's health_service" where
  "RegisterHealthService name s h =
     (if has_key (registeredServices h) name then (Some ErrHealthServiceAlreadyRegistered, h)
      else (None, h\<lparr>registeredServices := AList.update name s (registeredServices h)\<rparr>))"

definition ping_state :: "ping_result \<Rightarrow> health_state" where
  "ping_state r =
     (case r of
        Answered None \<Rightarrow> HealthUpdate_SERVING
      | Answered (Some _) \<Rightarrow> HealthUpdate_NOT_SERVING
      | TimedOut \<Rightarrow> HealthUpdate_UNKNOWN)"

definition ping_leaks :: "ping_result \<Rightarrow> nat" where
  "ping_leaks r = (if r = TimedOut then 1 else 0)"

text \<open>The loop over all services, and the same body for a single one.\<close>

fun check_services ::
  "('s \<Rightarrow> ping_result) \<Rightarrow> 's gomap \<Rightarrow> health_update list \<times> nat" where
  "check_services ping [] = ([], 0)"
| "check_services ping ((name, service) # rest) =
     (case check_services ping rest of (statuses, n) \<Rightarrow>
        (\<lparr>hu_Name = name, hu_State = ping_state (ping service)\<rparr> # statuses,
         ping_leaks (ping service) + n))"

definition Check ::
  "('s \<Rightarrow> ping_result) \<Rightarrow> string \<Rightarrow> 's health_service \<Rightarrow>
     (rpc_error + health_update list) \<times> 's health_service" where
  "Check ping service h =
     (if service = '''' \<or> service = ''all'' then
        (case check_services ping (registeredServices h) of (statuses, n) \<Rightarrow>
           (Inr statuses, h\<lparr>leaked := leaked h + n\<rparr>))
      else
        (case map_of (registeredServices h) service of
           None \<Rightarrow> (Inl (status InvalidArgument ErrUnregisteredHealthService), h)
         | Some s \<Rightarrow>
             (Inr [\<lparr>hu_Name = service, hu_State = ping_state (ping s)\<rparr>],
              h\<lparr>leaked := leaked h + ping_leaks (ping s)\<rparr>)))"

section \<open>Services registered by name\<close>

lemma wf_RegisterHealthService:
  "wf_map (registeredServices h) \<Longrightarrow> RegisterHealthService name s h = (r, h') \<Longrightarrow>
     wf_map (registeredServices h')"
  by (auto simp: RegisterHealthService_def split: if_splits)

lemma ping_state_simps [simp]:
  "ping_state r = HealthUpdate_SERVING \<longleftrightarrow> r = Answered None"
  "ping_state r = HealthUpdate_UNKNOWN \<longleftrightarrow> r = TimedOut"
  by (auto simp: ping_state_def split: ping_result.split option.split)

definition update_of :: "('s \<Rightarrow> ping_result) \<Rightarrow> string \<times> 's \<Rightarrow> health_update" where
  "update_of ping e = \<lparr>hu_Name = fst e, hu_State = ping_state (ping (snd e))\<rparr>"

lemma hu_Name_update_of [simp]: "hu_Name (update_of ping e) = fst e"
  by (simp add: update_of_def)

lemma check_services_map:
  "check_services ping m =
     (map (update_of ping) m, length (filter (\<lambda>e. ping (snd e) = TimedOut) m))"
  by (induction m) (auto simp: ping_leaks_def update_of_def)

lemma updates_of_one:
  assumes "wf_map m" and "map_of m n = Some s"
  shows "filter (\<lambda>u. hu_Name u = n) (map (update_of ping) m) = [update_of ping (n, s)]"
  using assms
proof (induction m)
  case (Cons a m)
  have "filter (\<lambda>u. hu_Name u = n) (map (update_of ping) m) = []" if "n \<notin> fst ` set m"
    using that by (force simp: filter_empty_conv update_of_def)
  with Cons show ?case by (cases a) (auto simp: wf_map_def split: if_splits)
qed simp

text \<open>
  The check of all services is the check of each of them: it reports, for every registered
  service once, exactly what a check of that service alone reports, except for a service named
  \<^verbatim>\<open>all\<close> or with the empty name, which cannot be checked alone. A service is reported as serving
  if and only if its \<^verbatim>\<open>Ping\<close> answered without an error in time, and a name that is not registered
  is refused. Every service that does not answer in time leaves a goroutine behind for ever.
\<close>

theorem check_all_is_each_check:
  assumes "wf_map (registeredServices h)" and "Check ping ''all'' h = (Inr sts, h')"
  shows "distinct (map hu_Name sts) \<and>
    set (map hu_Name sts) = {n. has_key (registeredServices h) n} \<and>
    (\<forall>n. n \<notin> {'''', ''all''} \<longrightarrow>
      fst (Check ping n h) =
        (if has_key (registeredServices h) n then Inr (filter (\<lambda>u. hu_Name u = n) sts)
         else Inl (status InvalidArgument ErrUnregisteredHealthService))) \<and>
    (\<forall>n s. map_of (registeredServices h) n = Some s \<longrightarrow>
      (\<lparr>hu_Name = n, hu_State = HealthUpdate_SERVING\<rparr> \<in> set sts \<longleftrightarrow> ping s = Answered None)) \<and>
    leaked h' = leaked h + length (filter (\<lambda>u. hu_State u = HealthUpdate_UNKNOWN) sts)"
proof -
  let ?m = "registeredServices h"
  from assms(2) have sts: "sts = map (update_of ping) ?m"
    and h': "leaked h' = leaked h + length (filter (\<lambda>e. ping (snd e) = TimedOut) ?m)"
    by (auto simp: Check_def check_services_map)
  have names: "map hu_Name sts = map fst ?m" by (simp add: sts update_of_def)
  have keys: "set (map fst ?m) = {n. has_key ?m n}" by (auto simp: has_key_iff_fst)
  have each: "fst (Check ping n h) =
        (if has_key ?m n then Inr (filter (\<lambda>u. hu_Name u = n) sts)
         else Inl (status InvalidArgument ErrUnregisteredHealthService))"
    if "n \<notin> {'''', ''all''}" for n
    using that updates_of_one [OF assms(1)]
    by (auto simp: Check_def sts has_key_def update_of_def split: option.split)
  have serving: "(\<lparr>hu_Name = n, hu_State = HealthUpdate_SERVING\<rparr> \<in> set sts) =
      (ping s = Answered None)" if "map_of ?m n = Some s" for n s
  proof -
    have "(\<lparr>hu_Name = n, hu_State = HealthUpdate_SERVING\<rparr> \<in> set sts) =
        (\<lparr>hu_Name = n, hu_State = HealthUpdate_SERVING\<rparr> \<in> set (filter (\<lambda>u. hu_Name u = n) sts))"
      by simp
    also have "\<dots> = (ping s = Answered None)"
      unfolding sts updates_of_one [OF assms(1) that]
      by (simp add: update_of_def eq_commute [of HealthUpdate_SERVING])
    finally show ?thesis .
  qed
  have "length (filter (\<lambda>u. hu_State u = HealthUpdate_UNKNOWN) sts) =
      length (filter (\<lambda>e. ping (snd e) = TimedOut) ?m)"
    by (simp add: sts filter_map o_def update_of_def)
  with assms(1) names keys each serving h' show ?thesis by (simp add: wf_map_def)
qed

section \<open>Witness\<close>

definition demo_checker :: "ping_result health_service" where
  "demo_checker = \<lparr>registeredServices = [(''main'', Answered None), (''plugins'', TimedOut)],
     leaked = 0\<rparr>"

theorem check_all_is_each_check_witness:
  "fst (Check id ''main'' demo_checker) =
     Inr [\<lparr>hu_Name = ''main'', hu_State = HealthUpdate_SERVING\<rparr>]"
proof -
  let ?sts = "[\<lparr>hu_Name = ''main'', hu_State = HealthUpdate_SERVING\<rparr>,
    \<lparr>hu_Name = ''plugins'', hu_State = HealthUpdate_UNKNOWN\<rparr>]"
  have "wf_map (registeredServices demo_checker)" by (simp add: wf_map_def demo_checker_def)
  moreover have "Check id ''all'' demo_checker = (Inr ?sts, demo_checker\<lparr>leaked := 1\<rparr>)"
    by (simp add: Check_def demo_checker_def ping_state_def ping_leaks_def)
  ultimately show ?thesis
    using check_all_is_each_check [of demo_checker id ?sts "demo_checker\<lparr>leaked := 1\<rparr>"]
    by (simp add: demo_checker_def has_key_def)
qed

end
