(* ===== verification/Address.thy ===== *)
theory Address
  imports GoNumbers
begin

text \<open>
  File \<^verbatim>\<open>utils/address.go\<close>: the addresses the daemon listens on and dials. \<open>SplitHostPort\<close> and
  \<open>JoinHostPort\<close> are the functions of Go's \<^verbatim>\<open>net\<close> package; resolving names, parsing IP addresses and
  dialling are parameters, and so is the type of a resolved address.
\<close>

record 'a net =
  ResolveTCPAddr :: "string \<Rightarrow> string \<Rightarrow> go_error + 'a"
  ResolveUnixAddr :: "string \<Rightarrow> string \<Rightarrow> go_error + 'a"
  ParsesAsIPv4 :: "string \<Rightarrow> bool option"
  addr_String :: "'a \<Rightarrow> string"
  addr_Network :: "'a \<Rightarrow> string"

section \<open>Hosts and ports\<close>

text \<open>What is before the last colon of a string, and what is after it.\<close>

definition after_colon :: "string \<Rightarrow> string" where
  "after_colon s = rev (takeWhile (\<lambda>c. c \<noteq> CHR '':'') (rev s))"

definition before_colon :: "string \<Rightarrow> string" where
  "before_colon s = take (length s - length (after_colon s) - 1) s"

definition SplitHostPort :: "string \<Rightarrow> string + string \<times> string" where
  "SplitHostPort hp =
     (let port = after_colon hp; i = length (before_colon hp);
          ending = takeWhile (\<lambda>c. c \<noteq> CHR '']'') hp in
      if CHR '':'' \<notin> set hp then Inl ''missing port in address''
      else if hd hp = CHR ''['' then
        (if CHR '']'' \<notin> set hp then Inl ''missing ']' in address''
         else if length ending + 1 = length hp then Inl ''missing port in address''
         else if length ending + 1 = i then
           (if CHR ''['' \<in> set (drop 1 hp) then Inl ''unexpected '[' in address''
            else if CHR '']'' \<in> set (drop (length ending + 1) hp)
            then Inl ''unexpected ']' in address''
            else Inr (drop 1 ending, port))
         else if hp ! (length ending + 1) = CHR '':'' then Inl ''too many colons in address''
         else Inl ''missing port in address'')
      else if CHR '':'' \<in> set (before_colon hp) then Inl ''too many colons in address''
      else if CHR ''['' \<in> set hp then Inl ''unexpected '[' in address''
      else if CHR '']'' \<in> set hp then Inl ''unexpected ']' in address''
      else Inr (before_colon hp, port))"

definition JoinHostPort :: "string \<Rightarrow> string \<Rightarrow> string" where
  "JoinHostPort host port =
     (if CHR '':'' \<in> set host then ''['' @ host @ '']:'' @ port else host @ '':'' @ port)"

text \<open>Whether \<^verbatim>\<open>strconv.Atoi\<close> accepts: digits after at most one sign, within 64 bits.\<close>

definition Atoi_accepts :: "string \<Rightarrow> bool" where
  "Atoi_accepts s =
     (let negative = take 1 s = ''-'';
          d = (if take 1 s = ''-'' \<or> take 1 s = ''+'' then drop 1 s else s) in
      d \<noteq> [] \<and> list_all is_digit d \<and> digits_value d < 2 ^ 63 + (if negative then 1 else 0))"

definition verifyPort :: "string \<Rightarrow> string \<Rightarrow> string" where
  "verifyPort address defaultPort =
     (case SplitHostPort address of
        Inl _ \<Rightarrow>
          if Atoi_accepts address then JoinHostPort ''localhost'' address
          else if prefix ''['' address then address @ '':'' @ defaultPort
          else JoinHostPort address defaultPort
      | Inr (host, port) \<Rightarrow>
          if host = '''' \<and> port = '''' then '':'' @ defaultPort else address)"

section \<open>Parsing and normalising\<close>

definition loopBackAddrs :: "string list" where
  "loopBackAddrs = [''localhost'', ''127.0.0.1'', ''[::1]'']"

definition IsLoopback :: "string \<Rightarrow> bool" where
  "IsLoopback addr \<longleftrightarrow> (\<exists>l \<in> set loopBackAddrs. contains addr l)"

definition isIPv6Host :: "'a net \<Rightarrow> string \<Rightarrow> bool" where
  "isIPv6Host n host = (ParsesAsIPv4 n host = Some False)"

definition IsUnix :: "'a net \<Rightarrow> 'a \<Rightarrow> bool" where
  "IsUnix n addr = prefix ''unix'' (addr_Network n addr)"

text \<open>The text before the first separator and what follows it.\<close>

fun cut :: "string \<Rightarrow> string \<Rightarrow> string \<times> string" where
  "cut sep [] = ([], [])"
| "cut sep (c # cs) =
     (if prefix sep (c # cs) then ([], drop (length sep) (c # cs))
      else (case cut sep cs of (a, b) \<Rightarrow> (c # a, b)))"

definition network_part :: "string \<Rightarrow> string \<times> string" where
  "network_part strAddress =
     (if contains strAddress ''://'' then
        (case cut ''://'' strAddress of (a, b) \<Rightarrow> (a, fst (cut ''://'' b)))
      else if contains strAddress '':'' then
        (case split CHR '':'' strAddress of
           a # rest \<Rightarrow> (a, join CHR '':'' rest)
         | [] \<Rightarrow> ([], []))
      else ([], []))"

text \<open>The host of an address that still does not split, as one in brackets with a colon missing,
  is empty; it goes to the system resolver.\<close>

definition ParseAddressString ::
  "'a net \<Rightarrow> (string \<Rightarrow> string \<Rightarrow> go_error + 'a) \<Rightarrow> string \<Rightarrow> string \<Rightarrow> go_error + 'a" where
  "ParseAddressString n tcpResolver strAddress defaultPort =
     (case network_part strAddress of (parsedNetwork, parsedAddr) \<Rightarrow>
      if parsedNetwork \<in> {''unix'', ''unixpacket''} then ResolveUnixAddr n parsedNetwork parsedAddr
      else if parsedNetwork \<in> {''tcp'', ''tcp4'', ''tcp6''}
      then tcpResolver parsedNetwork (verifyPort parsedAddr defaultPort)
      else if parsedNetwork \<in> {''ip'', ''ip4'', ''ip6'', ''udp'', ''udp4'', ''udp6'', ''unixgram''}
      then Inl (Foreign ''unsupported address type'')
      else
        (let addrWithPort = verifyPort strAddress defaultPort;
             rawHost = (case SplitHostPort addrWithPort of Inl _ \<Rightarrow> '''' | Inr (h, _) \<Rightarrow> h) in
         if rawHost = '''' \<or> IsLoopback rawHost \<or> isIPv6Host n rawHost
         then ResolveTCPAddr n ''tcp'' addrWithPort
         else
           (case tcpResolver ''tcp'' addrWithPort of
              Inl e \<Rightarrow>
                if contains (error_msg e) ''tor host is unreachable''
                then ResolveTCPAddr n ''tcp'' addrWithPort
                else Inl e
            | Inr addr \<Rightarrow> Inr addr)))"

fun normalize_loop ::
  "'a net \<Rightarrow> (string \<Rightarrow> string \<Rightarrow> go_error + 'a) \<Rightarrow> string \<Rightarrow> string list \<Rightarrow> string set \<Rightarrow> go_error + 'a list" where
  "normalize_loop n tcp defaultPort [] seen = Inr []"
| "normalize_loop n tcp defaultPort (addr # addrs) seen =
     (case ParseAddressString n tcp addr defaultPort of
        Inl e \<Rightarrow> Inl e
      | Inr parsedAddr \<Rightarrow>
          (case normalize_loop n tcp defaultPort addrs (insert (addr_String n parsedAddr) seen) of
             Inl e \<Rightarrow> Inl e
           | Inr result \<Rightarrow>
               Inr (if addr_String n parsedAddr \<in> seen then result else parsedAddr # result)))"

definition NormalizeAddresses ::
  "'a net \<Rightarrow> (string \<Rightarrow> string \<Rightarrow> go_error + 'a) \<Rightarrow> string list \<Rightarrow> string \<Rightarrow> go_error + 'a list" where
  "NormalizeAddresses n tcp addrs defaultPort = normalize_loop n tcp defaultPort addrs {}"

definition ClientAddressDialer ::
  "'a net \<Rightarrow> (string \<Rightarrow> string \<Rightarrow> go_error + 'conn) \<Rightarrow> string \<Rightarrow> string \<Rightarrow> go_error + 'conn" where
  "ClientAddressDialer n dial defaultPort addr =
     (case ParseAddressString n (ResolveTCPAddr n) addr defaultPort of
        Inl e \<Rightarrow> Inl e
      | Inr parsedAddr \<Rightarrow> dial (addr_Network n parsedAddr) (addr_String n parsedAddr))"

section \<open>Splitting what was joined\<close>

definition bracketless :: "string \<Rightarrow> bool" where
  "bracketless s \<longleftrightarrow> CHR ''['' \<notin> set s \<and> CHR '']'' \<notin> set s"

definition plain_port :: "string \<Rightarrow> bool" where
  "plain_port p \<longleftrightarrow> bracketless p \<and> CHR '':'' \<notin> set p"

lemma bracketless_simps [simp]:
  "bracketless []"
  "bracketless (c # s) \<longleftrightarrow> c \<noteq> CHR ''['' \<and> c \<noteq> CHR '']'' \<and> bracketless s"
  "bracketless (s @ t) \<longleftrightarrow> bracketless s \<and> bracketless t"
  by (auto simp: bracketless_def)

lemma last_colon:
  "CHR '':'' \<notin> set q \<Longrightarrow> after_colon (h @ CHR '':'' # q) = q"
  "CHR '':'' \<notin> set q \<Longrightarrow> before_colon (h @ CHR '':'' # q) = h"
  by (simp_all add: after_colon_def before_colon_def takeWhile_append)

lemma colon_split: "CHR '':'' \<in> set s \<Longrightarrow> \<exists>h q. s = h @ CHR '':'' # q \<and> CHR '':'' \<notin> set q"
  by (metis split_list_last)

lemma SplitHostPort_plain:
  "bracketless h \<Longrightarrow> CHR '':'' \<notin> set h \<Longrightarrow> plain_port q \<Longrightarrow>
     SplitHostPort (h @ CHR '':'' # q) = Inr (h, q)"
proof -
  assume "bracketless h" and q: "CHR '':'' \<notin> set h" "plain_port q"
  moreover from this have "hd (h @ CHR '':'' # q) \<noteq> CHR ''[''" by (cases h) auto
  ultimately show ?thesis
    using last_colon [of q h] by (simp add: SplitHostPort_def plain_port_def bracketless_def)
qed

lemma SplitHostPort_brackets:
  assumes "bracketless h" and "plain_port q"
  shows "SplitHostPort (CHR ''['' # h @ CHR '']'' # CHR '':'' # q) = Inr (h, q)"
proof -
  let ?s = "CHR ''['' # h @ CHR '']'' # CHR '':'' # q"
  have "after_colon ?s = q" "before_colon ?s = CHR ''['' # h @ '']''"
    using last_colon [of q "CHR ''['' # h @ '']''"] assms(2) by (simp_all add: plain_port_def)
  moreover have "takeWhile (\<lambda>c. c \<noteq> CHR '']'') ?s = CHR ''['' # h"
    using assms(1) by (simp add: takeWhile_append bracketless_def)
  ultimately show ?thesis
    using assms by (simp add: SplitHostPort_def plain_port_def bracketless_def)
qed

lemma SplitHostPort_join:
  "bracketless h \<Longrightarrow> plain_port q \<Longrightarrow> SplitHostPort (JoinHostPort h q) = Inr (h, q)"
  by (simp add: JoinHostPort_def SplitHostPort_plain SplitHostPort_brackets)

text \<open>How a string without brackets splits.\<close>

lemma SplitHostPort_bracketless:
  assumes "bracketless a"
  shows "SplitHostPort a =
    (if CHR '':'' \<notin> set a then Inl ''missing port in address''
     else if CHR '':'' \<in> set (before_colon a) then Inl ''too many colons in address''
     else Inr (before_colon a, after_colon a))"
  using assms by (cases a) (auto simp: SplitHostPort_def Let_def bracketless_def)

lemma split_bracketless_Inr:
  assumes "bracketless a" and "SplitHostPort a = Inr (h, q)"
  shows "a = h @ CHR '':'' # q"
proof -
  from assms have "CHR '':'' \<in> set a" by (auto simp: SplitHostPort_bracketless split: if_splits)
  then obtain h' q' where "a = h' @ CHR '':'' # q'" "CHR '':'' \<notin> set q'" using colon_split by blast
  with assms show ?thesis by (auto simp: SplitHostPort_bracketless last_colon split: if_splits)
qed

lemma digits_plain: "list_all is_digit d \<Longrightarrow> plain_port d"
  by (auto simp: plain_port_def bracketless_def list_all_iff is_digit_def)

lemma Atoi_plain: "Atoi_accepts s \<Longrightarrow> plain_port s"
proof -
  assume *: "Atoi_accepts s"
  then have "plain_port (if take 1 s = ''-'' \<or> take 1 s = ''+'' then drop 1 s else s)"
    using digits_plain by (auto simp: Atoi_accepts_def Let_def split: if_splits)
  then show ?thesis by (cases s) (auto simp: plain_port_def bracketless_def split: if_splits)
qed

section \<open>Properties\<close>

text \<open>
  An address without brackets always comes out of \<open>verifyPort\<close> complete: it splits into a host
  and a port, and completing it again changes nothing. An address that had a host or a port after
  a colon is unchanged, a lone number is a port of \<^verbatim>\<open>localhost\<close>, and anything else gets the default
  port. An address that opens a bracket and does not close it stays broken.
\<close>

theorem verifyPort_completes:
  assumes "bracketless a" and "plain_port p"
  shows "(\<exists>h q. SplitHostPort (verifyPort a p) = Inr (h, q) \<and>
      (if Atoi_accepts a then (h, q) = (''localhost'', a)
       else if SplitHostPort a \<in> range Inl then (h, q) = (a, p)
       else if a = '':'' then (h, q) = ('''', p)
       else SplitHostPort a = Inr (h, q) \<and> verifyPort a p = a)) \<and>
    verifyPort (verifyPort a p) p = verifyPort a p \<and>
    (\<exists>e. SplitHostPort (verifyPort ''[::1'' p) = Inl e)"
proof -
  have again: "verifyPort x p = x" if "SplitHostPort x = Inr (h, q)" "bracketless x \<or> h \<noteq> ''''"
      "x \<noteq> '':'' \<or> p = ''''" for x h q
    using that split_bracketless_Inr [of x h q] by (auto simp: verifyPort_def)
  have colon: "SplitHostPort '':'' = Inr ('''', '''')" by code_simp
  have "(\<exists>h q. SplitHostPort (verifyPort a p) = Inr (h, q) \<and>
      (if Atoi_accepts a then (h, q) = (''localhost'', a)
       else if SplitHostPort a \<in> range Inl then (h, q) = (a, p)
       else if a = '':'' then (h, q) = ('''', p)
       else SplitHostPort a = Inr (h, q) \<and> verifyPort a p = a)) \<and>
    verifyPort (verifyPort a p) p = verifyPort a p"
  proof (cases "SplitHostPort a")
    case (Inl e)
    show ?thesis
    proof (cases "Atoi_accepts a")
      case True
      with Inl have "verifyPort a p = JoinHostPort ''localhost'' a" by (simp add: verifyPort_def)
      moreover from True have "SplitHostPort (JoinHostPort ''localhost'' a) = Inr (''localhost'', a)"
        by (simp add: SplitHostPort_join Atoi_plain)
      ultimately show ?thesis using True again [of "JoinHostPort ''localhost'' a"]
        by (simp add: JoinHostPort_def)
    next
      case False
      with Inl assms(1) have v: "verifyPort a p = JoinHostPort a p"
        by (cases a) (auto simp: verifyPort_def)
      have s: "SplitHostPort (JoinHostPort a p) = Inr (a, p)" by (simp add: SplitHostPort_join assms)
      have "JoinHostPort a p \<noteq> '':'' \<or> p = ''''" by (cases a) (auto simp: JoinHostPort_def)
      moreover have "bracketless (JoinHostPort a p) \<or> a \<noteq> ''''"
        using assms by (auto simp: JoinHostPort_def plain_port_def)
      ultimately show ?thesis using False Inl v s again [OF s] by simp
    qed
  next
    case (Inr hq)
    then obtain h q where hq: "SplitHostPort a = Inr (h, q)" by (cases hq) auto
    then have a: "a = h @ CHR '':'' # q" by (rule split_bracketless_Inr [OF assms(1)])
    then have no: "\<not> Atoi_accepts a" using Atoi_plain [of a] by (auto simp: plain_port_def)
    show ?thesis
    proof (cases "a = '':''")
      case True
      have "SplitHostPort ([] @ CHR '':'' # p) = Inr ([], p)"
        by (rule SplitHostPort_plain) (simp_all add: assms)
      moreover have "verifyPort a p = CHR '':'' # p" using True colon by (simp add: verifyPort_def)
      ultimately show ?thesis using True no colon again [of "CHR '':'' # p" "[]" p] assms(2)
        by (auto simp: plain_port_def)
    next
      case False
      with a hq have "verifyPort a p = a" by (auto simp: verifyPort_def)
      with no hq False show ?thesis by auto
    qed
  qed
  moreover have "\<exists>e. SplitHostPort (verifyPort ''[::1'' p) = Inl e"
  proof -
    have "verifyPort ''[::1'' p = ''[::1:'' @ p"
      by (simp add: verifyPort_def SplitHostPort_def Atoi_accepts_def is_digit_def)
    moreover have "CHR '']'' \<notin> set (''[::1:'' @ p)" using assms(2)
      by (simp add: plain_port_def bracketless_def)
    ultimately show ?thesis by (simp add: SplitHostPort_def)
  qed
  ultimately show ?thesis by blast
qed

text \<open>Parsing every address, up to the first that fails.\<close>

fun parse_all ::
  "'a net \<Rightarrow> (string \<Rightarrow> string \<Rightarrow> go_error + 'a) \<Rightarrow> string \<Rightarrow> string list \<Rightarrow> go_error + 'a list" where
  "parse_all n tcp p [] = Inr []"
| "parse_all n tcp p (a # as) =
     (case ParseAddressString n tcp a p of
        Inl e \<Rightarrow> Inl e
      | Inr x \<Rightarrow> (case parse_all n tcp p as of Inl e \<Rightarrow> Inl e | Inr xs \<Rightarrow> Inr (x # xs)))"

text \<open>The elements whose key none before them has.\<close>

fun first_of_each :: "('a \<Rightarrow> 'b) \<Rightarrow> 'b set \<Rightarrow> 'a list \<Rightarrow> 'a list" where
  "first_of_each key seen [] = []"
| "first_of_each key seen (x # xs) =
     (if key x \<in> seen then first_of_each key seen xs
      else x # first_of_each key (insert (key x) seen) xs)"

lemma normalize_loop_eq:
  "normalize_loop n tcp p as seen =
     map_sum id (first_of_each (addr_String n) seen) (parse_all n tcp p as)"
  by (induction as arbitrary: seen)
    (auto simp: insert_absorb split: sum.split)

lemma first_of_each_keys:
  "set (map key (first_of_each key seen xs)) = key ` set xs - seen \<and>
   distinct (map key (first_of_each key seen xs))"
proof (induction xs arbitrary: seen)
  case (Cons x xs)
  from Cons.IH [of seen] Cons.IH [of "insert (key x) seen"] show ?case by auto
qed simp

lemma subseq_first_of_each: "subseq (first_of_each key seen xs) xs"
  by (induction xs arbitrary: seen) auto


section \<open>Witness\<close>

theorem verifyPort_completes_witness:
  "SplitHostPort (verifyPort ''8080'' ''7777'') = Inr (''localhost'', ''8080'') \<and>
   verifyPort (verifyPort ''8080'' ''7777'') ''7777'' = verifyPort ''8080'' ''7777''"
proof -
  have "bracketless ''8080''" "plain_port ''7777''" by (simp_all add: plain_port_def)
  note spec = verifyPort_completes [OF this]
  have "Atoi_accepts ''8080''"
    by (simp add: Atoi_accepts_def is_digit_def digits_value_def)
  with spec show ?thesis by (simp only: if_True) blast
qed

end
