(* ===== verification/Cert.thy ===== *)
theory Cert
  imports FileNames
begin

text \<open>
  File \<^verbatim>\<open>cert/tls.go\<close>: the certificate of the daemon, generated when there is none and replaced
  when it has expired. The file system is a map from paths to contents; what the operating
  system, the random source and the \<^verbatim>\<open>crypto\<close> packages answer is a parameter. Times and durations
  are nanoseconds, IP addresses are compared by \<open>=\<close> in their 16-byte form, and \<open>None\<close> is the
  \<^verbatim>\<open>nil\<close> address of a string that does not parse.
\<close>

record ('k, 'ip) template =
  SerialNumber :: int
  Organization :: string
  CommonName :: string
  NotBefore :: int
  NotAfter :: int
  DNSNames :: "string list"
  IPAddresses :: "'ip option list"
  PublicKey :: 'k

record ('k, 'ip, 'cert) crypto =
  ParseIP :: "string \<Rightarrow> 'ip option"
  CreateCertificate :: "('k, 'ip) template \<Rightarrow> go_error + string"
  EncodeCertificate :: "string \<Rightarrow> go_error + string"
  MarshalECPrivateKey :: "'k \<Rightarrow> go_error + string"
  EncodeKey :: "string \<Rightarrow> go_error + string"
  LoadX509KeyPair :: "string \<Rightarrow> string \<Rightarrow> go_error + 'cert"
  ParsedNotAfter :: "'cert \<Rightarrow> go_error + int"
  NewClientTLS :: "string \<Rightarrow> go_error option"

text \<open>What one run of \<open>GenCertPair\<close> is answered; an interface address that does not parse as a
  CIDR is \<open>None\<close>. The operations on files are those on the certificate, then on the key.\<close>

record ('k, 'ip) gen_answers =
  gen_now :: int
  serial :: "go_error + int"
  Hostname :: "go_error + string"
  InterfaceAddrs :: "go_error + 'ip option list"
  GenerateKey :: "go_error + 'k"
  open_cert :: "go_error option"
  write_cert :: "go_error option"
  open_key :: "go_error option"
  write_key :: "go_error option"

definition defaultTLSCertDuration :: int where
  "defaultTLSCertDuration = 14 * 30 * 24 * (60 * 60 * 1000000000)"

text \<open>\<^verbatim>\<open>time.Date(2049, 12, 31, 23, 59, 59, 0, time.UTC)\<close>.\<close>

definition endOfTime :: int where
  "endOfTime = 2524607999 * 1000000000"

definition addIP :: "'ip option list \<Rightarrow> 'ip option \<Rightarrow> 'ip option list" where
  "addIP ipAddresses ipAddr =
     (if ipAddr \<in> set ipAddresses then ipAddresses else ipAddresses @ [ipAddr])"

definition cert_template ::
  "('k, 'ip, 'cert) crypto \<Rightarrow> string \<Rightarrow> int \<Rightarrow> string list \<Rightarrow> int \<Rightarrow> int \<Rightarrow> go_error + string \<Rightarrow>
     'ip option list \<Rightarrow> 'k \<Rightarrow> ('k, 'ip) template" where
  "cert_template c org certValidity extraIPAddr now serialNumber hostname addrs priv =
     (let validUntil = (if endOfTime < now + certValidity then endOfTime else now + certValidity);
          host = (case hostname of Inl _ \<Rightarrow> ''localhost'' | Inr h \<Rightarrow> h);
          dnsNames = [host] @ (if host \<noteq> ''localhost'' then [''localhost''] else []) @
            [''unix'', ''unixpacket'', ''bufnet''];
          ipAddresses = [ParseIP c ''127.0.0.1'', ParseIP c ''::1''] @ map (ParseIP c) extraIPAddr
      in \<lparr>SerialNumber = serialNumber, Organization = org, CommonName = host,
          NotBefore = now - 24 * (60 * 60 * 1000000000), NotAfter = validUntil,
          DNSNames = dnsNames,
          IPAddresses = foldl addIP ipAddresses (filter (\<lambda>a. a \<noteq> None) addrs), PublicKey = priv\<rparr>)"

text \<open>Opening a file creates it, empty, if it is missing; writing replaces what it holds.\<close>

definition write_pem ::
  "go_error option \<Rightarrow> go_error option \<Rightarrow> string \<Rightarrow> string \<Rightarrow> string gomap \<Rightarrow> go_error option \<times> string gomap" where
  "write_pem open_answer write_answer path content fs =
     (case open_answer of
        Some e \<Rightarrow> (Some e, fs)
      | None \<Rightarrow>
          let fs = (if has_key fs path then fs else fs @ [(path, [])]) in
          (case write_answer of
             Some e \<Rightarrow> (Some e, fs)
           | None \<Rightarrow> (None, AList.update path content fs)))"

definition write_pair ::
  "('k, 'ip) gen_answers \<Rightarrow> string \<Rightarrow> string \<Rightarrow> string \<Rightarrow> string \<Rightarrow> string gomap \<Rightarrow>
     go_error option \<times> string gomap" where
  "write_pair g certFile certBuf keyFile keyBuf fs =
     (case write_pem (open_cert g) (write_cert g) certFile certBuf fs of
        (Some e, fs) \<Rightarrow> (Some e, fs)
      | (None, fs) \<Rightarrow> write_pem (open_key g) (write_key g) keyFile keyBuf fs)"

definition wrapped :: "string \<Rightarrow> go_error \<Rightarrow> go_error" where
  "wrapped msg e = Foreign (msg @ '': '' @ error_msg e)"

definition GenCertPair ::
  "('k, 'ip, 'cert) crypto \<Rightarrow> ('k, 'ip) gen_answers \<Rightarrow> string \<Rightarrow> string \<Rightarrow> string \<Rightarrow> int \<Rightarrow> string list \<Rightarrow>
     string gomap \<Rightarrow> go_error option \<times> string gomap" where
  "GenCertPair c g org certFile keyFile certValidity extraIPAddr fs =
     (case serial g of
        Inl e \<Rightarrow> (Some (wrapped ''failed to generate serial number'' e), fs)
      | Inr serialNumber \<Rightarrow>
     (case InterfaceAddrs g of
        Inl e \<Rightarrow> (Some e, fs)
      | Inr addrs \<Rightarrow>
     (case GenerateKey g of
        Inl e \<Rightarrow> (Some e, fs)
      | Inr priv \<Rightarrow>
     (case CreateCertificate c (cert_template c org certValidity extraIPAddr (gen_now g)
         serialNumber (Hostname g) addrs priv) of
        Inl e \<Rightarrow> (Some (wrapped ''failed to create certificate'' e), fs)
      | Inr derBytes \<Rightarrow>
     (case EncodeCertificate c derBytes of
        Inl e \<Rightarrow> (Some (wrapped ''failed to encode certificate'' e), fs)
      | Inr certBuf \<Rightarrow>
     (case MarshalECPrivateKey c priv of
        Inl e \<Rightarrow> (Some (wrapped ''unable to encode private key'' e), fs)
      | Inr keyBytes \<Rightarrow>
     (case EncodeKey c keyBytes of
        Inl e \<Rightarrow> (Some (wrapped ''failed to encode private key'' e), fs)
      | Inr keyBuf \<Rightarrow>
     write_pair g certFile certBuf keyFile keyBuf fs)))))))"

definition LoadCertificate ::
  "('k, 'ip, 'cert) crypto \<Rightarrow> string \<Rightarrow> string \<Rightarrow> string gomap \<Rightarrow> go_error + 'cert \<times> int" where
  "LoadCertificate c certPath keyPath fs =
     (case (map_of fs certPath, map_of fs keyPath) of
        (Some certPEM, Some keyPEM) \<Rightarrow>
          (case LoadX509KeyPair c certPEM keyPEM of
             Inl e \<Rightarrow> Inl e
           | Inr certData \<Rightarrow>
               (case ParsedNotAfter c certData of
                  Inl e \<Rightarrow> Inl e
                | Inr notAfter \<Rightarrow> Inr (certData, notAfter)))
      | _ \<Rightarrow> Inl (Foreign ''no such file or directory''))"

text \<open>\<open>parseNetwork\<close> of an address: \<open>Some v4\<close> for a TCP address, or the network of another.\<close>

definition parseNetwork :: "bool option \<Rightarrow> string \<Rightarrow> string" where
  "parseNetwork tcp network =
     (case tcp of Some True \<Rightarrow> ''tcp4'' | Some False \<Rightarrow> ''tcp6'' | None \<Rightarrow> network)"

text \<open>\<open>GetTLSConfig\<close>: the certificate served, with its expiry, stands for the options, dialling
  options and listener made from it. \<open>g1\<close> and \<open>g2\<close> answer the two places that may generate a
  pair, \<open>rm\<close> the removal of a file, and \<open>now\<close> is the clock of the expiry check.\<close>

definition exists_in :: "string gomap \<Rightarrow> string \<Rightarrow> stat_result" where
  "exists_in fs p = (if has_key fs p then Found else NotExist)"

definition generate ::
  "('k, 'ip, 'cert) crypto \<Rightarrow> string \<Rightarrow> string \<Rightarrow> string list \<Rightarrow> ('k, 'ip) gen_answers \<Rightarrow> string gomap \<Rightarrow>
     go_error option \<times> string gomap" where
  "generate c certPath keyPath extraIPAddr g =
     GenCertPair c g ''laniakea autogenerated cert'' certPath keyPath defaultTLSCertDuration extraIPAddr"

text \<open>An expired pair is removed and generated anew.\<close>

definition renew_pair ::
  "('k, 'ip, 'cert) crypto \<Rightarrow> ('k, 'ip) gen_answers \<Rightarrow> (string \<Rightarrow> go_error option) \<Rightarrow> string \<Rightarrow> string \<Rightarrow>
     string list \<Rightarrow> string gomap \<Rightarrow> (go_error + 'cert \<times> int) \<times> string gomap" where
  "renew_pair c g2 rm certPath keyPath extraIPAddr fs =
     (case rm certPath of
        Some e \<Rightarrow> (Inl e, fs)
      | None \<Rightarrow>
          (case rm keyPath of
             Some e \<Rightarrow> (Inl e, AList.delete certPath fs)
           | None \<Rightarrow>
               (case generate c certPath keyPath extraIPAddr g2
                   (AList.delete keyPath (AList.delete certPath fs)) of
                  (Some e, fs) \<Rightarrow> (Inl e, fs)
                | (None, fs) \<Rightarrow> (LoadCertificate c certPath keyPath fs, fs))))"

definition GetTLSConfig ::
  "('k, 'ip, 'cert) crypto \<Rightarrow> ('k, 'ip) gen_answers \<Rightarrow> ('k, 'ip) gen_answers \<Rightarrow> int \<Rightarrow>
     (string \<Rightarrow> go_error option) \<Rightarrow> string \<Rightarrow> string \<Rightarrow> string list \<Rightarrow> string gomap \<Rightarrow>
     (go_error + 'cert \<times> int) \<times> string gomap" where
  "GetTLSConfig c g1 g2 now rm certPath keyPath extraIPAddr fs =
     (case (if \<not> FileExists (exists_in fs) certPath \<and> \<not> FileExists (exists_in fs) keyPath
            then generate c certPath keyPath extraIPAddr g1 fs else (None, fs)) of
        (Some e, fs) \<Rightarrow> (Inl e, fs)
      | (None, fs) \<Rightarrow>
          (case (case LoadCertificate c certPath keyPath fs of
               Inl e \<Rightarrow> (Inl e, fs)
             | Inr (certData, notAfter) \<Rightarrow>
                 if notAfter < now then renew_pair c g2 rm certPath keyPath extraIPAddr fs
                 else (Inr (certData, notAfter), fs)) of
             (Inl e, fs) \<Rightarrow> (Inl e, fs)
           | (Inr cert, fs) \<Rightarrow>
               (case NewClientTLS c certPath of Some e \<Rightarrow> (Inl e, fs) | None \<Rightarrow> (Inr cert, fs))))"

section \<open>What is in a certificate\<close>

lemma foldl_addIP:
  "set (foldl addIP ips as) = set ips \<union> set as"
  "distinct ips \<Longrightarrow> distinct (foldl addIP ips as)"
  by (induction as arbitrary: ips) (auto simp: addIP_def)

lemma template_names:
  assumes "t = cert_template c org validity extra now n hostname addrs priv"
  shows "NotAfter t = min (now + validity) endOfTime" and "''localhost'' \<in> set (DNSNames t)"
    and "CommonName t \<in> set (DNSNames t)"
    and "set (IPAddresses t) = {ParseIP c ''127.0.0.1'', ParseIP c ''::1''} \<union> ParseIP c ` set extra \<union>
      {a \<in> set addrs. a \<noteq> None}" and "PublicKey t = priv"
  by (auto simp: assms cert_template_def Let_def foldl_addIP)

section \<open>Files\<close>

lemma write_pem_ok:
  assumes "write_pem a b path content fs = (None, fs')"
  shows "map_of fs' = (map_of fs)(path \<mapsto> content)"
proof -
  from assms have "fs' = AList.update path content (if has_key fs path then fs else fs @ [(path, [])])"
    by (auto simp: write_pem_def Let_def split: option.splits if_splits)
  then show ?thesis
    by (auto simp: update_conv' fun_eq_iff map_of_append map_add_def has_key_def split: option.split)
qed

lemma write_pem_others:
  "write_pem a b path content fs = (r, fs') \<Longrightarrow> p \<noteq> path \<Longrightarrow> map_of fs' p = map_of fs p"
  by (auto simp: write_pem_def Let_def map_add_def split: option.splits if_splits)

text \<open>A generated pair that loads has the expiry it was generated with.\<close>

definition crypto_laws :: "('k, 'ip, 'cert) crypto \<Rightarrow> bool" where
  "crypto_laws c \<longleftrightarrow>
     (\<forall>t der certPEM keyDER keyPEM cert na.
        CreateCertificate c t = Inr der \<and> EncodeCertificate c der = Inr certPEM \<and>
        MarshalECPrivateKey c (PublicKey t) = Inr keyDER \<and> EncodeKey c keyDER = Inr keyPEM \<and>
        LoadX509KeyPair c certPEM keyPEM = Inr cert \<and> ParsedNotAfter c cert = Inr na \<longrightarrow>
        na = NotAfter t)"

lemma write_pair_others:
  assumes "p \<noteq> certFile" and "p \<noteq> keyFile"
  shows "map_of (snd (write_pair g certFile certBuf keyFile keyBuf fs)) p = map_of fs p"
proof -
  have "map_of (snd (write_pem a b path content fs)) p = map_of fs p" if "p \<noteq> path"
    for a b path content fs
    using write_pem_others [OF surjective_pairing that] .
  with assms show ?thesis by (auto simp: write_pair_def split: option.split prod.split) (metis snd_conv)+
qed

lemma GenCertPair_others:
  assumes "p \<noteq> certFile" and "p \<noteq> keyFile"
  shows "map_of (snd (GenCertPair c g org certFile keyFile v extra fs)) p = map_of fs p"
  using assms by (simp add: GenCertPair_def write_pair_others split: sum.split)

lemma GenCertPair_loads:
  assumes "crypto_laws c" and "certFile \<noteq> keyFile"
    and "GenCertPair c g org certFile keyFile v extra fs = (None, fs')"
    and "LoadCertificate c certFile keyFile fs' = Inr (cert, na)"
  shows "na = min (gen_now g + v) endOfTime"
proof -
  from assms(3) obtain n addrs priv der certPEM keyDER keyPEM fs1 where
    gen: "CreateCertificate c (cert_template c org v extra (gen_now g) n (Hostname g) addrs priv) = Inr der"
      "EncodeCertificate c der = Inr certPEM" "MarshalECPrivateKey c priv = Inr keyDER"
      "EncodeKey c keyDER = Inr keyPEM"
    and w: "write_pem (open_cert g) (write_cert g) certFile certPEM fs = (None, fs1)"
      "write_pem (open_key g) (write_key g) keyFile keyPEM fs1 = (None, fs')"
    by (auto simp: GenCertPair_def write_pair_def split: sum.splits prod.splits option.splits)
  from write_pem_ok [OF w(1)] write_pem_ok [OF w(2)] assms(2)
  have "map_of fs' certFile = Some certPEM" "map_of fs' keyFile = Some keyPEM" by auto
  with assms(4) have "LoadX509KeyPair c certPEM keyPEM = Inr cert" "ParsedNotAfter c cert = Inr na"
    by (auto simp: LoadCertificate_def split: sum.splits)
  with assms(1) gen template_names(1,5) [OF refl] show ?thesis unfolding crypto_laws_def by metis
qed

lemma generate_others:
  "p \<noteq> certPath \<Longrightarrow> p \<noteq> keyPath \<Longrightarrow> map_of (snd (generate c certPath keyPath ex g fs)) p = map_of fs p"
  unfolding generate_def by (rule GenCertPair_others)

lemma renew_pair_others:
  assumes "p \<noteq> certPath" and "p \<noteq> keyPath"
  shows "map_of (snd (renew_pair c g2 rm certPath keyPath ex fs)) p = map_of fs p"
  using generate_others [OF assms, of c ex g2 "AList.delete keyPath (AList.delete certPath fs)"] assms
  by (auto simp: renew_pair_def split: option.split prod.split)

lemma renew_pair_loads:
  assumes "crypto_laws c" and "certPath \<noteq> keyPath"
    and "renew_pair c g2 rm certPath keyPath ex fs = (Inr (cert, na), fs')"
  shows "LoadCertificate c certPath keyPath fs' = Inr (cert, na) \<and>
    na = min (gen_now g2 + defaultTLSCertDuration) endOfTime"
  using assms(3) GenCertPair_loads [OF assms(1,2)]
  by (auto simp: renew_pair_def generate_def split: option.splits prod.splits)


section \<open>Witness\<close>

definition demo_crypto :: "(int, string, int) crypto" where
  "demo_crypto =
     \<lparr>ParseIP = Some, CreateCertificate = (\<lambda>t. if NotAfter t = 5 then Inr ''five'' else Inr ''other''),
      EncodeCertificate = Inr, MarshalECPrivateKey = (\<lambda>_. Inr ''key''), EncodeKey = Inr,
      LoadX509KeyPair = (\<lambda>c k. if c = ''five'' then Inr 5 else Inl (Foreign ''unknown'')),
      ParsedNotAfter = Inr, NewClientTLS = (\<lambda>_. None)\<rparr>"

definition demo_gen :: "(int, string) gen_answers" where
  "demo_gen =
     \<lparr>gen_now = 0, serial = Inr 1, Hostname = Inr ''host'', InterfaceAddrs = Inr [], GenerateKey = Inr 0,
      open_cert = None, write_cert = None, open_key = None, write_key = None\<rparr>"


end
