(* ===== verification/FramePath.thy ===== *)
theory FramePath
  imports PluginStreams
begin

text \<open>
  The way of a frame through the components: the goroutine of \<^verbatim>\<open>startRecord\<close> or \<^verbatim>\<open>command\<close> pushes what the
  plugin sends to the plugin's queue (\<open>PluginInstance\<close>), the forwarding goroutine copies it to the queue of every
  listener (\<open>QueueManager\<close>), and the streaming handler sends it to its client (\<open>PluginStreams\<close>). The
  three run as steps over one queue manager, in any order and with any lengths received.
\<close>

record frame_path =
  path_manager :: queue_manager
  path_loop :: "goroutine option"
  path_instance :: plugin_instance
  path_produced :: "frame list"
  path_sent :: "frame list"
  path_end :: handler_end

text \<open>The frames a goroutine's event pushes.\<close>

fun produced_by :: "int \<Rightarrow> go_event \<Rightarrow> plugin_instance \<Rightarrow> frame list" where
  "produced_by now (DataFrame (Some f)) i = [f]"
| "produced_by now (DataFrame None) i = [eof_frame now i]"
| "produced_by now _ i = []"

datatype path_move = Plugin_event int go_event | Forwarder_turn nat | Stream_turn stream_event

definition listener_queue :: "string \<Rightarrow> string \<Rightarrow> queue_manager \<Rightarrow> queue option" where
  "listener_queue name lis m = map_of (outgoing m name) lis"

definition put_listener :: "string \<Rightarrow> string \<Rightarrow> queue \<Rightarrow> queue_manager \<Rightarrow> queue_manager" where
  "put_listener name lis q m =
     m\<lparr>outgoingQueues := AList.update name (AList.update lis q (outgoing m name)) (outgoingQueues m)\<rparr>"

text \<open>\<open>None\<close> is a move that cannot be made: the goroutine has ended or does not wait for the event, there is no such
  queue, or the handler has returned.\<close>

fun path_step ::
  "string \<Rightarrow> string \<Rightarrow> (frame \<Rightarrow> go_error option) \<Rightarrow> path_move \<Rightarrow> frame_path \<Rightarrow> frame_path outcome option" where
  "path_step name lis send (Plugin_event now ev) s =
     (case path_loop s of
        None \<Rightarrow> None
      | Some g \<Rightarrow>
          if g \<noteq> RecordLoop \<and> g \<noteq> CommandLoop then None
          else
            (case map_of (incomingQueues (path_manager s)) name of
               None \<Rightarrow> None
             | Some q \<Rightarrow>
                 map_option (\<lambda>r. and_then r (\<lambda>(g', i', q'). Returns
                     (s\<lparr>path_manager := (path_manager s)
                          \<lparr>incomingQueues := AList.update name q' (incomingQueues (path_manager s))\<rparr>,
                        path_loop := g', path_instance := i',
                        path_produced := path_produced s @ produced_by now ev (path_instance s)\<rparr>)))
                   (go_step now ev g (path_instance s) q)))"
| "path_step name lis send (Forwarder_turn n) s =
     Some (and_then (forward name n (path_manager s)) (\<lambda>m. Returns (s\<lparr>path_manager := m\<rparr>)))"
| "path_step name lis send (Stream_turn ev) s =
     (if path_end s \<noteq> None then None
      else
        (case listener_queue name lis (path_manager s) of
           None \<Rightarrow> None
         | Some q \<Rightarrow>
             Some (and_then (stream_turn send ev q) (\<lambda>(e, fs, q'). Returns
               (s\<lparr>path_manager := put_listener name lis q' (path_manager s),
                  path_sent := path_sent s @ fs, path_end := e\<rparr>)))))"

fun path_run ::
  "string \<Rightarrow> string \<Rightarrow> (frame \<Rightarrow> go_error option) \<Rightarrow> path_move list \<Rightarrow> frame_path \<Rightarrow> frame_path outcome option" where
  "path_run name lis send [] s = Some (Returns s)"
| "path_run name lis send (m # ms) s =
     (case path_step name lis send m s of Some (Returns s') \<Rightarrow> path_run name lis send ms s' | r \<Rightarrow> r)"

section \<open>What a queue does to the order\<close>

definition frames_in :: "queue \<Rightarrow> frame list" where
  "frames_in q = concat (map (\<lambda>x. case x of Some f \<Rightarrow> [f] | None \<Rightarrow> []) (q_items q))"

abbreviation the_frames :: "frame option list \<Rightarrow> frame list" where
  "the_frames xs \<equiv> concat (map (\<lambda>x. case x of Some f \<Rightarrow> [f] | None \<Rightarrow> []) xs)"

lemma subseq_the_frames: "subseq xs ys \<Longrightarrow> subseq (the_frames xs) (the_frames ys)"
  by (induction rule: list_emb.induct) (auto split: option.split)

lemma the_frames_replicate [simp]: "the_frames (replicate n None) = []"
  by (induction n) auto

lemma the_frames_Some [simp]: "the_frames (map Some fs) = fs"
  by (induction fs) auto

lemma frames_in_Push:
  assumes "wf_queue q" and "Push v q = Returns q'"
  shows "subseq (frames_in q') (frames_in q @ the_frames [v])"
proof -
  have "subseq (q_items q') (q_items q @ [v])"
    using Push_returns(1) [OF assms] subseq_keep_last by metis
  from subseq_the_frames [OF this] show ?thesis by (simp add: frames_in_def)
qed

lemma frames_in_fed:
  assumes "feeds xs q q'"
  shows "subseq (frames_in q') (frames_in q @ the_frames xs)"
proof -
  have "subseq (q_items q') (q_items q @ xs)" using assms subseq_keep_last by (metis feeds_def)
  from subseq_the_frames [OF this] show ?thesis by (simp add: frames_in_def)
qed

text \<open>Sending takes frames from the front: those sent and those left are in the order they had.\<close>

lemma frames_in_sent:
  "send_frames send n q = Returns (e, fs, q') \<Longrightarrow> wf_queue q \<Longrightarrow>
     subseq (fs @ frames_in q') (frames_in q) \<and> wf_queue q' \<and> q_listeners q' = q_listeners q"
proof (induction n arbitrary: q fs)
  case (Suc n)
  obtain x q1 where pop: "Pop q = (x, q1)" by force
  from Suc.prems(1) pop obtain f where x: "x = Some f" by (cases x) auto
  have q1: "wf_queue q1" "q_listeners q1 = q_listeners q" "frames_in q = f # frames_in q1"
    using wf_Pop [OF Suc.prems(2)] Pop_simps(2) [of q] pop x
    by (auto simp: Pop_def frames_in_def split: list.splits)
  show ?case
  proof (cases "FrameType f = EOF_type \<or> send f \<noteq> None")
    case True
    with Suc.prems(1) pop x have "fs = []" "q' = q1" by (auto split: if_splits)
    with q1 show ?thesis by (simp add: list_emb_Cons)
  next
    case False
    with Suc.prems(1) pop x obtain gs where "send_frames send n q1 = Returns (e, gs, q')" "fs = f # gs"
      by (auto simp: outcome_simps)
    with Suc.IH [OF this(1) q1(1)] q1 show ?thesis by simp
  qed
qed simp


section \<open>The path\<close>

definition path_ok :: "string \<Rightarrow> string \<Rightarrow> frame_path \<Rightarrow> bool" where
  "path_ok name lis s \<longleftrightarrow>
     (\<exists>q l. map_of (incomingQueues (path_manager s)) name = Some q \<and> wf_queue q \<and>
        ready (outgoing (path_manager s) name) \<and> map_of (outgoing (path_manager s) name) lis = Some l \<and>
        subseq (path_sent s @ frames_in l @ frames_in q) (path_produced s))"

lemma all_fed_listener:
  "all_fed fs qs qs' \<Longrightarrow> map_of qs lis = Some l \<Longrightarrow> \<exists>l'. map_of qs' lis = Some l' \<and> feeds fs l l'"
  unfolding all_fed_def by (induction rule: list_all2_induct) auto

lemma ready_listener: "ready qs \<Longrightarrow> map_of qs lis = Some l \<Longrightarrow> wf_queue l \<and> attended (q_listeners l)"
  by (auto simp: ready_def dest!: map_of_SomeD)

lemma ready_put:
  "ready qs \<Longrightarrow> wf_queue l \<Longrightarrow> attended (q_listeners l) \<Longrightarrow> ready (AList.update lis l qs)"
  unfolding ready_def by (auto dest!: set_update_cases)

text \<open>What an event of the goroutine does to the plugin's queue.\<close>

lemma go_step_pushes:
  assumes "go_step now ev g i q = Some (Returns (g', i', q'))" and "g = RecordLoop \<or> g = CommandLoop"
  shows "produced_by now ev i = [] \<and> q' = q \<or> (\<exists>f. produced_by now ev i = [f] \<and> Push (Some f) q = Returns q')"
proof (cases ev)
  case (DataFrame x)
  with assms show ?thesis by (cases x) (auto simp: outcome_simps)
qed (use assms in \<open>auto simp: outcome_simps split: if_splits\<close>)

lemma subseq_feed: "subseq q' (q @ p) \<Longrightarrow> subseq (a @ q) x \<Longrightarrow> subseq (a @ q') (x @ p)"
  by (metis subseq_append' subseq_append append.assoc subseq_order.trans)

lemma path_ok_plugin:
  assumes "path_ok name lis s" and "path_step name lis send (Plugin_event now ev) s = Some (Returns s')"
  shows "path_ok name lis s'"
proof -
  from assms(1) obtain q l where q: "map_of (incomingQueues (path_manager s)) name = Some q" "wf_queue q"
      "ready (outgoing (path_manager s) name)" "map_of (outgoing (path_manager s) name) lis = Some l"
      "subseq (path_sent s @ frames_in l @ frames_in q) (path_produced s)"
    by (auto simp: path_ok_def)
  from assms(2) obtain g where g: "path_loop s = Some g" by (cases "path_loop s") simp_all
  with assms(2) have loop: "g = RecordLoop \<or> g = CommandLoop" by (auto split: if_splits)
  with assms(2) g q(1) obtain r where r: "go_step now ev g (path_instance s) q = Some r"
    by (cases "go_step now ev g (path_instance s) q") auto
  with assms(2) g q(1) loop obtain g' i' q' where step: "r = Returns (g', i', q')"
    by (cases r) auto
  let ?m = "(path_manager s)\<lparr>incomingQueues := AList.update name q' (incomingQueues (path_manager s))\<rparr>"
  have s': "path_manager s' = ?m" "path_sent s' = path_sent s"
      "path_produced s' = path_produced s @ produced_by now ev (path_instance s)"
    using assms(2) g q(1) loop r step by auto
  have "wf_queue q' \<and> subseq (frames_in q') (frames_in q @ produced_by now ev (path_instance s))"
    using go_step_pushes [OF r [unfolded step] loop]
  proof (elim disjE exE conjE)
    fix f
    assume f: "produced_by now ev (path_instance s) = [f]" "Push (Some f) q = Returns q'"
    from Push_returns(3) [OF q(2) f(2)] frames_in_Push [OF q(2) f(2)] f(1) show ?thesis by simp
  qed (use q(2) in simp)
  moreover have "outgoing ?m name = outgoing (path_manager s) name" by (simp add: outgoing_def)
  ultimately show ?thesis
    using q subseq_feed [of "frames_in q'" "frames_in q" _ "path_sent s @ frames_in l"]
    unfolding path_ok_def s' by auto
qed

lemma path_ok_forward:
  assumes "path_ok name lis s" and "path_step name lis send (Forwarder_turn n) s = Some (Returns s')"
  shows "path_ok name lis s'"
proof -
  from assms(1) obtain q l where q: "map_of (incomingQueues (path_manager s)) name = Some q" "wf_queue q"
      "ready (outgoing (path_manager s) name)" "map_of (outgoing (path_manager s) name) lis = Some l"
      "subseq (path_sent s @ frames_in l @ frames_in q) (path_produced s)"
    by (auto simp: path_ok_def)
  from assms(2) obtain m where m: "forward name n (path_manager s) = Returns m" and s': "s' = s\<lparr>path_manager := m\<rparr>"
    by (auto simp: outcome_simps)
  show ?thesis
  proof (cases n)
    case 0
    with m q(1) obtain q' where q': "unsub queueManagerName q = Returns q'"
        "m = (path_manager s)\<lparr>incomingQueues := AList.update name q' (incomingQueues (path_manager s)),
           forwarders := AList.update name Finished (forwarders (path_manager s)),
           wgs := AList.update name 0 (wgs (path_manager s))\<rparr>"
      by (auto simp: forward_def forwarder_exit_def outcome_simps)
    have "q_items q' = q_items q" using q'(1) by (auto simp: unsub_def split: option.splits)
    with q wf_unsub [OF q(2) q'(1)] show ?thesis
      by (simp add: path_ok_def s' q'(2) outgoing_def frames_in_def)
  next
    case (Suc k)
    obtain fs q' where p: "pops Pop k q = (fs, q')" by force
    from forward_frames_fed [OF q(1-3), of k] m Suc p have
      m': "map_of (incomingQueues m) name = Some q'" "all_fed fs (outgoing (path_manager s) name) (outgoing m name)"
      by (auto simp: forward_def)
    note c = frames.pops_contents [OF q(2) p]
    from all_fed_listener [OF m'(2) q(4)] obtain l' where l': "map_of (outgoing m name) lis = Some l'" "feeds fs l l'" by blast
    have "the_frames fs @ frames_in q' = frames_in q"
      unfolding frames_in_def using c by (metis append_take_drop_id concat_append map_append the_frames_replicate append_Nil2)
    moreover have "subseq (frames_in l') (frames_in l @ the_frames fs)" by (rule frames_in_fed [OF l'(2)])
    ultimately have "subseq (path_sent s @ frames_in l' @ frames_in q') (path_sent s @ frames_in l @ frames_in q)"
      by (metis append.assoc subseq_append subseq_append')
    with q(5) have "subseq (path_sent s @ frames_in l' @ frames_in q') (path_produced s)"
      by (rule subseq_order.trans [rotated])
    with m' l' c all_fed_ready [OF m'(2)] show ?thesis by (auto simp: path_ok_def s')
  qed
qed

lemma stream_turn_frames:
  assumes "stream_turn send ev l = Returns (e, fs, l')" and "wf_queue l"
  shows "subseq (fs @ frames_in l') (frames_in l) \<and> wf_queue l' \<and> q_listeners l' = q_listeners l"
proof (cases ev)
  case (Length n)
  with assms frames_in_sent [of send "n - 1" l e fs l'] show ?thesis by (cases n) (auto simp: stream_turn_def)
next
  case (ContextDone x)
  with assms show ?thesis by (cases x) (auto simp: stream_turn_def)
qed

lemma path_ok_stream:
  assumes "path_ok name lis s" and "path_step name lis send (Stream_turn ev) s = Some (Returns s')"
  shows "path_ok name lis s'"
proof -
  from assms(1) obtain q l where q: "map_of (incomingQueues (path_manager s)) name = Some q" "wf_queue q"
      "ready (outgoing (path_manager s) name)" "map_of (outgoing (path_manager s) name) lis = Some l"
      "subseq (path_sent s @ frames_in l @ frames_in q) (path_produced s)"
    by (auto simp: path_ok_def)
  note l = ready_listener [OF q(3,4)]
  from assms(2) q(4) obtain e fs l' where t: "stream_turn send ev l = Returns (e, fs, l')"
    and s': "s' = s\<lparr>path_manager := put_listener name lis l' (path_manager s), path_sent := path_sent s @ fs, path_end := e\<rparr>"
    by (auto simp: listener_queue_def outcome_simps split: if_splits)
  note f = stream_turn_frames [OF t] l
  then have "subseq ((path_sent s @ fs) @ frames_in l' @ frames_in q) (path_sent s @ frames_in l @ frames_in q)"
    by (metis append.assoc subseq_append subseq_append')
  with q(5) have "subseq ((path_sent s @ fs) @ frames_in l' @ frames_in q) (path_produced s)" by (rule subseq_order.trans [rotated])
  moreover have "outgoing (put_listener name lis l' (path_manager s)) name = AList.update lis l' (outgoing (path_manager s) name)"
    by (simp add: put_listener_def outgoing_def)
  ultimately show ?thesis using q f ready_put [OF q(3), of l' lis]
    by (auto simp: path_ok_def s' put_listener_def)
qed

lemma path_ok_run: "path_ok name lis s \<Longrightarrow> path_run name lis send ms s = Some (Returns s') \<Longrightarrow> path_ok name lis s'"
proof (induction ms arbitrary: s)
  case (Cons m ms)
  then obtain s1 where s1: "path_step name lis send m s = Some (Returns s1)" "path_run name lis send ms s1 = Some (Returns s')"
    by (auto split: option.splits outcome.splits)
  have "path_ok name lis s1"
    using path_ok_plugin path_ok_forward path_ok_stream Cons.prems(1) s1(1) by (cases m) blast+
  with Cons.IH s1(2) show ?case by blast
qed simp


section \<open>When everybody keeps up\<close>

definition start_path :: "queue_manager \<Rightarrow> goroutine \<Rightarrow> plugin_instance \<Rightarrow> frame_path" where
  "start_path m g i =
     \<lparr>path_manager = m, path_loop = Some g, path_instance = i, path_produced = [], path_sent = [], path_end = None\<rparr>"

text \<open>Both queues are empty and both are attended: the forwarder and the stream have taken what there was.\<close>

definition caught_up :: "string \<Rightarrow> string \<Rightarrow> queue_manager \<Rightarrow> bool" where
  "caught_up name lis m \<longleftrightarrow>
     (\<exists>q l. map_of (incomingQueues m) name = Some q \<and> wf_queue q \<and> attended (q_listeners q) \<and> q_items q = [] \<and>
        ready (outgoing m name) \<and> map_of (outgoing m name) lis = Some l \<and> q_items l = [])"

text \<open>One frame from the plugin to the client; the signals say 2, as \<^const>\<open>Push\<close> sends to an empty queue's
  listeners.\<close>

definition one_frame :: "int \<Rightarrow> frame option \<Rightarrow> path_move list" where
  "one_frame now f = [Plugin_event now (DataFrame f), Forwarder_turn 2, Stream_turn (Length 2)]"

lemma push_forward:
  assumes "caught_up name lis m" and "map_of (incomingQueues m) name = Some q"
  shows "\<exists>q1 m2 l2. Push (Some f) q = Returns q1 \<and>
    forward name 2 (m\<lparr>incomingQueues := AList.update name q1 (incomingQueues m)\<rparr>) = Returns m2 \<and>
    map_of (outgoing m2 name) lis = Some l2 \<and> q_items l2 = [Some f] \<and>
    (\<exists>q2. map_of (incomingQueues m2) name = Some q2 \<and> wf_queue q2 \<and> attended (q_listeners q2) \<and> q_items q2 = []) \<and>
    ready (outgoing m2 name)"
proof -
  from assms obtain l where q: "wf_queue q" "attended (q_listeners q)" "q_items q = []"
    and out: "ready (outgoing m name)" and l: "map_of (outgoing m name) lis = Some l" "q_items l = []"
    by (auto simp: caught_up_def)
  note p = Push_pushed [OF q(1,2), of "Some f"]
  let ?q1 = "pushed (Some f) q"
  let ?m1 = "m\<lparr>incomingQueues := AList.update name ?q1 (incomingQueues m)\<rparr>"
  have pos: "keep_last (nat (q_limit q)) [x] = [x]" if "wf_queue q" for q :: queue and x :: "frame option"
    using that by (intro keep_last_all) (auto simp: wf_queue_def)
  have items: "q_items ?q1 = [Some f]" using Push_returns(1) [OF q(1) p(1)] q(1,3) pos by simp
  then have pops: "pops Pop 1 ?q1 = ([Some f], ?q1\<lparr>q_items := []\<rparr>)" by (simp add: Pop_def)
  have out1: "outgoing ?m1 name = outgoing m name" by (simp add: outgoing_def)
  from forward_frames_fed [of ?m1 name ?q1 1] p(2) out pops obtain m2 where m2: "forward_frames name 1 ?m1 = Returns m2"
      "map_of (incomingQueues m2) name = Some (?q1\<lparr>q_items := []\<rparr>)" "all_fed [Some f] (outgoing m name) (outgoing m2 name)"
    by (auto simp: out1)
  from all_fed_listener [OF m2(3) l(1)] obtain l2 where l2: "map_of (outgoing m2 name) lis = Some l2" "feeds [Some f] l l2"
    by blast
  have "q_items l2 = [Some f]"
    using l2(2) l(2) pos ready_listener [OF out l(1)] by (simp add: feeds_def)
  moreover have "forward name 2 ?m1 = Returns m2" using m2(1) by (simp add: forward_def)
  moreover have "wf_queue (?q1\<lparr>q_items := []\<rparr>)" using p(2) by (simp add: wf_queue_def)
  ultimately show ?thesis using p(1,3) m2(2) l2(1) all_fed_ready [OF m2(3)] by auto
qed

lemma one_frame_arrives:
  assumes "caught_up name lis (path_manager s)" and "path_loop s = Some RecordLoop" and "path_end s = None"
  shows "\<exists>s'. path_run name lis (\<lambda>_. None) (one_frame now (Some f)) s = Some (Returns s') \<and>
    caught_up name lis (path_manager s') \<and> path_loop s' = Some RecordLoop \<and> path_instance s' = path_instance s \<and>
    path_produced s' = path_produced s @ [f] \<and>
    (if not_eof f then path_sent s' = path_sent s @ [f] \<and> path_end s' = None
     else path_sent s' = path_sent s \<and> path_end s' = Some (Some (Status OK PluginEOF)))"
proof -
  let ?m = "path_manager s"
  from assms(1) obtain q where q: "map_of (incomingQueues ?m) name = Some q" by (auto simp: caught_up_def)
  from push_forward [OF assms(1) q, of f] obtain q1 m2 l2 q2 where
    p: "Push (Some f) q = Returns q1"
      "forward name 2 (?m\<lparr>incomingQueues := AList.update name q1 (incomingQueues ?m)\<rparr>) = Returns m2"
      "map_of (outgoing m2 name) lis = Some l2" "q_items l2 = [Some f]"
      "map_of (incomingQueues m2) name = Some q2" "wf_queue q2" "attended (q_listeners q2)" "q_items q2 = []"
      "ready (outgoing m2 name)" by blast
  have pop: "Pop l2 = (Some f, l2\<lparr>q_items := []\<rparr>)" using p(4) by (simp add: Pop_def)
  let ?m3 = "put_listener name lis (l2\<lparr>q_items := []\<rparr>) m2"
  have l: "wf_queue (l2\<lparr>q_items := []\<rparr>)" "attended (q_listeners l2)"
    using ready_listener [OF p(9,3)] by (simp_all add: wf_queue_def)
  have out: "outgoing ?m3 name = AList.update lis (l2\<lparr>q_items := []\<rparr>) (outgoing m2 name)"
    by (simp add: put_listener_def outgoing_def)
  have cu: "caught_up name lis ?m3"
    unfolding caught_up_def out using p(5-8) ready_put [OF p(9) l(1), of lis] l(2)
    by (intro exI [of _ q2] exI [of _ "l2\<lparr>q_items := []\<rparr>"]) (simp add: put_listener_def)
  show ?thesis
    using assms(2,3) q p(1-3) pop cu
    by (simp add: one_frame_def listener_queue_def stream_turn_def numeral_2_eq_2)
qed

lemma eof_arrives:
  assumes "caught_up name lis (path_manager s)" and "path_loop s = Some RecordLoop" and "path_end s = None"
  shows "\<exists>s'. path_run name lis (\<lambda>_. None) (one_frame now None) s = Some (Returns s') \<and>
    path_sent s' = path_sent s \<and> path_end s' = Some (Some (Status OK PluginEOF)) \<and> path_loop s' = None"
proof -
  let ?m = "path_manager s" and ?f = "eof_frame now (path_instance s)"
  from assms(1) obtain q where q: "map_of (incomingQueues ?m) name = Some q" by (auto simp: caught_up_def)
  from push_forward [OF assms(1) q, of ?f] obtain q1 m2 l2 where
    p: "Push (Some ?f) q = Returns q1"
      "forward name 2 (?m\<lparr>incomingQueues := AList.update name q1 (incomingQueues ?m)\<rparr>) = Returns m2"
      "map_of (outgoing m2 name) lis = Some l2" "q_items l2 = [Some ?f]" by blast
  have "Pop l2 = (Some ?f, l2\<lparr>q_items := []\<rparr>)" using p(4) by (simp add: Pop_def)
  with assms(2,3) q p(1-3) show ?thesis
    by (simp add: one_frame_def listener_queue_def stream_turn_def numeral_2_eq_2 eof_frame_def)
qed

lemma path_run_append:
  "path_run name lis send (ms @ ms') s =
     (case path_run name lis send ms s of Some (Returns s') \<Rightarrow> path_run name lis send ms' s' | r \<Rightarrow> r)"
  by (induction ms arbitrary: s) (auto split: option.splits outcome.splits)

lemma prompt_run:
  assumes "\<forall>f \<in> set fs. not_eof f" and "caught_up name lis (path_manager s)"
    and "path_loop s = Some RecordLoop" and "path_end s = None"
  shows "\<exists>s'. path_run name lis (\<lambda>_. None) (concat (map (one_frame now) (map Some fs @ [None]))) s = Some (Returns s') \<and>
    path_sent s' = path_sent s @ fs \<and> path_end s' = Some (Some (Status OK PluginEOF)) \<and> path_loop s' = None"
  using assms
proof (induction fs arbitrary: s)
  case Nil
  with eof_arrives [OF Nil.prems(2-4)] show ?case by simp
next
  case (Cons f fs)
  from one_frame_arrives [OF Cons.prems(2-4), of now f] Cons.prems(1) obtain s1 where
    s1: "path_run name lis (\<lambda>_. None) (one_frame now (Some f)) s = Some (Returns s1)"
      "caught_up name lis (path_manager s1)" "path_loop s1 = Some RecordLoop" "path_sent s1 = path_sent s @ [f]"
      "path_end s1 = None" by auto
  from Cons.IH [OF _ s1(2,3,5)] Cons.prems(1) s1(4) show ?case by (auto simp: path_run_append s1(1))
qed

text \<open>
  C15. A frame reaches a client of \<^verbatim>\<open>Subscribe\<close> by way of three goroutines and two queues. Whatever the order of
  their steps, the lengths they are told and the frames the queues drop, what the client is sent is a
  subsequence of what the plugin has produced: in order, nothing twice, nothing else. And when the
  forwarder and the stream take each frame before the next, with the lengths \<^const>\<open>Push\<close> announces, every frame
  arrives, and the end of the recording ends the handler with \<^verbatim>\<open>plugin EOF\<close>.
\<close>

theorem frames_reach_the_client:
  assumes "caught_up name lis m"
  shows "(\<forall>ms send s. path_run name lis send ms (start_path m g i) = Some (Returns s) \<longrightarrow>
      subseq (path_sent s) (path_produced s)) \<and>
    (\<forall>fs now. (\<forall>f \<in> set fs. not_eof f) \<longrightarrow>
      (\<exists>s. path_run name lis (\<lambda>_. None) (concat (map (one_frame now) (map Some fs @ [None])))
          (start_path m RecordLoop i) = Some (Returns s) \<and>
        path_sent s = fs \<and> path_end s = Some (Some (Status OK PluginEOF)) \<and> path_loop s = None))"
proof (intro conjI allI impI)
  fix ms send s
  assume run: "path_run name lis send ms (start_path m g i) = Some (Returns s)"
  from assms have "path_ok name lis (start_path m g i)"
    by (auto simp: caught_up_def path_ok_def start_path_def frames_in_def)
  from path_ok_run [OF this run] obtain q l where "subseq (path_sent s @ frames_in l @ frames_in q) (path_produced s)"
    by (auto simp: path_ok_def)
  then show "subseq (path_sent s) (path_produced s)" by (rule subseq_order.trans [rotated]) (simp add: prefix_imp_subseq)
next
  fix fs now
  assume "\<forall>f \<in> set fs. not_eof f"
  from prompt_run [OF this, of name lis "start_path m RecordLoop i" now] assms
  show "\<exists>s. path_run name lis (\<lambda>_. None) (concat (map (one_frame now) (map Some fs @ [None])))
      (start_path m RecordLoop i) = Some (Returns s) \<and>
    path_sent s = fs \<and> path_end s = Some (Some (Status OK PluginEOF)) \<and> path_loop s = None"
    by (simp add: start_path_def)
qed


section \<open>Witness\<close>

definition path_demo :: queue_manager where
  "path_demo = snd (RegisterListener ''p'' ''c'' (snd (RegisterSource ''p'' NewQueueManager)))"

lemma path_demo_caught_up: "caught_up ''p'' ''c'' path_demo"
  by (simp add: caught_up_def path_demo_def RegisterListener_def RegisterSource_def Let_def NewQueueManager_def
      NewQueue_def outgoing_def ready_def wf_queue_def defaultSrcQueueSize_def defaultLisQueueSize_def)

theorem frames_reach_the_client_witness:
  "\<exists>s. path_run ''p'' ''c'' (\<lambda>_. None)
      (concat (map (one_frame 7) [Some (demo_frame ''one''), Some (demo_frame ''two''), None]))
      (start_path path_demo RecordLoop rsync) = Some (Returns s) \<and>
    path_sent s = [demo_frame ''one'', demo_frame ''two''] \<and> path_end s = Some (Some (Status OK PluginEOF))"
proof -
  have "\<forall>f \<in> set [demo_frame ''one'', demo_frame ''two'']. not_eof f" by (simp add: demo_frame_def EOF_type_def)
  from frames_reach_the_client [OF path_demo_caught_up, THEN conjunct2, rule_format, of "[demo_frame ''one'', demo_frame ''two'']" 7 rsync]
    this show ?thesis by auto
qed

end
