(* ===== verification/WebsocketProxy.thy ===== *)
theory WebsocketProxy
  imports Channel GoStrings
begin

text \<open>
  File \<^verbatim>\<open>lanirpc/websocket_proxy.go\<close>: the handler that turns a WebSocket connection into one
  request to the REST proxy, forwarding a few headers, passing the client's messages on as the
  request's body and every line of the answer back as a message. Here are the headers and the
  request made from them, the loops as functions of all that is read, and the deadlines of ping and
  pong; \<open>WebsocketConnection\<close> has the goroutines and pipes that run these loops.
\<close>

section \<open>Headers\<close>

definition is_token :: "char \<Rightarrow> bool" where
  "is_token c \<longleftrightarrow>
     (let n = of_char c :: nat in
      48 \<le> n \<and> n \<le> 57 \<or> 65 \<le> n \<and> n \<le> 90 \<or> 97 \<le> n \<and> n \<le> 122) \<or>
     c \<in> set ''!#$%&*+-.^_`|~'' \<or> c = char_of (39 :: nat)"

definition up_case :: "char \<Rightarrow> char" where
  "up_case c = (let n = of_char c :: nat in if 97 \<le> n \<and> n \<le> 122 then char_of (n - 32) else c)"

definition low_case :: "char \<Rightarrow> char" where
  "low_case c = (let n = of_char c :: nat in if 65 \<le> n \<and> n \<le> 90 then char_of (n + 32) else c)"

fun capitalise :: "bool \<Rightarrow> string \<Rightarrow> string" where
  "capitalise upper [] = []"
| "capitalise upper (c # cs) =
     (if upper then up_case c else low_case c) # capitalise (c = CHR ''-'') cs"

definition CanonicalMIMEHeaderKey :: "string \<Rightarrow> string" where
  "CanonicalMIMEHeaderKey s = (if list_all is_token s then capitalise True s else s)"

type_synonym header = "string list gomap"

definition header_Get :: "header \<Rightarrow> string \<Rightarrow> string" where
  "header_Get h key =
     (case map_of h (CanonicalMIMEHeaderKey key) of Some (v # _) \<Rightarrow> v | _ \<Rightarrow> '''')"

definition header_Set :: "string \<Rightarrow> string \<Rightarrow> header \<Rightarrow> header" where
  "header_Set key v h = AList.update (CanonicalMIMEHeaderKey key) [v] h"

definition MethodOverrideParam :: string where "MethodOverrideParam = ''method''"
definition HeaderWebSocketProtocol :: string where
  "HeaderWebSocketProtocol = ''Sec-Websocket-Protocol''"
definition WebSocketProtocolDelimiter :: char where "WebSocketProtocolDelimiter = CHR ''+''"
definition PingContent :: string where "PingContent = ''are you there?''"

definition defaultHeadersToForward :: "bool gomap" where
  "defaultHeadersToForward = [(''Origin'', True), (''Referer'', True), (''Grpc-Metadata-Macaroon'', True)]"

definition defaultProtocolsToAllow :: "bool gomap" where
  "defaultProtocolsToAllow = [(''Grpc-Metadata-Macaroon'', True)]"

definition forward_header :: "header \<Rightarrow> string \<Rightarrow> header \<Rightarrow> header" where
  "forward_header source header target =
     (let headerName = CanonicalMIMEHeaderKey header in
      if map_of defaultHeadersToForward headerName = Some True
      then header_Set headerName (header_Get source header) target else target)"

text \<open>\<^verbatim>\<open>values[1]\<close> panics when the protocol has no delimiter.\<close>

fun forward_protocols :: "string \<Rightarrow> string list \<Rightarrow> header \<Rightarrow> header outcome" where
  "forward_protocols protocol [] target = Returns target"
| "forward_protocols protocol (key # keys) target =
     (if prefix key protocol then
        (case split WebSocketProtocolDelimiter protocol of
           _ # v # _ \<Rightarrow> forward_protocols protocol keys (header_Set key v target)
         | _ \<Rightarrow> Panics)
      else forward_protocols protocol keys target)"

definition forwardHeaders :: "header \<Rightarrow> header \<Rightarrow> header outcome" where
  "forwardHeaders source target =
     forward_protocols (header_Get source HeaderWebSocketProtocol)
       (map fst defaultProtocolsToAllow) (fold (forward_header source) (map fst source) target)"

section \<open>The proxy\<close>

record websocket_proxy =
  clientStreamingURIs :: "(string \<Rightarrow> bool) list"
  pingInterval :: int
  pongWait :: int

definition LaniCLientStreamingURIs :: "(string \<Rightarrow> bool) list" where
  "LaniCLientStreamingURIs = []"

definition NewWebSocketProxy :: "int \<Rightarrow> int \<Rightarrow> websocket_proxy" where
  "NewWebSocketProxy interval wait =
     (let enabled = 0 < interval \<and> 0 < wait in
      \<lparr>clientStreamingURIs = LaniCLientStreamingURIs, pingInterval = (if enabled then interval else 0),
       pongWait = (if enabled then wait else 0)\<rparr>)"

definition pingPongEnabled :: "websocket_proxy \<Rightarrow> bool" where
  "pingPongEnabled p \<longleftrightarrow> 0 < pingInterval p \<and> 0 < pongWait p"

record http_request =
  Method :: string
  Path :: string
  Query :: "string gomap"
  Header :: header

text \<open>The request for the backend, and whether it is one whose client streams.\<close>

definition prepare_request :: "websocket_proxy \<Rightarrow> http_request \<Rightarrow> (http_request \<times> bool) outcome" where
  "prepare_request p r =
     and_then (forwardHeaders (Header r) []) (\<lambda>h.
     let m = (case map_of (Query r) MethodOverrideParam of Some m \<Rightarrow> m | None \<Rightarrow> '''') in
     Returns
       (r\<lparr>Header := h, Method := (if m \<noteq> '''' then m else Method r)\<rparr>,
        \<exists>pattern \<in> set (clientStreamingURIs p). pattern (Path r)))"

text \<open>The forward loop on the messages of the client: what reaches the body of the request,
  whether its writer has been closed, and whether a write failed because of that.\<close>

fun forward_loop :: "bool \<Rightarrow> bool \<Rightarrow> string list \<Rightarrow> string \<times> bool \<times> bool" where
  "forward_loop clientStreaming closed [] = ([], closed, False)"
| "forward_loop clientStreaming closed (payload # payloads) =
     (if closed then ([], True, True)
      else
        (case forward_loop clientStreaming (\<not> clientStreaming) payloads of (body, closed, err) \<Rightarrow>
           (payload @ char_of (10 :: nat) # body, closed, err)))"

text \<open>\<^verbatim>\<open>bufio.Scanner\<close> with its default split function and buffer: lines without their end; a line
  that does not fit the buffer of 64 kB together with its newline ends the scan with an error.\<close>

definition newline :: char where "newline = char_of (10 :: nat)"

definition drop_CR :: "string \<Rightarrow> string" where
  "drop_CR s = (if s \<noteq> [] \<and> last s = char_of (13 :: nat) then butlast s else s)"

definition MaxScanTokenSize :: nat where "MaxScanTokenSize = 64 * 1024"

definition scan_lines :: "string \<Rightarrow> string list \<times> bool" where
  "scan_lines s =
     (let ls = split newline s; ls = (if last ls = [] then butlast ls else ls) in
      (map drop_CR (takeWhile (\<lambda>l. length l < MaxScanTokenSize) ls),
       \<exists>l \<in> set ls. MaxScanTokenSize \<le> length l))"

text \<open>The write loop: the messages sent, up to the first that cannot be sent.\<close>

fun write_loop :: "(string \<Rightarrow> go_error option) \<Rightarrow> string list \<Rightarrow> string list" where
  "write_loop WriteMessage [] = []"
| "write_loop WriteMessage (l # ls) =
     (if l = [] then write_loop WriteMessage ls
      else case WriteMessage l of None \<Rightarrow> l # write_loop WriteMessage ls | Some _ \<Rightarrow> [])"

text \<open>The read deadline: set when the loop starts, moved by every pong. A read fails when the
  deadline has passed; the arguments are the times the pongs arrive at.\<close>

definition next_deadline :: "websocket_proxy \<Rightarrow> int \<Rightarrow> int" where
  "next_deadline p now = now + (pingInterval p + pongWait p)"

fun read_pongs :: "websocket_proxy \<Rightarrow> int \<Rightarrow> int list \<Rightarrow> int option" where
  "read_pongs p deadline [] = Some deadline"
| "read_pongs p deadline (t # ts) =
     (if deadline < t then None else read_pongs p (next_deadline p t) ts)"

section \<open>Errors and the response writer\<close>

definition IsClosedConnError :: "(go_error \<Rightarrow> bool) \<Rightarrow> go_error option \<Rightarrow> bool" where
  "IsClosedConnError IsCloseError err =
     (case err of
        None \<Rightarrow> False
      | Some e \<Rightarrow>
          e = Foreign ''http: Server closed'' \<or>
          contains (error_msg e) ''use of closed network connection'' \<or>
          contains (error_msg e) ''closed pipe'' \<or> contains (error_msg e) ''broken pipe'' \<or>
          contains (error_msg e) ''connection reset by peer'' \<or> IsCloseError e)"

record response_writer =
  written :: string
  rw_header :: header
  rw_code :: int
  pipe_closed :: bool
  closed :: "bool chan"

definition newResponseForwardingWriter :: response_writer where
  "newResponseForwardingWriter =
     \<lparr>written = [], rw_header = [], rw_code = 0, pipe_closed = False, closed = make_chan 1\<rparr>"

definition rw_Write :: "string \<Rightarrow> response_writer \<Rightarrow> (nat \<times> go_error option) \<times> response_writer" where
  "rw_Write b w =
     (if pipe_closed w then ((0, Some (Foreign ''io: read/write on closed pipe'')), w)
      else ((length b, None), w\<lparr>written := written w @ b\<rparr>))"

definition WriteHeader :: "int \<Rightarrow> response_writer \<Rightarrow> response_writer" where
  "WriteHeader code w = w\<lparr>rw_code := code\<rparr>"

definition rw_Flush :: "response_writer \<Rightarrow> response_writer" where
  "rw_Flush w = w"

definition rw_Close :: "response_writer \<Rightarrow> response_writer outcome" where
  "rw_Close w =
     and_then (chan_send True (closed w)) (\<lambda>c. Returns (w\<lparr>pipe_closed := True, closed := c\<rparr>))"

section \<open>Which headers are forwarded\<close>

definition canonical_keys :: "header \<Rightarrow> bool" where
  "canonical_keys h \<longleftrightarrow> (\<forall>k. has_key h k \<longrightarrow> CanonicalMIMEHeaderKey k = k)"

abbreviation macaroon_header :: string where
  "macaroon_header \<equiv> ''Grpc-Metadata-Macaroon''"

lemma canonical_names [simp]:
  "CanonicalMIMEHeaderKey ''Origin'' = ''Origin''"
  "CanonicalMIMEHeaderKey ''Referer'' = ''Referer''"
  "CanonicalMIMEHeaderKey ''Grpc-Metadata-Macaroon'' = ''Grpc-Metadata-Macaroon''"
  by (simp_all add: CanonicalMIMEHeaderKey_def is_token_def up_case_def low_case_def)

lemma forwarded_names:
  "map_of defaultHeadersToForward k = Some True \<longleftrightarrow> k \<in> {''Origin'', ''Referer'', macaroon_header}"
  by (simp add: defaultHeadersToForward_def)

lemma fold_forward_header:
  assumes "\<forall>k \<in> set ks. CanonicalMIMEHeaderKey k = k"
  shows "map_of (fold (forward_header source) ks target) k =
    (if k \<in> set ks \<and> k \<in> {''Origin'', ''Referer'', macaroon_header} then Some [header_Get source k]
     else map_of target k)"
  using assms
  by (induction ks arbitrary: target)
    (auto simp: forward_header_def forwarded_names header_Set_def update_conv')

lemma header_Get_canonical:
  "CanonicalMIMEHeaderKey k = k \<Longrightarrow> header_Get h k = (case map_of h k of Some (v # _) \<Rightarrow> v | _ \<Rightarrow> '''')"
  by (simp add: header_Get_def)

lemma forward_protocols_default:
  "forward_protocols protocol (map fst defaultProtocolsToAllow) target =
     (if prefix macaroon_header protocol then
        (if CHR ''+'' \<in> set protocol
         then Returns (AList.update macaroon_header [split CHR ''+'' protocol ! 1] target) else Panics)
      else Returns target)"
proof (cases "CHR ''+'' \<in> set protocol")
  case True
  then obtain a b where "protocol = a @ CHR ''+'' # b" "CHR ''+'' \<notin> set a"
    by (metis split_list_first)
  then have "split CHR ''+'' protocol = a # split CHR ''+'' b" by (simp add: split_append)
  then show ?thesis using True split_not_Nil [of "CHR ''+''" b]
    by (cases "split CHR ''+'' b")
      (auto simp: defaultProtocolsToAllow_def WebSocketProtocolDelimiter_def header_Set_def)
next
  case False
  then show ?thesis
    by (simp add: defaultProtocolsToAllow_def WebSocketProtocolDelimiter_def split_word)
qed

text \<open>
  C27. Of the headers of a WebSocket request (whose names the HTTP server has made canonical) only the
  origin, the referer and the macaroon reach the REST proxy, with their values. The macaroon may
  instead come in the protocol header, which then wins; and a protocol header that begins with the
  name of the macaroon header and has no \<^verbatim>\<open>+\<close> makes the handler panic.
\<close>

theorem only_known_headers_forwarded:
  assumes "canonical_keys source" and "protocol = header_Get source HeaderWebSocketProtocol"
  shows "if prefix macaroon_header protocol \<and> CHR ''+'' \<notin> set protocol
    then forwardHeaders source [] = Panics
    else \<exists>t. forwardHeaders source [] = Returns t \<and>
      (\<forall>k. has_key t k \<longrightarrow> k \<in> {''Origin'', ''Referer'', macaroon_header}) \<and>
      (\<forall>k \<in> {''Origin'', ''Referer''}. header_Get t k = header_Get source k) \<and>
      header_Get t macaroon_header =
        (if prefix macaroon_header protocol then split CHR ''+'' protocol ! 1
         else header_Get source macaroon_header)"
proof -
  let ?t = "fold (forward_header source) (map fst source) []"
  have t: "map_of ?t k = (if has_key source k \<and> k \<in> {''Origin'', ''Referer'', macaroon_header}
      then Some [header_Get source k] else None)" for k
    using assms(1) fold_forward_header [of "map fst source" source "[]" k]
    by (auto simp: canonical_keys_def has_key_iff_fst)
  have get: "header_Get ?t k = header_Get source k" if "k \<in> {''Origin'', ''Referer'', macaroon_header}" for k
  proof -
    from that have "CanonicalMIMEHeaderKey k = k" by auto
    with that t [of k] show ?thesis by (auto simp: header_Get_canonical has_key_def)
  qed
  let ?u = "AList.update macaroon_header [split CHR ''+'' protocol ! 1] ?t"
  have u: "header_Get ?u k = (if k = macaroon_header then split CHR ''+'' protocol ! 1 else header_Get ?t k)"
    if "k \<in> {''Origin'', ''Referer'', macaroon_header}" for k
    using that by (auto simp: header_Get_canonical)
  have keys: "has_key ?t k \<Longrightarrow> k \<in> {''Origin'', ''Referer'', macaroon_header}" for k
    using t [of k] by (simp add: has_key_def split: if_splits)
  show ?thesis
    unfolding forwardHeaders_def assms(2) [symmetric] forward_protocols_default
    using get u keys by simp
qed

section \<open>Messages\<close>

lemma split_terminated:
  "\<forall>l \<in> set ls. newline \<notin> set l \<Longrightarrow>
     split newline (concat (map (\<lambda>l. l @ [newline]) ls)) = ls @ [[]]"
  by (induction ls) (simp_all add: split_append)

text \<open>
  One request, many answers: as no method streams from the client, the first message of the
  client is the whole body of the request and any further one ends the connection; and the
  messages the client gets are the lines of the answer, one by one and in order, as long as none
  is empty, ends in a carriage return or is 64 kB long. A line of that length ends the stream.
\<close>

theorem one_request_many_answers:
  assumes "\<forall>l \<in> set ls. l \<noteq> [] \<and> newline \<notin> set l \<and> last l \<noteq> char_of (13 :: nat)"
  shows "(\<forall>r r' streaming.
      prepare_request (NewWebSocketProxy interval wait) r = Returns (r', streaming) \<longrightarrow> \<not> streaming) \<and>
    forward_loop False False (m # ms) = (m @ [newline], True, ms \<noteq> []) \<and>
    scan_lines (concat (map (\<lambda>l. l @ [newline]) ls)) =
      (takeWhile (\<lambda>l. length l < MaxScanTokenSize) ls, \<exists>l \<in> set ls. MaxScanTokenSize \<le> length l) \<and>
    write_loop (\<lambda>_. None) (fst (scan_lines (concat (map (\<lambda>l. l @ [newline]) ls)))) =
      takeWhile (\<lambda>l. length l < MaxScanTokenSize) ls"
proof (intro conjI allI impI)
  show "\<not> streaming" if "prepare_request (NewWebSocketProxy interval wait) r = Returns (r', streaming)"
    for r r' streaming using that
    by (auto simp: prepare_request_def outcome_simps NewWebSocketProxy_def LaniCLientStreamingURIs_def Let_def)
  show "forward_loop False False (m # ms) = (m @ [newline], True, ms \<noteq> [])"
    by (cases ms) (simp_all add: newline_def)
  have "\<forall>l \<in> set (takeWhile P ls). l \<noteq> [] \<and> drop_CR l = l" for P
    using assms by (auto simp: drop_CR_def dest!: set_takeWhileD)
  then have "map drop_CR (takeWhile P ls) = takeWhile P ls" for P by (simp add: map_idI)
  moreover have "split newline (concat (map (\<lambda>l. l @ [newline]) ls)) = ls @ [[]]"
    using assms by (intro split_terminated) blast
  ultimately show scan: "scan_lines (concat (map (\<lambda>l. l @ [newline]) ls)) =
      (takeWhile (\<lambda>l. length l < MaxScanTokenSize) ls, \<exists>l \<in> set ls. MaxScanTokenSize \<le> length l)"
    by (simp add: scan_lines_def Let_def)
  have "write_loop (\<lambda>_. None) xs = xs" if "\<forall>l \<in> set xs. l \<noteq> []" for xs
    using that by (induction xs) auto
  moreover have "\<forall>l \<in> set (takeWhile P ls). l \<noteq> []" for P
    using assms by (auto dest!: set_takeWhileD)
  ultimately show "write_loop (\<lambda>_. None) (fst (scan_lines (concat (map (\<lambda>l. l @ [newline]) ls)))) =
      takeWhile (\<lambda>l. length l < MaxScanTokenSize) ls"
    by (simp add: scan)
qed

section \<open>Ping and pong\<close>

text \<open>
  A client that answers every ping within the pong wait is never cut off: with the pongs of the
  pings sent at \<open>start + interval\<close>, \<open>start + 2 * interval\<close> and so on arriving within their wait,
  no read times out, and the next pong still has its full wait. Without an answer the connection
  ends one interval and one wait after the last pong. Ping and pong are off unless both durations
  are positive.
\<close>

theorem prompt_client_stays_connected:
  assumes "p = NewWebSocketProxy interval wait" and "0 < interval" and "0 < wait"
    and "\<forall>k < length ts. start + (int k + 1) * interval \<le> ts ! k \<and>
      ts ! k \<le> start + (int k + 1) * interval + wait"
  shows "pingPongEnabled p \<and>
    (\<exists>d. read_pongs p (next_deadline p start) ts = Some d \<and>
       start + (int (length ts) + 1) * interval + wait \<le> d \<and>
       (\<forall>t. d < t \<longrightarrow> read_pongs p (next_deadline p start) (ts @ [t]) = None) \<and>
       d = next_deadline p (last (start # ts)))"
proof -
  have p: "pingInterval p = interval" "pongWait p = wait"
    using assms(1-3) by (simp_all add: NewWebSocketProxy_def)
  have late: "read_pongs p d0 (ts @ [t]) = None" if "read_pongs p d0 ts = Some d" "d < t" for d0 d ts t
    using that by (induction ts arbitrary: d0) (auto split: if_splits)
  have "\<exists>d. read_pongs p d0 ts = Some d \<and> s + (int (length ts) + 1) * interval + wait \<le> d \<and>
      d = (if ts = [] then d0 else next_deadline p (last ts))"
    if "s + interval + wait \<le> d0"
      "\<forall>k < length ts. s + (int k + 1) * interval \<le> ts ! k \<and> ts ! k \<le> s + (int k + 1) * interval + wait"
    for s d0
    using that
  proof (induction ts arbitrary: s d0)
    case (Cons t ts)
    from Cons.prems(2) have t: "s + interval \<le> t" "t \<le> s + interval + wait" by force+
    have "\<forall>k < length ts. (s + interval) + (int k + 1) * interval \<le> ts ! k \<and>
        ts ! k \<le> (s + interval) + (int k + 1) * interval + wait"
      using Cons.prems(2) [THEN spec, of "Suc _"] by (auto simp: algebra_simps)
    moreover have "(s + interval) + interval + wait \<le> next_deadline p t"
      using t by (simp add: next_deadline_def p)
    ultimately obtain d where "read_pongs p (next_deadline p t) ts = Some d"
        "(s + interval) + (int (length ts) + 1) * interval + wait \<le> d"
        "d = (if ts = [] then next_deadline p t else next_deadline p (last ts))"
      using Cons.IH by blast
    with t Cons.prems(1) show ?case by (auto simp: algebra_simps)
  qed (simp add: algebra_simps)
  from this [of start "next_deadline p start"] assms(4) obtain d where
    "read_pongs p (next_deadline p start) ts = Some d"
    "start + (int (length ts) + 1) * interval + wait \<le> d"
    "d = (if ts = [] then next_deadline p start else next_deadline p (last ts))"
    by (auto simp: next_deadline_def p algebra_simps)
  with late assms(2,3) p show ?thesis by (auto simp: pingPongEnabled_def)
qed

lemma second_Close_blocks:
  "rw_Close newResponseForwardingWriter = Returns w \<Longrightarrow> rw_Close w = Blocks"
  by (auto simp: rw_Close_def newResponseForwardingWriter_def chan_send_def make_chan_def)

section \<open>Witnesses\<close>

theorem only_known_headers_forwarded_witness:
  "forwardHeaders [(''Sec-Websocket-Protocol'', [macaroon_header])] [] = Panics"
proof -
  let ?s = "[(''Sec-Websocket-Protocol'', [macaroon_header])] :: header"
  have k: "CanonicalMIMEHeaderKey ''Sec-Websocket-Protocol'' = ''Sec-Websocket-Protocol''"
    by (simp add: CanonicalMIMEHeaderKey_def is_token_def up_case_def low_case_def)
  then have "canonical_keys ?s" "header_Get ?s HeaderWebSocketProtocol = macaroon_header"
    by (simp_all add: canonical_keys_def header_Get_def HeaderWebSocketProtocol_def)
  then show ?thesis using only_known_headers_forwarded [of ?s macaroon_header] by simp
qed

theorem one_request_many_answers_witness:
  "write_loop (\<lambda>_. None) (fst (scan_lines (concat (map (\<lambda>l. l @ [newline]) [''one'', ''two''])))) =
     [''one'', ''two'']"
proof -
  have "\<forall>l \<in> set [''one'', ''two'']. l \<noteq> [] \<and> newline \<notin> set l \<and> last l \<noteq> char_of (13 :: nat)"
    by (simp add: newline_def char_of_def)
  from one_request_many_answers [OF this] show ?thesis by (simp add: MaxScanTokenSize_def)
qed

theorem prompt_client_stays_connected_witness:
  "read_pongs (NewWebSocketProxy 30 5) 35 [31, 63, 100] = None \<and>
   (\<exists>d. read_pongs (NewWebSocketProxy 30 5) (next_deadline (NewWebSocketProxy 30 5) 0) [31, 63] = Some d)"
proof -
  have "\<forall>k < length [31, 63]. 0 + (int k + 1) * 30 \<le> [31, 63] ! k \<and>
      [31, 63] ! k \<le> 0 + (int k + 1) * 30 + (5 :: int)"
    by (simp add: less_Suc_eq numeral_2_eq_2 all_conj_distrib)
  from prompt_client_stays_connected [OF refl _ _ this] show ?thesis
    by (auto simp: next_deadline_def NewWebSocketProxy_def)
qed

end
