(* ===== verification/WebsocketConnection.thy ===== *)
theory WebsocketConnection
  imports WebsocketProxy
begin

text \<open>
  File \<^verbatim>\<open>lanirpc/websocket_proxy.go\<close>, function \<^verbatim>\<open>upgradeToWebSocketProxy\<close>: one WebSocket connection
  as the goroutines it consists of, a small step of one of them at a time. The REST proxy, which
  answers the request, is a parameter: a function from its own state to the next call it makes on
  the request's body, on the response writer or on the context. The connection itself is the
  environment: frames arrive, reads fail, and each write succeeds or fails.

  \<open>WebsocketMessages\<close> shows what reaches the client and the REST proxy, \<open>WebsocketEnd\<close> that a connection
  whose context is done comes to an end.
\<close>

section \<open>The state\<close>

text \<open>\<open>None\<close> is the end of the body; \<open>False\<close> a write that failed on the closed pipe.\<close>

datatype 'b backend_call =
    Read_body nat "string option \<Rightarrow> 'b"
  | Write_answer string "bool \<Rightarrow> 'b"
  | Await_done 'b
  | Return_handler

datatype closer_pc = Close_awaits | Close_response | Close_request | Close_ended

datatype reader_pc =
  Read_top | Read_message | Hand_over string | Read_closing | Read_cancelling | Read_ended

datatype forward_pc =
    Fwd_select | Fwd_write string | Fwd_writing | Fwd_check | Fwd_newline | Fwd_newline_writing
  | Fwd_after | Fwd_ended

datatype sender_pc =
  Scan_line | Send_message string | Send_check | Send_leaving | Send_closing | Send_ended

datatype ping_pc = Ping_loop | Ping_ended

text \<open>
  \<open>body_offer\<close> and \<open>answer_offer\<close> are what a pending write on the pipe of the request and of the
  response still has to hand over; a pipe has no buffer. \<open>last_err\<close> is the variable \<^verbatim>\<open>err\<close>, which the
  forward loop and the write loop share. \<open>body_read\<close>, \<open>accepted\<close>, \<open>full_lines\<close>, \<open>last_line\<close>, \<open>sent_messages\<close>
  and \<open>forward_failed\<close> only record what has happened: the bytes the REST proxy has read, those its
  successful writes have written, the lines scanned with and without a newline, the messages
  written to the client, and that a write of the forward loop has failed.
\<close>

record 'b connection =
  ctx_done :: bool
  conn_open :: bool
  write_broken :: bool
  read_broken :: bool
  frames_in :: "string list"
  payloadChannel :: "string chan"
  client_streaming :: bool
  body_offer :: "string option"
  body_closed :: bool
  body_read :: string
  answer_offer :: "string option"
  forwarder :: response_writer
  in_write :: bool
  accepted :: string
  scan_buf :: string
  scan_err :: "go_error option"
  empty_reads :: nat
  full_lines :: "string list"
  last_line :: "string option"
  sent_messages :: "string list"
  last_err :: "go_error option"
  forward_failed :: bool
  closer :: closer_pc
  handler :: "'b option"
  reader :: reader_pc
  fwd :: forward_pc
  sender :: sender_pc
  pinger :: ping_pc

definition ErrClosedPipe :: go_error where
  "ErrClosedPipe = Foreign ''io: read/write on closed pipe''"

definition ErrNoProgress :: go_error where
  "ErrNoProgress = Foreign ''multiple Read calls return no data or error''"

definition newRequestForwardingReader :: "string option \<times> bool" where
  "newRequestForwardingReader = (None, False)"

definition rw_Header :: "response_writer \<Rightarrow> header" where
  "rw_Header w = rw_header w"

definition CloseNotify :: "response_writer \<Rightarrow> bool chan" where
  "CloseNotify w = closed w"

definition open_connection :: "websocket_proxy \<Rightarrow> bool \<Rightarrow> 'b \<Rightarrow> 'b connection" where
  "open_connection p clientStreaming b =
     \<lparr>ctx_done = False, conn_open = True, write_broken = False, read_broken = False, frames_in = [],
      payloadChannel = make_chan 1, client_streaming = clientStreaming,
      body_offer = fst newRequestForwardingReader, body_closed = snd newRequestForwardingReader,
      body_read = [], answer_offer = None, forwarder = newResponseForwardingWriter,
      in_write = False, accepted = [], scan_buf = [], scan_err = None, empty_reads = 0,
      full_lines = [], last_line = None, sent_messages = [], last_err = None, forward_failed = False,
      closer = Close_awaits, handler = Some b, reader = Read_top, fwd = Fwd_select,
      sender = Scan_line, pinger = (if pingPongEnabled p then Ping_loop else Ping_ended)\<rparr>"

text \<open>What comes of a request: it is passed on as it is, the upgrade or the request to the REST
  proxy fails, or there is a connection.\<close>

datatype 'b served = Passed_on http_request | Not_upgraded go_error | Upgraded "'b connection"

definition upgradeToWebSocketProxy ::
  "websocket_proxy \<Rightarrow> (http_request \<Rightarrow> go_error option) \<Rightarrow> (http_request \<Rightarrow> go_error option) \<Rightarrow>
     (http_request \<Rightarrow> 'b) \<Rightarrow> http_request \<Rightarrow> 'b served outcome" where
  "upgradeToWebSocketProxy p Upgrade NewRequestWithContext serve r =
     (case Upgrade r of
        Some e \<Rightarrow> Returns (Not_upgraded e)
      | None \<Rightarrow>
          (case NewRequestWithContext r of
             Some e \<Rightarrow> Returns (Not_upgraded e)
           | None \<Rightarrow>
               and_then (prepare_request p r) (\<lambda>(request, clientStreaming).
               Returns (Upgraded (open_connection p clientStreaming (serve request))))))"

definition ServeHTTP ::
  "websocket_proxy \<Rightarrow> (http_request \<Rightarrow> bool) \<Rightarrow> (http_request \<Rightarrow> go_error option) \<Rightarrow>
     (http_request \<Rightarrow> go_error option) \<Rightarrow> (http_request \<Rightarrow> 'b) \<Rightarrow> http_request \<Rightarrow> 'b served outcome" where
  "ServeHTTP p IsWebSocketUpgrade Upgrade NewRequestWithContext serve r =
     (if \<not> IsWebSocketUpgrade r then Returns (Passed_on r)
      else upgradeToWebSocketProxy p Upgrade NewRequestWithContext serve r)"

section \<open>The goroutines\<close>

text \<open>The goroutine that waits for the end of the context and closes both pipes.\<close>

definition CloseWriter :: "'b connection \<Rightarrow> 'b connection" where
  "CloseWriter s = s\<lparr>body_closed := True\<rparr>"

definition closer_step :: "'b connection \<Rightarrow> 'b connection option" where
  "closer_step s =
     (case closer s of
        Close_awaits \<Rightarrow> if ctx_done s then Some (s\<lparr>closer := Close_response\<rparr>) else None
      | Close_response \<Rightarrow>
          (case rw_Close (forwarder s) of
             Returns w \<Rightarrow> Some (s\<lparr>forwarder := w, closer := Close_request\<rparr>)
           | _ \<Rightarrow> None)
      | Close_request \<Rightarrow> Some ((CloseWriter s)\<lparr>closer := Close_ended\<rparr>)
      | Close_ended \<Rightarrow> None)"

text \<open>What is left of an offer when the reader has taken \<open>n\<close> bytes: the write is over when it has
  taken them all.\<close>

definition left_over :: "nat \<Rightarrow> string \<Rightarrow> string option" where
  "left_over n p = (if length p \<le> n then None else Some (drop n p))"

text \<open>The REST proxy. Its request's body ends when the writer has been closed, whoever closed it.\<close>

definition handler_step :: "('b \<Rightarrow> 'b backend_call) \<Rightarrow> 'b connection \<Rightarrow> 'b connection option" where
  "handler_step bk s =
     (case handler s of
        None \<Rightarrow> None
      | Some b \<Rightarrow>
          (case bk b of
             Return_handler \<Rightarrow> Some (s\<lparr>handler := None, ctx_done := True\<rparr>)
           | Await_done b' \<Rightarrow> if ctx_done s then Some (s\<lparr>handler := Some b'\<rparr>) else None
           | Read_body n k \<Rightarrow>
               if body_closed s then Some (s\<lparr>handler := Some (k None)\<rparr>)
               else
                 (case body_offer s of
                    None \<Rightarrow> None
                  | Some p \<Rightarrow>
                      Some (s\<lparr>handler := Some (k (Some (take n p))), body_offer := left_over n p,
                              body_read := body_read s @ take n p\<rparr>))
           | Write_answer w k \<Rightarrow>
               if \<not> in_write s then
                 (if pipe_closed (forwarder s) then Some (s\<lparr>handler := Some (k False)\<rparr>)
                  else Some (s\<lparr>answer_offer := Some w, in_write := True\<rparr>))
               else if answer_offer s = None then
                 Some (s\<lparr>handler := Some (k True), in_write := False, accepted := accepted s @ w\<rparr>)
               else if pipe_closed (forwarder s) then
                 Some (s\<lparr>handler := Some (k False), in_write := False, answer_offer := None\<rparr>)
               else None))"

text \<open>The read loop. Where it selects between handing a payload over and the end of the context,
  \<open>hand\<close> is the choice; \<open>fails\<close> is a read that returns an error.\<close>

definition reader_step :: "bool \<Rightarrow> bool \<Rightarrow> 'b connection \<Rightarrow> 'b connection option" where
  "reader_step hand fails s =
     (case reader s of
        Read_top \<Rightarrow> Some (s\<lparr>reader := (if ctx_done s then Read_closing else Read_message)\<rparr>)
      | Read_message \<Rightarrow>
          if fails then
            (if read_broken s \<or> \<not> conn_open s then Some (s\<lparr>reader := Read_closing\<rparr>) else None)
          else
            (case frames_in s of
               [] \<Rightarrow> None
             | payload # rest \<Rightarrow> Some (s\<lparr>frames_in := rest, reader := Hand_over payload\<rparr>))
      | Hand_over payload \<Rightarrow>
          if hand then
            (case chan_send payload (payloadChannel s) of
               Returns c \<Rightarrow> Some (s\<lparr>payloadChannel := c, reader := Read_top\<rparr>)
             | _ \<Rightarrow> None)
          else if ctx_done s then Some (s\<lparr>reader := Read_closing\<rparr>) else None
      | Read_closing \<Rightarrow>
          (case chan_close (payloadChannel s) of
             Returns c \<Rightarrow> Some (s\<lparr>payloadChannel := c, reader := Read_cancelling\<rparr>)
           | _ \<Rightarrow> None)
      | Read_cancelling \<Rightarrow> Some (s\<lparr>ctx_done := True, reader := Read_ended\<rparr>)
      | Read_ended \<Rightarrow> None)"

text \<open>The forward loop. \<open>receive\<close> is its choice between a payload and the end of the context. A write
  first offers its bytes and is over when they have been taken or the pipe has been closed.\<close>

definition forward_step :: "bool \<Rightarrow> 'b connection \<Rightarrow> 'b connection option" where
  "forward_step receive s =
     (case fwd s of
        Fwd_select \<Rightarrow>
          if receive then
            (case chan_recv (payloadChannel s) of
               Returns (Some payload, c) \<Rightarrow> Some (s\<lparr>payloadChannel := c, fwd := Fwd_write payload\<rparr>)
             | Returns (None, c) \<Rightarrow> Some (s\<lparr>fwd := Fwd_ended, ctx_done := True\<rparr>)
             | _ \<Rightarrow> None)
          else if ctx_done s then Some (s\<lparr>fwd := Fwd_ended\<rparr>) else None
      | Fwd_write payload \<Rightarrow>
          if body_closed s then
            Some (s\<lparr>last_err := Some ErrClosedPipe, forward_failed := True, fwd := Fwd_check\<rparr>)
          else Some (s\<lparr>body_offer := Some payload, fwd := Fwd_writing\<rparr>)
      | Fwd_writing \<Rightarrow>
          if body_offer s = None then Some (s\<lparr>last_err := None, fwd := Fwd_check\<rparr>)
          else if body_closed s then
            Some (s\<lparr>body_offer := None, last_err := Some ErrClosedPipe, forward_failed := True,
                    fwd := Fwd_check\<rparr>)
          else None
      | Fwd_check \<Rightarrow>
          if last_err s \<noteq> None then Some (s\<lparr>fwd := Fwd_ended, ctx_done := True\<rparr>)
          else Some (s\<lparr>fwd := Fwd_newline\<rparr>)
      | Fwd_newline \<Rightarrow>
          if body_closed s then Some (s\<lparr>fwd := Fwd_after\<rparr>)
          else Some (s\<lparr>body_offer := Some [newline], fwd := Fwd_newline_writing\<rparr>)
      | Fwd_newline_writing \<Rightarrow>
          if body_offer s = None then Some (s\<lparr>fwd := Fwd_after\<rparr>)
          else if body_closed s then Some (s\<lparr>body_offer := None, fwd := Fwd_after\<rparr>)
          else None
      | Fwd_after \<Rightarrow>
          Some ((if \<not> client_streaming s then CloseWriter s else s)\<lparr>fwd := Fwd_select\<rparr>)
      | Fwd_ended \<Rightarrow> None)"

text \<open>
  The scanner. A read from the pipe gives between one byte and what there is room for, \<open>n\<close>, or
  nothing when the REST proxy writes nothing; after a hundred such reads in a row it gives up.
\<close>

definition room :: "'b connection \<Rightarrow> nat" where
  "room s = MaxScanTokenSize - length (scan_buf s)"

definition fill :: "nat \<Rightarrow> 'b connection \<Rightarrow> 'b connection option" where
  "fill n s =
     (if pipe_closed (forwarder s) then Some (s\<lparr>scan_err := Some ErrClosedPipe\<rparr>)
      else
        (case answer_offer s of
           None \<Rightarrow> None
         | Some [] \<Rightarrow>
             Some (s\<lparr>answer_offer := None, empty_reads := Suc (empty_reads s),
                     scan_err := (if 100 \<le> empty_reads s then Some ErrNoProgress else None)\<rparr>)
         | Some p \<Rightarrow>
             if 0 < n \<and> n \<le> length p \<and> n \<le> room s then
               Some (s\<lparr>answer_offer := left_over n p, empty_reads := 0,
                       forwarder := (forwarder s)\<lparr>written := written (forwarder s) @ take n p\<rparr>,
                       scan_buf := scan_buf s @ take n p\<rparr>)
             else None))"

definition deliver :: "string \<Rightarrow> 'b connection \<Rightarrow> 'b connection" where
  "deliver l s = s\<lparr>sender := (if l = [] then Scan_line else Send_message l), empty_reads := 0\<rparr>"

definition scan_step :: "nat \<Rightarrow> 'b connection \<Rightarrow> 'b connection option" where
  "scan_step n s =
     (if newline \<in> set (scan_buf s) then
        (let l = takeWhile (\<lambda>c. c \<noteq> newline) (scan_buf s) in
         Some (deliver (drop_CR l)
           (s\<lparr>scan_buf := drop (Suc (length l)) (scan_buf s), full_lines := full_lines s @ [l]\<rparr>)))
      else if scan_err s \<noteq> None then
        (if scan_buf s = [] then Some (s\<lparr>sender := Send_leaving\<rparr>)
         else Some (deliver (drop_CR (scan_buf s)) (s\<lparr>scan_buf := [], last_line := Some (scan_buf s)\<rparr>)))
      else if MaxScanTokenSize \<le> length (scan_buf s) then Some (s\<lparr>sender := Send_leaving\<rparr>)
      else fill n s)"

text \<open>The write loop and the deferred calls of the handler; \<open>r\<close> is what \<^verbatim>\<open>WriteMessage\<close> returns.
  Writes on a closed connection, and all that follow a write that failed, fail.\<close>

definition sender_step :: "nat \<Rightarrow> go_error option \<Rightarrow> 'b connection \<Rightarrow> 'b connection option" where
  "sender_step n r s =
     (case sender s of
        Scan_line \<Rightarrow> scan_step n s
      | Send_message l \<Rightarrow>
          (case r of
             None \<Rightarrow>
               if conn_open s \<and> \<not> write_broken s then
                 Some (s\<lparr>sent_messages := sent_messages s @ [l], last_err := None, sender := Send_check\<rparr>)
               else None
           | Some e \<Rightarrow> Some (s\<lparr>write_broken := True, last_err := Some e, sender := Send_check\<rparr>))
      | Send_check \<Rightarrow> Some (s\<lparr>sender := (if last_err s \<noteq> None then Send_leaving else Scan_line)\<rparr>)
      | Send_leaving \<Rightarrow> Some (s\<lparr>ctx_done := True, sender := Send_closing\<rparr>)
      | Send_closing \<Rightarrow> Some (s\<lparr>conn_open := False, sender := Send_ended\<rparr>)
      | Send_ended \<Rightarrow> None)"

text \<open>The ping loop: a tick, with what \<^verbatim>\<open>WriteControl\<close> returns, or the end of the context. A ping
  that cannot be sent ends this loop only.\<close>

definition ping_tick :: "go_error option \<Rightarrow> 'b connection \<Rightarrow> 'b connection option" where
  "ping_tick r s =
     (if pinger s = Ping_loop then Some (if r = None then s else s\<lparr>pinger := Ping_ended\<rparr>) else None)"

definition pinger_step :: "'b connection \<Rightarrow> 'b connection option" where
  "pinger_step s =
     (if pinger s = Ping_loop \<and> ctx_done s then Some (s\<lparr>pinger := Ping_ended\<rparr>) else None)"

section \<open>Runs\<close>

text \<open>The first four events come from outside: a frame arrives, reads fail from now on, the context
  of the request ends, a ping is due. The others are the goroutines'.\<close>

datatype event =
    Frame_arrives string
  | Reads_fail
  | Request_cancelled
  | Ping_due "go_error option"
  | Closer_runs
  | Handler_runs
  | Reader_runs bool bool
  | Forwarder_runs bool
  | Sender_runs nat "go_error option"
  | Pinger_runs

fun inner :: "event \<Rightarrow> bool" where
  "inner (Frame_arrives f) = False"
| "inner Reads_fail = False"
| "inner Request_cancelled = False"
| "inner (Ping_due r) = False"
| "inner _ = True"

fun conn_step :: "('b \<Rightarrow> 'b backend_call) \<Rightarrow> event \<Rightarrow> 'b connection \<Rightarrow> 'b connection option" where
  "conn_step bk (Frame_arrives f) s = Some (s\<lparr>frames_in := frames_in s @ [f]\<rparr>)"
| "conn_step bk Reads_fail s = Some (s\<lparr>read_broken := True\<rparr>)"
| "conn_step bk Request_cancelled s = Some (s\<lparr>ctx_done := True\<rparr>)"
| "conn_step bk (Ping_due r) s = ping_tick r s"
| "conn_step bk Closer_runs s = closer_step s"
| "conn_step bk Handler_runs s = handler_step bk s"
| "conn_step bk (Reader_runs hand fails) s = reader_step hand fails s"
| "conn_step bk (Forwarder_runs receive) s = forward_step receive s"
| "conn_step bk (Sender_runs n r) s = sender_step n r s"
| "conn_step bk Pinger_runs s = pinger_step s"

fun conn_run :: "('b \<Rightarrow> 'b backend_call) \<Rightarrow> event list \<Rightarrow> 'b connection \<Rightarrow> 'b connection option" where
  "conn_run bk [] s = Some s"
| "conn_run bk (e # es) s = (case conn_step bk e s of None \<Rightarrow> None | Some s' \<Rightarrow> conn_run bk es s')"

inductive conn_reach :: "websocket_proxy \<Rightarrow> ('b \<Rightarrow> 'b backend_call) \<Rightarrow> 'b connection \<Rightarrow> bool"
  for p bk where
  upgraded: "conn_reach p bk (open_connection p clientStreaming b)"
| step: "conn_reach p bk s \<Longrightarrow> conn_step bk e s = Some s' \<Longrightarrow> conn_reach p bk s'"

lemma conn_run_reach: "conn_reach p bk s \<Longrightarrow> conn_run bk es s = Some s' \<Longrightarrow> conn_reach p bk s'"
  by (induction es arbitrary: s) (auto split: option.splits intro: conn_reach.step)

lemma conn_run_append:
  "conn_run bk (es @ es') s = (case conn_run bk es s of None \<Rightarrow> None | Some s' \<Rightarrow> conn_run bk es' s')"
  by (induction es arbitrary: s) (auto split: option.splits)

lemmas goroutine_defs = closer_step_def handler_step_def reader_step_def forward_step_def
  sender_step_def ping_tick_def pinger_step_def CloseWriter_def

end
