(* ===== verification/WebsocketMessages.thy ===== *)
theory WebsocketMessages
  imports WebsocketConnection
begin

text \<open>
  What a WebSocket connection carries, by invariants of its steps: the messages the client gets are
  the lines of the answer, none of them lost when nothing fails, and the body the REST proxy reads is
  what \<^const>\<open>forward_loop\<close> makes of the messages. The concurrent goroutines thus do what the loops of
  \<open>WebsocketProxy\<close> say, up to where they have got.
\<close>

section \<open>What the steps leave alone\<close>

lemma rw_Close_Returns:
  "rw_Close w = Returns w' \<longleftrightarrow>
     (\<exists>c. chan_send True (closed w) = Returns c \<and> w' = w\<lparr>pipe_closed := True, closed := c\<rparr>)"
  by (auto simp: rw_Close_def outcome_simps)

text \<open>The lines scanned so far, the last of which may have come without a newline.\<close>

definition answer_lines :: "'b connection \<Rightarrow> string list" where
  "answer_lines s = full_lines s @ (case last_line s of None \<Rightarrow> [] | Some l \<Rightarrow> [l])"

definition scan_ok :: "'b connection \<Rightarrow> bool" where
  "scan_ok s \<longleftrightarrow>
     (last_line s = None \<longrightarrow>
        written (forwarder s) = concat (map (\<lambda>l. l @ [newline]) (full_lines s)) @ scan_buf s) \<and>
     (\<forall>l. last_line s = Some l \<longrightarrow>
        written (forwarder s) = concat (map (\<lambda>l. l @ [newline]) (full_lines s)) @ l \<and>
        l \<noteq> [] \<and> newline \<notin> set l \<and> length l < MaxScanTokenSize \<and> scan_buf s = [] \<and> scan_err s \<noteq> None) \<and>
     (\<forall>l \<in> set (full_lines s). newline \<notin> set l \<and> length l < MaxScanTokenSize) \<and>
     (scan_err s \<noteq> None \<longrightarrow> newline \<notin> set (scan_buf s) \<and> length (scan_buf s) < MaxScanTokenSize) \<and>
     length (scan_buf s) \<le> MaxScanTokenSize"

lemma takeWhile_newline:
  assumes "newline \<in> set b"
  shows "b = takeWhile (\<lambda>c. c \<noteq> newline) b @ newline # drop (Suc (length (takeWhile (\<lambda>c. c \<noteq> newline) b))) b"
  using assms
proof (induction b)
  case (Cons c b)
  then show ?case by (cases "c = newline") auto
qed simp

lemma fill_cases [consumes 1, case_names closed idle bytes]:
  assumes "fill n s = Some s'"
  obtains "pipe_closed (forwarder s)" "s' = s\<lparr>scan_err := Some ErrClosedPipe\<rparr>"
  | "\<not> pipe_closed (forwarder s)" "answer_offer s = Some []"
      "s' = s\<lparr>answer_offer := None, empty_reads := Suc (empty_reads s),
         scan_err := (if 100 \<le> empty_reads s then Some ErrNoProgress else None)\<rparr>"
  | p where "\<not> pipe_closed (forwarder s)" "answer_offer s = Some p" "p \<noteq> []" "0 < n" "n \<le> length p"
      "n \<le> room s"
      "s' = s\<lparr>answer_offer := left_over n p, empty_reads := 0,
         forwarder := (forwarder s)\<lparr>written := written (forwarder s) @ take n p\<rparr>,
         scan_buf := scan_buf s @ take n p\<rparr>"
  using assms unfolding fill_def by (simp split: if_splits option.splits list.splits)

lemma scan_ok_scan_step:
  assumes "scan_ok s" and "scan_step n s = Some s'"
  shows "scan_ok s'"
proof (cases "newline \<in> set (scan_buf s)")
  case True
  obtain l r where l: "l = takeWhile (\<lambda>c. c \<noteq> newline) (scan_buf s)"
    and r: "r = drop (Suc (length l)) (scan_buf s)" by blast
  have b: "scan_buf s = l @ newline # r" unfolding r unfolding l by (rule takeWhile_newline [OF True])
  have nl: "newline \<notin> set l" unfolding l by (auto dest: set_takeWhileD)
  have none: "last_line s = None" "scan_err s = None"
    using assms(1) True by (auto simp: scan_ok_def)
  have s': "s' = deliver (drop_CR l) (s\<lparr>scan_buf := r, full_lines := full_lines s @ [l]\<rparr>)"
    using assms(2) True by (simp add: scan_step_def Let_def r l)
  show ?thesis using assms(1) none nl unfolding scan_ok_def s' deliver_def by (simp add: b)
next
  case False
  note no_nl = False
  show ?thesis
  proof (cases "scan_err s")
    case None
    then have last: "last_line s = None" using assms(1) by (auto simp: scan_ok_def)
    show ?thesis
    proof (cases "MaxScanTokenSize \<le> length (scan_buf s)")
      case True
      with assms no_nl None last show ?thesis by (auto simp: scan_step_def scan_ok_def)
    next
      case False
      from False no_nl None assms(2) have "fill n s = Some s'" by (simp add: scan_step_def)
      then show ?thesis
      proof (cases rule: fill_cases)
        case closed
        then show ?thesis using assms(1) False no_nl last by (simp add: scan_ok_def)
      next
        case idle
        then show ?thesis using assms(1) False no_nl last None by (simp add: scan_ok_def)
      next
        case (bytes p)
        then show ?thesis using assms(1) last None by (simp add: scan_ok_def room_def)
      qed
    qed
  next
    case (Some e)
    with assms no_nl show ?thesis
      by (cases "scan_buf s = []") (auto simp: scan_step_def scan_ok_def deliver_def split: option.splits)
  qed
qed

text \<open>Only the sender changes the scanner, what has been sent, and whether the connection is open.\<close>

definition scanner :: "'b connection \<Rightarrow> _" where
  "scanner s = (written (forwarder s), full_lines s, last_line s, scan_buf s, scan_err s, sender s,
     sent_messages s, write_broken s, conn_open s)"

lemma keeps_scanner:
  assumes "conn_step bk e s = Some s'" and "\<And>n r. e \<noteq> Sender_runs n r"
  shows "scanner s' = scanner s"
proof (cases e)
  case Closer_runs
  with assms(1) show ?thesis
    by (auto simp: closer_step_def CloseWriter_def rw_Close_Returns scanner_def split: closer_pc.splits if_splits outcome.splits)
next
  case Handler_runs
  with assms(1) show ?thesis
    by (auto simp: handler_step_def scanner_def split: option.splits backend_call.splits if_splits)
next
  case (Reader_runs hand fails)
  with assms(1) show ?thesis
    by (auto simp: reader_step_def scanner_def split: reader_pc.splits if_splits list.splits outcome.splits)
next
  case (Forwarder_runs receive)
  with assms(1) show ?thesis
    by (auto simp: forward_step_def scanner_def CloseWriter_def split: forward_pc.splits if_splits option.splits outcome.splits)
qed (use assms in \<open>auto simp: ping_tick_def pinger_step_def scanner_def split: if_splits\<close>)

lemma scan_ok_scanner: "scanner s' = scanner s \<Longrightarrow> scan_ok s' = scan_ok s"
  by (simp add: scanner_def scan_ok_def)

lemma sender_cases [consumes 1, case_names scan sent failed check leaving closing]:
  assumes "sender_step n r s = Some s'"
  obtains "sender s = Scan_line" "scan_step n s = Some s'"
  | l where "sender s = Send_message l" "conn_open s" "\<not> write_broken s"
      "s' = s\<lparr>sent_messages := sent_messages s @ [l], last_err := None, sender := Send_check\<rparr>"
  | l e where "sender s = Send_message l"
      "s' = s\<lparr>write_broken := True, last_err := Some e, sender := Send_check\<rparr>"
  | "sender s = Send_check" "s' = s\<lparr>sender := (if last_err s \<noteq> None then Send_leaving else Scan_line)\<rparr>"
  | "sender s = Send_leaving" "s' = s\<lparr>ctx_done := True, sender := Send_closing\<rparr>"
  | "sender s = Send_closing" "s' = s\<lparr>conn_open := False, sender := Send_ended\<rparr>"
  using assms unfolding sender_step_def by (auto split: sender_pc.splits option.splits if_splits)

lemma scan_ok_step:
  assumes "scan_ok s" and "conn_step bk e s = Some s'"
  shows "scan_ok s'"
proof (cases "\<exists>n r. e = Sender_runs n r")
  case True
  with assms(2) obtain n r where "sender_step n r s = Some s'" by auto
  then show ?thesis
  proof (cases rule: sender_cases)
    case scan
    with scan_ok_scan_step assms(1) show ?thesis by blast
  qed (use assms(1) in \<open>simp_all add: scan_ok_def\<close>)
next
  case False
  with assms keeps_scanner scan_ok_scanner show ?thesis by metis
qed

text \<open>What the successful writes of the REST proxy have handed over has been read; a write that is
  under way has handed over what is not on offer any more.\<close>

definition offer :: "string option \<Rightarrow> string" where
  "offer w = (case w of None \<Rightarrow> [] | Some b \<Rightarrow> b)"

lemma offer_simps [simp]: "offer None = []" "offer (Some b) = b"
  by (simp_all add: offer_def)

lemma offer_left_over [simp]: "offer (left_over n b) = drop n b"
  by (simp add: left_over_def)

definition writes_ok :: "('b \<Rightarrow> 'b backend_call) \<Rightarrow> 'b connection \<Rightarrow> bool" where
  "writes_ok bk s \<longleftrightarrow>
     prefix (accepted s) (written (forwarder s)) \<and>
     (in_write s \<longrightarrow> (\<exists>b w k. handler s = Some b \<and> bk b = Write_answer w k \<and>
        accepted s @ w = written (forwarder s) @ offer (answer_offer s))) \<and>
     (\<not> in_write s \<longrightarrow> answer_offer s = None \<and>
        (\<not> pipe_closed (forwarder s) \<longrightarrow> accepted s = written (forwarder s)))"

lemma scan_step_writes:
  assumes "writes_ok bk s" and "scan_step n s = Some s'"
  shows "writes_ok bk s'"
proof -
  from assms(2) consider "answer_offer s' = answer_offer s" "forwarder s' = forwarder s" "in_write s' = in_write s"
      "handler s' = handler s" "accepted s' = accepted s"
    | "fill n s = Some s'"
    unfolding scan_step_def deliver_def by (auto simp: Let_def split: if_splits)
  then show ?thesis
  proof cases
    case 2
    then show ?thesis
      by (cases rule: fill_cases) (use assms(1) in \<open>auto simp: writes_ok_def intro: prefix_append\<close>)
  qed (use assms(1) in \<open>simp add: writes_ok_def\<close>)
qed

lemma writes_ok_step:
  assumes "writes_ok bk s" and "conn_step bk e s = Some s'"
  shows "writes_ok bk s'"
proof (cases e)
  case Closer_runs
  with assms show ?thesis
    by (auto simp: closer_step_def CloseWriter_def rw_Close_Returns writes_ok_def
        split: closer_pc.splits if_splits outcome.splits)
next
  case Handler_runs
  with assms show ?thesis
    by (auto simp: handler_step_def writes_ok_def split: option.splits backend_call.splits if_splits)
next
  case (Reader_runs hand fails)
  with assms show ?thesis
    by (auto simp: reader_step_def writes_ok_def split: reader_pc.splits if_splits list.splits outcome.splits)
next
  case (Forwarder_runs receive)
  with assms show ?thesis
    by (auto simp: forward_step_def writes_ok_def CloseWriter_def
        split: forward_pc.splits if_splits option.splits outcome.splits)
next
  case (Sender_runs n r)
  with assms(2) have "sender_step n r s = Some s'" by simp
  then show ?thesis
  proof (cases rule: sender_cases)
    case scan
    with scan_step_writes assms(1) show ?thesis by blast
  qed (use assms(1) in \<open>simp_all add: writes_ok_def\<close>)
qed (use assms in \<open>auto simp: ping_tick_def pinger_step_def writes_ok_def split: if_splits\<close>)

text \<open>What has been sent are the lines scanned, none empty, but the one that is being sent. Once a
  write has failed no more is sent; and the write loop ends when the scanner is done, unless a
  write, of its own or of the forward loop, has failed.\<close>

abbreviation nonempty :: "string list \<Rightarrow> string list" where
  "nonempty \<equiv> filter (\<lambda>l. l \<noteq> [])"

definition scan_over :: "'b connection \<Rightarrow> bool" where
  "scan_over s \<longleftrightarrow>
     newline \<notin> set (scan_buf s) \<and>
     (scan_err s \<noteq> None \<and> scan_buf s = [] \<or> MaxScanTokenSize \<le> length (scan_buf s))"

primrec in_hand :: "sender_pc \<Rightarrow> string list" where
  "in_hand Scan_line = []"
| "in_hand (Send_message l) = [l]"
| "in_hand Send_check = []"
| "in_hand Send_leaving = []"
| "in_hand Send_closing = []"
| "in_hand Send_ended = []"

definition sent_ok :: "'b connection \<Rightarrow> bool" where
  "sent_ok s \<longleftrightarrow>
     (\<exists>ls. nonempty (map drop_CR (answer_lines s)) = ls @ in_hand (sender s) \<and>
       prefix (sent_messages s) ls \<and> (\<not> write_broken s \<longrightarrow> sent_messages s = ls)) \<and>
     (sender s \<in> {Send_leaving, Send_closing, Send_ended} \<longrightarrow>
        write_broken s \<or> forward_failed s \<or> scan_over s)"

definition err_ok :: "'b connection \<Rightarrow> bool" where
  "err_ok s \<longleftrightarrow> (last_err s \<noteq> None \<longrightarrow> write_broken s \<or> forward_failed s)"

lemma forward_failed_stays:
  assumes "conn_step bk e s = Some s'" and "forward_failed s"
  shows "forward_failed s'"
proof (cases e)
  case Closer_runs
  with assms show ?thesis by (auto simp: closer_step_def CloseWriter_def split: closer_pc.splits if_splits outcome.splits)
next
  case Handler_runs
  with assms show ?thesis by (auto simp: handler_step_def split: option.splits backend_call.splits if_splits)
next
  case (Reader_runs hand fails)
  with assms show ?thesis by (auto simp: reader_step_def split: reader_pc.splits if_splits list.splits outcome.splits)
next
  case (Forwarder_runs receive)
  with assms show ?thesis
    by (auto simp: forward_step_def CloseWriter_def split: forward_pc.splits if_splits option.splits outcome.splits)
next
  case (Sender_runs n r)
  with assms(1) have "sender_step n r s = Some s'" by simp
  then show ?thesis
  proof (cases rule: sender_cases)
    case scan
    with assms(2) show ?thesis
      by (auto simp: scan_step_def deliver_def fill_def Let_def split: if_splits option.splits list.splits)
  qed (use assms(2) in simp_all)
qed (use assms in \<open>auto simp: ping_tick_def pinger_step_def split: if_splits\<close>)

lemma sent_ok_scanner:
  "sent_ok s \<Longrightarrow> scanner s' = scanner s \<Longrightarrow> (forward_failed s \<Longrightarrow> forward_failed s') \<Longrightarrow> sent_ok s'"
  by (auto simp: sent_ok_def scanner_def answer_lines_def scan_over_def)

text \<open>What a step of the scanner hands to the write loop.\<close>

lemma scan_step_cases [consumes 1, case_names line last over read]:
  assumes "scan_step n s = Some s'"
  obtains l r where "scan_buf s = l @ newline # r" "newline \<notin> set l"
      "s' = deliver (drop_CR l) (s\<lparr>scan_buf := r, full_lines := full_lines s @ [l]\<rparr>)"
  | "newline \<notin> set (scan_buf s)" "scan_err s \<noteq> None" "scan_buf s \<noteq> []"
      "s' = deliver (drop_CR (scan_buf s)) (s\<lparr>scan_buf := [], last_line := Some (scan_buf s)\<rparr>)"
  | "scan_over s" "s' = s\<lparr>sender := Send_leaving\<rparr>"
  | "newline \<notin> set (scan_buf s)" "scan_err s = None" "length (scan_buf s) < MaxScanTokenSize" "fill n s = Some s'"
proof (cases "newline \<in> set (scan_buf s)")
  case True
  let ?l = "takeWhile (\<lambda>c. c \<noteq> newline) (scan_buf s)"
  have "newline \<notin> set ?l" by (auto dest: set_takeWhileD)
  with that(1) [OF takeWhile_newline [OF True]] assms True show ?thesis by (simp add: scan_step_def Let_def)
next
  case False
  with assms that(2-4) show ?thesis
    by (auto simp: scan_step_def scan_over_def split: if_splits)
qed

lemma sent_ok_scan_step:
  assumes "sent_ok s" "scan_ok s" "scan_step n s = Some s'" "sender s = Scan_line"
  shows "sent_ok s'"
  using assms(3)
proof (cases rule: scan_step_cases)
  case (line l r)
  have "last_line s = None" using assms(2) line(1) by (cases "last_line s") (auto simp: scan_ok_def)
  with line assms(1,4) show ?thesis by (auto simp: sent_ok_def deliver_def answer_lines_def)
next
  case last
  have "last_line s = None" using assms(2) last(3) by (cases "last_line s") (auto simp: scan_ok_def)
  with last assms(1,4) show ?thesis by (auto simp: sent_ok_def deliver_def answer_lines_def)
next
  case over
  with assms(1,4) show ?thesis by (auto simp: sent_ok_def answer_lines_def scan_over_def)
next
  case read
  from read(4) show ?thesis
    by (cases rule: fill_cases) (use assms(1,4) in \<open>auto simp: sent_ok_def answer_lines_def\<close>)
qed

lemma sent_ok_step:
  assumes "sent_ok s" "scan_ok s" "err_ok s" "conn_step bk e s = Some s'"
  shows "sent_ok s'"
proof (cases "\<exists>n r. e = Sender_runs n r")
  case True
  with assms(4) obtain n r where "sender_step n r s = Some s'" by auto
  then show ?thesis
  proof (cases rule: sender_cases)
    case scan
    with sent_ok_scan_step assms(1,2) show ?thesis by blast
  next
    case (failed l e)
    with assms(1) show ?thesis by (auto simp: sent_ok_def answer_lines_def scan_over_def)
  next
    case check
    with assms(1,3) show ?thesis by (auto simp: sent_ok_def answer_lines_def scan_over_def err_ok_def)
  qed (use assms(1) in \<open>auto simp: sent_ok_def answer_lines_def scan_over_def\<close>)
next
  case False
  with assms(4) have "scanner s' = scanner s" by (intro keeps_scanner) auto
  with sent_ok_scanner [OF assms(1)] forward_failed_stays [OF assms(4)] show ?thesis by blast
qed

lemma err_ok_step:
  assumes "err_ok s" and "conn_step bk e s = Some s'"
  shows "err_ok s'"
proof (cases e)
  case Closer_runs
  with assms show ?thesis
    by (auto simp: closer_step_def CloseWriter_def err_ok_def split: closer_pc.splits if_splits outcome.splits)
next
  case Handler_runs
  with assms show ?thesis
    by (auto simp: handler_step_def err_ok_def split: option.splits backend_call.splits if_splits)
next
  case (Reader_runs hand fails)
  with assms show ?thesis
    by (auto simp: reader_step_def err_ok_def split: reader_pc.splits if_splits list.splits outcome.splits)
next
  case (Forwarder_runs receive)
  with assms show ?thesis
    by (auto simp: forward_step_def CloseWriter_def err_ok_def
        split: forward_pc.splits if_splits option.splits outcome.splits)
next
  case (Sender_runs n r)
  with assms(2) have "sender_step n r s = Some s'" by simp
  then show ?thesis
  proof (cases rule: sender_cases)
    case scan
    from scan(2) show ?thesis
    proof (cases rule: scan_step_cases)
      case read
      from read(4) show ?thesis by (cases rule: fill_cases) (use assms(1) in \<open>auto simp: err_ok_def\<close>)
    qed (use assms(1) in \<open>auto simp: err_ok_def deliver_def\<close>)
  qed (use assms(1) in \<open>simp_all add: err_ok_def\<close>)
qed (use assms in \<open>auto simp: ping_tick_def pinger_step_def err_ok_def split: if_splits\<close>)

definition answer_ok :: "('b \<Rightarrow> 'b backend_call) \<Rightarrow> 'b connection \<Rightarrow> bool" where
  "answer_ok bk s \<longleftrightarrow> scan_ok s \<and> writes_ok bk s \<and> sent_ok s \<and> err_ok s"

lemma answer_ok_reachable: "conn_reach p bk s \<Longrightarrow> answer_ok bk s"
proof (induction rule: conn_reach.induct)
  case (upgraded clientStreaming b)
  show ?case
    by (simp add: answer_ok_def scan_ok_def writes_ok_def sent_ok_def err_ok_def open_connection_def
        newResponseForwardingWriter_def answer_lines_def)
next
  case (step s e s')
  then show ?case
    using scan_ok_step writes_ok_step sent_ok_step err_ok_step unfolding answer_ok_def by blast
qed

section \<open>The answer\<close>

lemma split_lines:
  "\<forall>l \<in> set ls. newline \<notin> set l \<Longrightarrow>
     split newline (concat (map (\<lambda>l. l @ [newline]) ls) @ b) = ls @ split newline b"
  by (induction ls) (simp_all add: split_append)

lemma takeWhile_all: "\<forall>x \<in> set xs. P x \<Longrightarrow> takeWhile P (xs @ ys) = xs @ takeWhile P ys"
  by (induction xs) auto

text \<open>The lines scanned are a prefix of the lines \<^const>\<open>scan_lines\<close> finds in what has been read,
  and they are all of them when the scanner is done.\<close>

lemma scanned_lines:
  assumes "scan_ok s"
  shows "prefix (map drop_CR (answer_lines s)) (fst (scan_lines (written (forwarder s))))"
    and "scan_over s \<Longrightarrow> map drop_CR (answer_lines s) = fst (scan_lines (written (forwarder s)))"
proof -
  let ?P = "\<lambda>l. length l < MaxScanTokenSize"
  have full: "\<forall>l \<in> set (full_lines s). newline \<notin> set l" "\<forall>l \<in> set (full_lines s). ?P l"
    using assms by (simp_all add: scan_ok_def)
  let ?rest = "case last_line s of None \<Rightarrow> scan_buf s | Some l \<Rightarrow> l"
  have w: "written (forwarder s) = concat (map (\<lambda>l. l @ [newline]) (full_lines s)) @ ?rest"
    using assms by (auto simp: scan_ok_def split: option.split)
  let ?ls = "split newline ?rest"
  have ne: "?ls \<noteq> []" by (rule split_not_Nil)
  have lines: "fst (scan_lines (written (forwarder s))) =
      map drop_CR (full_lines s) @ map drop_CR (takeWhile ?P (if last ?ls = [] then butlast ?ls else ?ls))"
    unfolding w scan_lines_def split_lines [OF full(1)]
    using ne by (simp add: Let_def butlast_append takeWhile_all [OF full(2)])
  have last: "?ls = [l] \<and> l \<noteq> [] \<and> ?P l" if "last_line s = Some l" for l
    using that assms by (auto simp: scan_ok_def split_word)
  show "prefix (map drop_CR (answer_lines s)) (fst (scan_lines (written (forwarder s))))"
    unfolding lines using last by (cases "last_line s") (auto simp: answer_lines_def)
  assume over: "scan_over s"
  have "takeWhile ?P (if last ?ls = [] then butlast ?ls else ?ls) = []" if "last_line s = None"
    using over that assms by (auto simp: scan_over_def split_word)
  then show "map drop_CR (answer_lines s) = fst (scan_lines (written (forwarder s)))"
    unfolding lines using last by (cases "last_line s") (auto simp: answer_lines_def)
qed

lemma write_loop_ok: "write_loop (\<lambda>_. None) ls = nonempty ls"
  by (induction ls) auto

text \<open>
  C31. What a client of a connection gets are lines of the answer: at any moment the messages sent are
  a prefix of those the write loop would send for what has been read of the answer, which everything
  the REST proxy has written with success is a part of. When the write loop has ended and neither a write to the client
  nor one of the forward loop has failed, none is missing, although the end of the answer cancels
  the context that everything else hangs on.
\<close>

theorem no_line_of_the_answer_is_lost:
  assumes "conn_reach p bk s"
  shows "prefix (sent_messages s) (write_loop (\<lambda>_. None) (fst (scan_lines (written (forwarder s))))) \<and>
    prefix (accepted s) (written (forwarder s)) \<and>
    (handler s = None \<and> \<not> pipe_closed (forwarder s) \<longrightarrow> accepted s = written (forwarder s)) \<and>
    (sender s = Send_ended \<and> \<not> write_broken s \<and> \<not> forward_failed s \<longrightarrow>
       sent_messages s = write_loop (\<lambda>_. None) (fst (scan_lines (written (forwarder s)))))"
proof -
  have ok: "scan_ok s" "writes_ok bk s" "sent_ok s"
    using answer_ok_reachable [OF assms] by (simp_all add: answer_ok_def)
  from ok(3) obtain ls where ls: "nonempty (map drop_CR (answer_lines s)) = ls @ in_hand (sender s)"
      "prefix (sent_messages s) ls" "\<not> write_broken s \<Longrightarrow> sent_messages s = ls"
    by (auto simp: sent_ok_def)
  from scanned_lines(1) [OF ok(1)]
  have "prefix (nonempty (map drop_CR (answer_lines s))) (nonempty (fst (scan_lines (written (forwarder s)))))"
    by (rule filter_mono_prefix)
  with ls(1,2) have "prefix (sent_messages s) (nonempty (fst (scan_lines (written (forwarder s)))))"
    by (metis prefix_order.trans prefixI)
  moreover have "sent_messages s = nonempty (fst (scan_lines (written (forwarder s))))"
    if "sender s = Send_ended" "\<not> write_broken s" "\<not> forward_failed s"
    using that ls(1,3) ok(3) scanned_lines(2) [OF ok(1)] by (auto simp: sent_ok_def)
  ultimately show ?thesis using ok(2) by (auto simp: write_loop_ok writes_ok_def)
qed

section \<open>The request\<close>

text \<open>What the forward loop has written of the body, by where it is, when the pipe has not been
  closed: \<open>done\<close> are the messages it is through with, \<open>p\<close> the one it has in hand.\<close>

abbreviation body_of :: "string list \<Rightarrow> string" where
  "body_of ms \<equiv> concat (map (\<lambda>m. m @ [newline]) ms)"

abbreviation received :: "'b connection \<Rightarrow> string list" where
  "received s \<equiv> chan_taken (payloadChannel s)"

text \<open>The messages that make the body: all of them or the first.\<close>

definition meant :: "'b connection \<Rightarrow> string list" where
  "meant s = (if client_streaming s then received s else take 1 (received s))"

definition body_prefix :: "'b connection \<Rightarrow> bool" where
  "body_prefix s \<longleftrightarrow> prefix (body_read s) (body_of (meant s))"

definition fresh_turn :: "'b connection \<Rightarrow> bool" where
  "fresh_turn s \<longleftrightarrow> received s \<noteq> [] \<and> (\<not> client_streaming s \<longrightarrow> length (received s) = 1)"

definition body_open :: "'b connection \<Rightarrow> bool" where
  "body_open s \<longleftrightarrow>
     (case fwd s of
        Fwd_select \<Rightarrow> body_offer s = None \<and> body_read s = body_of (received s) \<and>
          (\<not> client_streaming s \<longrightarrow> received s = [])
      | Fwd_write p \<Rightarrow> body_offer s = None \<and> fresh_turn s \<and> last (received s) = p \<and>
          body_read s = body_of (butlast (received s))
      | Fwd_writing \<Rightarrow> fresh_turn s \<and>
          body_read s @ offer (body_offer s) = body_of (butlast (received s)) @ last (received s)
      | Fwd_check \<Rightarrow> body_offer s = None \<and> fresh_turn s \<and>
          body_read s = body_of (butlast (received s)) @ last (received s)
      | Fwd_newline \<Rightarrow> body_offer s = None \<and> fresh_turn s \<and>
          body_read s = body_of (butlast (received s)) @ last (received s)
      | Fwd_newline_writing \<Rightarrow> fresh_turn s \<and>
          body_read s @ offer (body_offer s) = body_of (received s)
      | Fwd_after \<Rightarrow> body_offer s = None \<and> fresh_turn s \<and> body_read s = body_of (received s)
      | Fwd_ended \<Rightarrow> body_offer s = None)"

definition body_ok :: "'b connection \<Rightarrow> bool" where
  "body_ok s \<longleftrightarrow>
     body_prefix s \<and> (\<not> body_closed s \<longrightarrow> body_open s) \<and>
     (body_closed s \<and> \<not> ctx_done s \<longrightarrow>
        \<not> client_streaming s \<and> received s \<noteq> [] \<and> body_read s = hd (received s) @ [newline]) \<and>
     (closer s \<noteq> Close_awaits \<longrightarrow> ctx_done s) \<and> \<not> chan_reader (payloadChannel s)"

text \<open>Only the forward loop and the REST proxy's reads change what is known of the body.\<close>

definition body_state :: "'b connection \<Rightarrow> _" where
  "body_state s = (received s, client_streaming s, body_offer s, body_read s, body_closed s, fwd s)"

lemma body_ok_frame:
  assumes "body_ok s" and "body_state s' = body_state s" and "ctx_done s \<Longrightarrow> ctx_done s'"
    and "closer s' \<noteq> Close_awaits \<Longrightarrow> ctx_done s'" and "\<not> chan_reader (payloadChannel s')"
  shows "body_ok s'"
proof -
  have eqs: "received s' = received s" "client_streaming s' = client_streaming s" "body_offer s' = body_offer s"
      "body_read s' = body_read s" "body_closed s' = body_closed s" "fwd s' = fwd s"
    using assms(2) by (simp_all add: body_state_def)
  have "body_open s' = body_open s" unfolding body_open_def fresh_turn_def eqs ..
  with assms show ?thesis by (auto simp: body_ok_def body_prefix_def meant_def eqs)
qed

lemma chan_taken_send:
  "chan_send v c = Returns c' \<Longrightarrow> chan_reader c = False \<Longrightarrow> chan_taken c' = chan_taken c"
  by (auto simp: chan_send_def split: if_splits)

lemma chan_taken_close: "chan_close c = Returns c' \<Longrightarrow> chan_taken c' = chan_taken c"
  by (auto simp: chan_close_def split: if_splits)

lemma chan_taken_recv:
  "chan_recv c = Returns (Some v, c') \<Longrightarrow> chan_taken c' = chan_taken c @ [v]"
  by (auto simp: chan_recv_def split: list.splits if_splits)


lemma chan_reader_close: "chan_close c = Returns c' \<Longrightarrow> chan_reader c' = chan_reader c"
  by (auto simp: chan_close_def split: if_splits)

lemma chan_reader_recv: "chan_recv c = Returns (v, c') \<Longrightarrow> chan_reader c' = chan_reader c"
  by (auto simp: chan_recv_def split: list.splits if_splits)

lemma fresh_append:
  "received s = ms @ [m] \<Longrightarrow> fresh_turn s \<longleftrightarrow> (\<not> client_streaming s \<longrightarrow> ms = [])"
  by (auto simp: fresh_turn_def)

lemma body_open_prefix:
  assumes "body_open s" and "body_prefix s"
  shows "fwd s \<noteq> Fwd_ended \<Longrightarrow> prefix (body_read s @ offer (body_offer s)) (body_of (meant s))"
proof -
  assume "fwd s \<noteq> Fwd_ended"
  have turn: "meant s = received s \<and> (\<exists>ms m. received s = ms @ [m])" if "fresh_turn s"
    using that by (cases "received s" rule: rev_cases) (auto simp: fresh_turn_def meant_def)
  show ?thesis
    using assms(1) turn \<open>fwd s \<noteq> Fwd_ended\<close>
    by (cases "fwd s") (auto simp: body_open_def meant_def)
qed

lemma body_ok_handler:
  assumes "body_ok s" and "handler_step bk s = Some s'"
  shows "body_ok s'"
proof -
  obtain b where b: "handler s = Some b" using assms(2) by (auto simp: handler_step_def split: option.splits)
  show ?thesis
  proof (cases "body_state s' = body_state s")
    case True
    then have "ctx_done s \<Longrightarrow> ctx_done s'" "closer s' = closer s" "payloadChannel s' = payloadChannel s"
      using assms(2) by (auto simp: handler_step_def split: option.splits backend_call.splits if_splits)
    with body_ok_frame [OF assms(1) True] assms(1) show ?thesis by (simp add: body_ok_def)
  next
    case False
    then obtain n k p where bk: "bk b = Read_body n k" and p: "body_offer s = Some p" "\<not> body_closed s"
      and s': "s' = s\<lparr>handler := Some (k (Some (take n p))), body_offer := left_over n p, body_read := body_read s @ take n p\<rparr>"
      using assms(2) b by (auto simp: handler_step_def body_state_def split: backend_call.splits if_splits option.splits)
    have o: "body_open s" using assms(1) p by (simp add: body_ok_def)
    have fwd: "fwd s = Fwd_writing \<or> fwd s = Fwd_newline_writing"
      using o p by (cases "fwd s") (simp_all add: body_open_def)
    have "body_open s'"
      using o p fwd by (auto simp: body_open_def s' fresh_turn_def)
    moreover have "body_prefix s'"
      using body_open_prefix [OF o] assms(1) p fwd
      by (auto simp: body_ok_def body_prefix_def s' meant_def dest: append_prefixD)
        (metis append_take_drop_id append_assoc append_prefixD)+
    ultimately show ?thesis using assms(1) p by (simp add: body_ok_def s')
  qed
qed


lemma forward_cases [consumes 1, case_names receive chan_over ctx_over offered refused taken cut err go_on
    newline newline_closed newline_taken newline_cut after]:
  assumes "forward_step receive s = Some s'"
  obtains p c where "fwd s = Fwd_select" "chan_recv (payloadChannel s) = Returns (Some p, c)"
      "s' = s\<lparr>payloadChannel := c, fwd := Fwd_write p\<rparr>"
  | "fwd s = Fwd_select" "s' = s\<lparr>fwd := Fwd_ended, ctx_done := True\<rparr>"
  | "fwd s = Fwd_select" "ctx_done s" "s' = s\<lparr>fwd := Fwd_ended\<rparr>"
  | p where "fwd s = Fwd_write p" "\<not> body_closed s" "s' = s\<lparr>body_offer := Some p, fwd := Fwd_writing\<rparr>"
  | p where "fwd s = Fwd_write p" "body_closed s"
      "s' = s\<lparr>last_err := Some ErrClosedPipe, forward_failed := True, fwd := Fwd_check\<rparr>"
  | "fwd s = Fwd_writing" "body_offer s = None" "s' = s\<lparr>last_err := None, fwd := Fwd_check\<rparr>"
  | "fwd s = Fwd_writing" "body_closed s"
      "s' = s\<lparr>body_offer := None, last_err := Some ErrClosedPipe, forward_failed := True, fwd := Fwd_check\<rparr>"
  | "fwd s = Fwd_check" "s' = s\<lparr>fwd := Fwd_ended, ctx_done := True\<rparr>"
  | "fwd s = Fwd_check" "s' = s\<lparr>fwd := Fwd_newline\<rparr>"
  | "fwd s = Fwd_newline" "\<not> body_closed s" "s' = s\<lparr>body_offer := Some [newline], fwd := Fwd_newline_writing\<rparr>"
  | "fwd s = Fwd_newline" "body_closed s" "s' = s\<lparr>fwd := Fwd_after\<rparr>"
  | "fwd s = Fwd_newline_writing" "body_offer s = None" "s' = s\<lparr>fwd := Fwd_after\<rparr>"
  | "fwd s = Fwd_newline_writing" "body_closed s" "s' = s\<lparr>body_offer := None, fwd := Fwd_after\<rparr>"
  | "fwd s = Fwd_after" "s' = (if client_streaming s then s else s\<lparr>body_closed := True\<rparr>)\<lparr>fwd := Fwd_select\<rparr>"
proof (cases "fwd s")
  case Fwd_select
  show ?thesis
  proof (cases receive)
    case True
    with Fwd_select assms have r: "(case chan_recv (payloadChannel s) of
        Returns (Some payload, c) \<Rightarrow> Some (s\<lparr>payloadChannel := c, fwd := Fwd_write payload\<rparr>)
      | Returns (None, c) \<Rightarrow> Some (s\<lparr>fwd := Fwd_ended, ctx_done := True\<rparr>)
      | _ \<Rightarrow> None) = Some s'" by (simp add: forward_step_def)
    then obtain v c where v: "chan_recv (payloadChannel s) = Returns (v, c)" by (auto split: outcome.splits)
    show ?thesis
    proof (cases v)
      case None
      with r v have "s' = s\<lparr>fwd := Fwd_ended, ctx_done := True\<rparr>" by simp
      then show ?thesis by (rule that(2) [OF Fwd_select])
    next
      case (Some p)
      with r v have "s' = s\<lparr>payloadChannel := c, fwd := Fwd_write p\<rparr>" by simp
      then show ?thesis by (rule that(1) [OF Fwd_select v [unfolded Some]])
    qed
  next
    case False
    with Fwd_select assms have "ctx_done s" "s' = s\<lparr>fwd := Fwd_ended\<rparr>"
      by (simp_all add: forward_step_def split: if_splits)
    then show ?thesis by (rule that(3) [OF Fwd_select])
  qed
next
  case (Fwd_write p)
  with assms show ?thesis by (cases "body_closed s") (auto simp: forward_step_def intro: that(4,5))
next
  case Fwd_writing
  with assms show ?thesis by (auto simp: forward_step_def split: if_splits intro: that(6,7))
next
  case Fwd_check
  with assms show ?thesis by (auto simp: forward_step_def split: if_splits intro: that(8,9))
next
  case Fwd_newline
  with assms show ?thesis by (auto simp: forward_step_def split: if_splits intro: that(10,11))
next
  case Fwd_newline_writing
  with assms show ?thesis by (auto simp: forward_step_def split: if_splits intro: that(12,13))
next
  case Fwd_after
  with assms have "s' = (if client_streaming s then s else s\<lparr>body_closed := True\<rparr>)\<lparr>fwd := Fwd_select\<rparr>"
    by (auto simp: forward_step_def CloseWriter_def)
  then show ?thesis by (rule that(14) [OF Fwd_after])
next
  case Fwd_ended
  with assms have False by (simp add: forward_step_def)
  then show ?thesis ..
qed

lemma meant_receive:
  "meant (s\<lparr>payloadChannel := c, fwd := f\<rparr>) =
     (if client_streaming s then chan_taken c else take 1 (chan_taken c))"
  by (simp add: meant_def)

lemma body_ok_forward:
  assumes "body_ok s" and "forward_step receive s = Some s'"
  shows "body_ok s'"
  using assms(2)
proof (cases rule: forward_cases)
  case (receive p c)
  have c: "chan_taken c = received s @ [p]" "\<not> chan_reader c"
    using chan_taken_recv [OF receive(2)] chan_reader_recv [OF receive(2)] assms(1) by (simp_all add: body_ok_def)
  have "body_prefix s'"
    using assms(1) by (cases "received s") (auto simp: body_ok_def body_prefix_def meant_def receive(3) c
        intro: prefix_order.trans)
  moreover have "\<not> body_closed s \<Longrightarrow> body_open s'"
    using assms(1) receive(1) by (auto simp: body_ok_def body_open_def receive(3) c fresh_turn_def)
  ultimately show ?thesis using assms(1) c by (auto simp: body_ok_def receive(3))
next
  case after
  have "\<not> body_closed s \<Longrightarrow> body_open s" using assms(1) by (simp add: body_ok_def)
  then have "\<not> body_closed s \<Longrightarrow> \<not> client_streaming s \<Longrightarrow> received s \<noteq> [] \<and> body_read s = hd (received s) @ [newline]"
    using after(1) by (cases "received s") (auto simp: body_open_def fresh_turn_def)
  with assms(1) after show ?thesis
    by (auto simp: body_ok_def body_prefix_def meant_def body_open_def)
next
  case chan_over
  with assms(1) show ?thesis by (auto simp: body_ok_def body_prefix_def meant_def body_open_def)
next
  case ctx_over
  with assms(1) show ?thesis by (auto simp: body_ok_def body_prefix_def meant_def body_open_def)
next
  case (offered p)
  have "body_prefix s'" using assms(1) by (auto simp: body_ok_def body_prefix_def meant_def offered)
  moreover have "body_open s'" using assms(1) offered by (simp add: body_ok_def body_open_def fresh_turn_def)
  ultimately show ?thesis using assms(1) by (simp add: body_ok_def offered)
next
  case (refused p)
  with assms(1) show ?thesis by (auto simp: body_ok_def body_prefix_def meant_def)
next
  case taken
  have "body_open s'" if "\<not> body_closed s"
    using that assms(1) taken by (simp add: body_ok_def body_open_def fresh_turn_def)
  with assms(1) taken show ?thesis by (auto simp: body_ok_def body_prefix_def meant_def)
next
  case cut
  with assms(1) show ?thesis by (auto simp: body_ok_def body_prefix_def meant_def)
next
  case err
  with assms(1) show ?thesis by (auto simp: body_ok_def body_prefix_def meant_def body_open_def)
next
  case go_on
  have "body_open s'" if "\<not> body_closed s"
    using that assms(1) go_on by (simp add: body_ok_def body_open_def fresh_turn_def)
  with assms(1) go_on show ?thesis by (auto simp: body_ok_def body_prefix_def meant_def)
next
  case newline
  have "body_of (butlast (received s)) @ last (received s) @ [WebsocketProxy.newline] = body_of (received s)"
    if "received s \<noteq> []"
    using that by (cases "received s" rule: rev_cases) simp_all
  then have "body_open s'"
    using assms(1) newline by (simp add: body_ok_def body_open_def fresh_turn_def)
  with assms(1) newline show ?thesis by (auto simp: body_ok_def body_prefix_def meant_def)
next
  case newline_closed
  with assms(1) show ?thesis by (auto simp: body_ok_def body_prefix_def meant_def)
next
  case newline_taken
  have "body_open s'" if "\<not> body_closed s"
    using that assms(1) newline_taken by (simp add: body_ok_def body_open_def fresh_turn_def)
  with assms(1) newline_taken show ?thesis by (auto simp: body_ok_def body_prefix_def meant_def)
next
  case newline_cut
  with assms(1) show ?thesis by (auto simp: body_ok_def body_prefix_def meant_def)
qed

lemma scan_step_body:
  assumes "scan_step n s = Some s'"
  shows "body_state s' = body_state s \<and> ctx_done s' = ctx_done s \<and> closer s' = closer s \<and>
    payloadChannel s' = payloadChannel s"
  using assms
proof (cases rule: scan_step_cases)
  case read
  from read(4) show ?thesis by (cases rule: fill_cases) (simp_all add: body_state_def)
qed (simp_all add: deliver_def body_state_def)

lemma reader_body:
  assumes "reader_step hand fails s = Some s'" and "\<not> chan_reader (payloadChannel s)"
  shows "body_state s' = body_state s \<and> (ctx_done s \<longrightarrow> ctx_done s') \<and> closer s' = closer s \<and>
    \<not> chan_reader (payloadChannel s')"
  using assms
  by (auto simp: reader_step_def body_state_def chan_taken_send chan_taken_close chan_reader_close chan_send_frame
      split: reader_pc.splits if_splits list.splits outcome.splits)

lemma body_ok_step:
  assumes "body_ok s" and "conn_step bk e s = Some s'"
  shows "body_ok s'"
proof (cases e)
  case Closer_runs
  have ctx: "closer s \<noteq> Close_awaits \<Longrightarrow> ctx_done s" using assms(1) by (simp add: body_ok_def)
  show ?thesis
  proof (cases "closer s")
    case Close_request
    with Closer_runs assms(2) have "s' = s\<lparr>body_closed := True, closer := Close_ended\<rparr>"
      by (simp add: closer_step_def CloseWriter_def)
    moreover from this have "body_prefix s' = body_prefix s" by (simp add: body_prefix_def meant_def)
    ultimately show ?thesis using assms(1) ctx Close_request by (simp add: body_ok_def)
  next
    case Close_response
    with Closer_runs assms ctx obtain w where "s' = s\<lparr>forwarder := w, closer := Close_request\<rparr>"
      by (auto simp: closer_step_def split: outcome.splits)
    with assms(1) ctx Close_response show ?thesis by (intro body_ok_frame [OF assms(1)]) (auto simp: body_state_def body_ok_def)
  next
    case Close_awaits
    with Closer_runs assms have "ctx_done s" "s' = s\<lparr>closer := Close_response\<rparr>"
      by (auto simp: closer_step_def split: if_splits)
    with assms(1) show ?thesis by (intro body_ok_frame [OF assms(1)]) (auto simp: body_state_def body_ok_def)
  next
    case Close_ended
    with Closer_runs assms show ?thesis by (simp add: closer_step_def)
  qed
next
  case Handler_runs
  with assms body_ok_handler show ?thesis by auto
next
  case (Reader_runs hand fails)
  with assms reader_body [of hand fails s s'] show ?thesis
    by (intro body_ok_frame [OF assms(1)]) (auto simp: body_ok_def)
next
  case (Forwarder_runs receive)
  with assms body_ok_forward show ?thesis by auto
next
  case (Sender_runs n r)
  with assms(2) have "sender_step n r s = Some s'" by simp
  then have "body_state s' = body_state s \<and> (ctx_done s \<longrightarrow> ctx_done s') \<and> closer s' = closer s \<and>
      payloadChannel s' = payloadChannel s"
    by (cases rule: sender_cases) (auto simp: body_state_def dest: scan_step_body)
  with assms(1) show ?thesis by (intro body_ok_frame [OF assms(1)]) (auto simp: body_ok_def)
next
  case (Ping_due r)
  with assms(2) have "body_state s' = body_state s \<and> ctx_done s' = ctx_done s \<and> closer s' = closer s \<and>
      payloadChannel s' = payloadChannel s"
    by (auto simp: ping_tick_def body_state_def split: if_splits)
  with assms(1) show ?thesis by (intro body_ok_frame [OF assms(1)]) (auto simp: body_ok_def)
next
  case Pinger_runs
  with assms(2) have "s' = s\<lparr>pinger := Ping_ended\<rparr>" by (simp add: pinger_step_def split: if_splits)
  with assms(1) show ?thesis by (intro body_ok_frame [OF assms(1)]) (auto simp: body_ok_def body_state_def)
next
  case (Frame_arrives f)
  with assms(2) have "s' = s\<lparr>frames_in := frames_in s @ [f]\<rparr>" by simp
  with assms(1) show ?thesis by (intro body_ok_frame [OF assms(1)]) (auto simp: body_ok_def body_state_def)
next
  case Reads_fail
  with assms(2) have "s' = s\<lparr>read_broken := True\<rparr>" by simp
  with assms(1) show ?thesis by (intro body_ok_frame [OF assms(1)]) (auto simp: body_ok_def body_state_def)
next
  case Request_cancelled
  with assms(2) have "s' = s\<lparr>ctx_done := True\<rparr>" by simp
  with assms(1) show ?thesis by (intro body_ok_frame [OF assms(1)]) (auto simp: body_ok_def body_state_def)
qed

lemma body_ok_reachable: "conn_reach p bk s \<Longrightarrow> body_ok s"
proof (induction rule: conn_reach.induct)
  case (upgraded clientStreaming b)
  show ?case
    by (simp add: body_ok_def body_prefix_def body_open_def open_connection_def make_chan_def
        newRequestForwardingReader_def)
qed (rule body_ok_step)

text \<open>
  C30. The body of the request is what the client has said: at any moment the REST proxy has read a prefix
  of the messages, each with a newline, all of them where the method streams from the client and
  the first alone where it does not, as \<^const>\<open>forward_loop\<close> makes it. And as long as the context
  is not done, the end of the body means that the first message has been read to its end; it is
  only after that a truncated message looks like a whole one.
\<close>

theorem body_is_what_the_client_said:
  assumes "conn_reach p bk s"
  shows "prefix (body_read s) (body_of (if client_streaming s then received s else take 1 (received s))) \<and>
    prefix (body_read s) (fst (forward_loop (client_streaming s) False (received s))) \<and>
    (body_closed s \<and> \<not> ctx_done s \<longrightarrow> received s \<noteq> [] \<and> body_read s = hd (received s) @ [newline])"
proof -
  have fl: "fst (forward_loop True False ms) = body_of ms" for ms
    by (induction ms) (auto simp: newline_def split: prod.split)
  have "fst (forward_loop streaming False ms) = body_of (if streaming then ms else take 1 ms)" for streaming ms
  proof (cases streaming)
    case False
    then show ?thesis by (cases ms; cases "tl ms") (auto simp: newline_def)
  qed (simp add: fl)
  with body_ok_reachable [OF assms] show ?thesis by (simp add: body_ok_def body_prefix_def meant_def)
qed

end
