(* ===== verification/WebsocketEnd.thy ===== *)
theory WebsocketEnd
  imports WebsocketMessages
begin

text \<open>
  How a WebSocket connection ends: a bound on the steps its goroutines have left once the context is
  done and the pipes are closed, and that none of them is stuck before. Two runs follow: an ordinary one, as
  the witness that the hypotheses can hold, and one in which the shared variable \<^verbatim>\<open>err\<close> costs the
  client a line.
\<close>

section \<open>The end of a connection\<close>

definition closing_ok :: "'b connection \<Rightarrow> bool" where
  "closing_ok s \<longleftrightarrow>
     (closer s \<in> {Close_awaits, Close_response} \<longrightarrow> closed (forwarder s) = make_chan 1) \<and>
     (closer s \<in> {Close_request, Close_ended} \<longrightarrow> pipe_closed (forwarder s)) \<and>
     (closer s = Close_ended \<longrightarrow> body_closed s) \<and>
     (reader s \<notin> {Read_cancelling, Read_ended} \<longrightarrow> \<not> chan_closed (payloadChannel s)) \<and>
     (sender s = Send_ended \<longrightarrow> \<not> conn_open s)"

definition ends :: "'b connection \<Rightarrow> _" where
  "ends s = (closer s, closed (forwarder s), pipe_closed (forwarder s), reader s, chan_closed (payloadChannel s),
     sender s, conn_open s)"

lemma closing_ok_frame:
  "closing_ok s \<Longrightarrow> ends s' = ends s \<Longrightarrow> (body_closed s \<Longrightarrow> body_closed s') \<Longrightarrow> closing_ok s'"
  by (auto simp: closing_ok_def ends_def)

lemma scan_step_ends:
  assumes "scan_step n s = Some s'"
  shows "body_closed s' = body_closed s \<and> closer s' = closer s \<and> closed (forwarder s') = closed (forwarder s) \<and>
    pipe_closed (forwarder s') = pipe_closed (forwarder s) \<and> reader s' = reader s \<and>
    payloadChannel s' = payloadChannel s \<and> conn_open s' = conn_open s \<and> (sender s' = Send_ended \<longrightarrow> sender s = Send_ended)"
  using assms
proof (cases rule: scan_step_cases)
  case read
  from read(4) show ?thesis by (cases rule: fill_cases) simp_all
qed (simp_all add: deliver_def)

lemma closing_ok_step:
  assumes "closing_ok s" and "conn_step bk e s = Some s'"
  shows "closing_ok s'"
proof (cases e)
  case Closer_runs
  then have c: "closer_step s = Some s'" using assms(2) by simp
  show ?thesis
  proof (cases "closer s")
    case Close_awaits
    with c have "s' = s\<lparr>closer := Close_response\<rparr>" by (simp add: closer_step_def split: if_splits)
    with assms(1) Close_awaits show ?thesis by (simp add: closing_ok_def)
  next
    case Close_response
    with c obtain w where "rw_Close (forwarder s) = Returns w" "s' = s\<lparr>forwarder := w, closer := Close_request\<rparr>"
      by (auto simp: closer_step_def split: outcome.splits)
    with assms(1) show ?thesis by (auto simp: closing_ok_def rw_Close_Returns)
  next
    case Close_request
    with c have "s' = s\<lparr>body_closed := True, closer := Close_ended\<rparr>" by (simp add: closer_step_def CloseWriter_def)
    with assms(1) Close_request show ?thesis by (simp add: closing_ok_def)
  next
    case Close_ended
    with c show ?thesis by (simp add: closer_step_def)
  qed
next
  case Handler_runs
  with assms(2) have "ends s' = ends s" "body_closed s' = body_closed s"
    by (auto simp: handler_step_def ends_def split: option.splits backend_call.splits if_splits)
  with closing_ok_frame [OF assms(1)] show ?thesis by blast
next
  case (Reader_runs hand fails)
  with assms(2) have r: "reader_step hand fails s = Some s'" by simp
  show ?thesis
  proof (cases "reader s")
    case (Hand_over p)
    with r consider c where "chan_send p (payloadChannel s) = Returns c" "s' = s\<lparr>payloadChannel := c, reader := Read_top\<rparr>"
      | "s' = s\<lparr>reader := Read_closing\<rparr>"
      by (auto simp: reader_step_def split: outcome.splits if_splits)
    then show ?thesis
    proof cases
      case (1 c)
      with assms(1) Hand_over chan_send_frame [OF 1(1)] show ?thesis by (simp add: closing_ok_def)
    qed (use assms(1) Hand_over in \<open>simp add: closing_ok_def\<close>)
  next
    case Read_message
    with r consider "s' = s\<lparr>reader := Read_closing\<rparr>"
      | fs p where "s' = s\<lparr>frames_in := fs, reader := Hand_over p\<rparr>"
      by (auto simp: reader_step_def split: if_splits list.splits)
    then show ?thesis by cases (use assms(1) Read_message in \<open>simp_all add: closing_ok_def\<close>)
  next
    case Read_closing
    with r obtain c where "s' = s\<lparr>payloadChannel := c, reader := Read_cancelling\<rparr>"
      by (auto simp: reader_step_def split: outcome.splits)
    with assms(1) show ?thesis by (simp add: closing_ok_def)
  next
    case Read_top
    with r have "s' = s\<lparr>reader := (if ctx_done s then Read_closing else Read_message)\<rparr>" by (simp add: reader_step_def)
    with assms(1) Read_top show ?thesis by (simp add: closing_ok_def)
  next
    case Read_cancelling
    with r have "s' = s\<lparr>ctx_done := True, reader := Read_ended\<rparr>" by (simp add: reader_step_def)
    with assms(1) show ?thesis by (simp add: closing_ok_def)
  next
    case Read_ended
    with r show ?thesis by (simp add: reader_step_def)
  qed
next
  case (Forwarder_runs receive)
  with assms(2) have "forward_step receive s = Some s'" by simp
  then have "ends s' = ends s \<and> (body_closed s \<longrightarrow> body_closed s')"
  proof (cases rule: forward_cases)
    case (receive p c)
    from receive(2) have "chan_closed c = chan_closed (payloadChannel s)"
      by (auto simp: chan_recv_def split: list.splits if_splits)
    with receive(3) show ?thesis by (simp add: ends_def)
  qed (auto simp: ends_def)
  with closing_ok_frame [OF assms(1)] show ?thesis by blast
next
  case (Sender_runs n r)
  with assms(2) have "sender_step n r s = Some s'" by simp
  then show ?thesis
  proof (cases rule: sender_cases)
    case scan
    note e = scan_step_ends [OF scan(2)]
    then have "sender s' \<noteq> Send_ended" using scan(1) by auto
    with e assms(1) show ?thesis by (simp add: closing_ok_def)
  qed (use assms(1) in \<open>simp_all add: closing_ok_def\<close>)
next
  case (Ping_due r)
  with assms(2) have "s' = (if r = None then s else s\<lparr>pinger := Ping_ended\<rparr>)"
    by (cases "pinger s") (simp_all add: ping_tick_def)
  with assms(1) show ?thesis by (cases r) (simp_all add: closing_ok_def)
next
  case Pinger_runs
  with assms(2) have "s' = s\<lparr>pinger := Ping_ended\<rparr>" by (simp add: pinger_step_def split: if_splits)
  with assms(1) show ?thesis by (simp add: closing_ok_def)
next
  case (Frame_arrives f)
  with assms(2) have "s' = s\<lparr>frames_in := frames_in s @ [f]\<rparr>" by simp
  with assms(1) show ?thesis by (simp add: closing_ok_def)
next
  case Reads_fail
  with assms(2) have "s' = s\<lparr>read_broken := True\<rparr>" by simp
  with assms(1) show ?thesis by (simp add: closing_ok_def)
next
  case Request_cancelled
  with assms(2) have "s' = s\<lparr>ctx_done := True\<rparr>" by simp
  with assms(1) show ?thesis by (simp add: closing_ok_def)
qed

lemma closing_ok_reachable: "conn_reach p bk s \<Longrightarrow> closing_ok s"
proof (induction rule: conn_reach.induct)
  case (upgraded clientStreaming b)
  show ?case
    by (simp add: closing_ok_def open_connection_def make_chan_def newResponseForwardingWriter_def)
qed (rule closing_ok_step)

text \<open>The context is done and both pipes are closed; that stays so.\<close>

definition cut_off :: "'b connection \<Rightarrow> bool" where
  "cut_off s \<longleftrightarrow> closer s = Close_ended \<and> ctx_done s \<and> body_closed s \<and> pipe_closed (forwarder s)"

text \<open>Bounds on the steps each goroutine has left when its pipes are closed.\<close>

primrec reader_effort :: "reader_pc \<Rightarrow> nat" where
  "reader_effort Read_top = 3"
| "reader_effort Read_message = 16"
| "reader_effort (Hand_over p) = 15"
| "reader_effort Read_closing = 2"
| "reader_effort Read_cancelling = 1"
| "reader_effort Read_ended = 0"

primrec fwd_effort :: "forward_pc \<Rightarrow> nat" where
  "fwd_effort Fwd_select = 1"
| "fwd_effort (Fwd_write p) = 8"
| "fwd_effort Fwd_writing = 7"
| "fwd_effort Fwd_check = 6"
| "fwd_effort Fwd_newline = 5"
| "fwd_effort Fwd_newline_writing = 4"
| "fwd_effort Fwd_after = 3"
| "fwd_effort Fwd_ended = 0"

primrec sender_effort :: "sender_pc \<Rightarrow> nat" where
  "sender_effort Scan_line = 4"
| "sender_effort (Send_message l) = 6"
| "sender_effort Send_check = 5"
| "sender_effort Send_leaving = 2"
| "sender_effort Send_closing = 1"
| "sender_effort Send_ended = 0"

definition handler_effort :: "('b \<Rightarrow> nat) \<Rightarrow> ('b \<Rightarrow> 'b backend_call) \<Rightarrow> bool \<Rightarrow> 'b option \<Rightarrow> nat" where
  "handler_effort rank bk writing h =
     (case h of
        None \<Rightarrow> 0
      | Some b \<Rightarrow>
          (case bk b of
             Write_answer w k \<Rightarrow> if writing then 2 + rank (k True) + rank (k False) else Suc (rank b)
           | _ \<Rightarrow> Suc (rank b)))"

definition effort :: "('b \<Rightarrow> nat) \<Rightarrow> ('b \<Rightarrow> 'b backend_call) \<Rightarrow> 'b connection \<Rightarrow> nat" where
  "effort rank bk s =
     handler_effort rank bk (in_write s) (handler s) + reader_effort (reader s) +
     (fwd_effort (fwd s) + 10 * length (chan_buf (payloadChannel s))) +
     (sender_effort (sender s) + 4 * length (scan_buf s) + (if scan_err s = None then 1 else 0)) +
     (if pinger s = Ping_loop then 1 else 0)"

text \<open>A handler that gives up: once it is told that its context is done or that a read or a write
  has failed, it makes a bounded number of further calls.\<close>

definition gives_up :: "('b \<Rightarrow> nat) \<Rightarrow> ('b \<Rightarrow> 'b backend_call) \<Rightarrow> bool" where
  "gives_up rank bk \<longleftrightarrow>
     (\<forall>b. case bk b of
            Read_body n k \<Rightarrow> rank (k None) < rank b
          | Write_answer w k \<Rightarrow> rank (k False) < rank b
          | Await_done b' \<Rightarrow> rank b' < rank b
          | Return_handler \<Rightarrow> True)"


lemma cut_off_step:
  assumes "cut_off s" and "conn_step bk e s = Some s'"
  shows "cut_off s'"
proof (cases e)
  case Handler_runs
  with assms show ?thesis
    by (auto simp: handler_step_def cut_off_def split: option.splits backend_call.splits if_splits)
next
  case (Reader_runs hand fails)
  with assms show ?thesis
    by (auto simp: reader_step_def cut_off_def split: reader_pc.splits if_splits list.splits outcome.splits)
next
  case (Forwarder_runs receive)
  with assms(2) have "forward_step receive s = Some s'" by simp
  then show ?thesis by (cases rule: forward_cases) (use assms(1) in \<open>auto simp: cut_off_def\<close>)
next
  case (Sender_runs n r)
  with assms(2) have "sender_step n r s = Some s'" by simp
  then show ?thesis
  proof (cases rule: sender_cases)
    case scan
    from scan(2) show ?thesis
    proof (cases rule: scan_step_cases)
      case read
      from read(4) show ?thesis by (cases rule: fill_cases) (use assms(1) in \<open>auto simp: cut_off_def\<close>)
    qed (use assms(1) in \<open>auto simp: cut_off_def deliver_def\<close>)
  qed (use assms(1) in \<open>auto simp: cut_off_def\<close>)
qed (use assms in \<open>auto simp: closer_step_def ping_tick_def pinger_step_def cut_off_def split: if_splits\<close>)

lemma handler_effort_step:
  assumes "gives_up rank bk" and "cut_off s" and "writes_ok bk s" and "handler_step bk s = Some s'"
  shows "effort rank bk s' < effort rank bk s"
proof -
  from assms(4) obtain b where b: "handler s = Some b" by (auto simp: handler_step_def split: option.splits)
  have small: "handler_effort rank bk False (Some b') \<le> Suc (rank b')" for b'
    by (simp add: handler_effort_def split: backend_call.split)
  have cut: "ctx_done s" "body_closed s" "pipe_closed (forwarder s)" using assms(2) by (simp_all add: cut_off_def)
  have g: "case bk b of Read_body n k \<Rightarrow> rank (k None) < rank b | Write_answer w k \<Rightarrow> rank (k False) < rank b
      | Await_done b' \<Rightarrow> rank b' < rank b | Return_handler \<Rightarrow> True"
    using assms(1) by (simp add: gives_up_def)
  have writing: "in_write s \<Longrightarrow> \<exists>w k. bk b = Write_answer w k" using assms(3) b by (auto simp: writes_ok_def)
  show ?thesis
  proof (cases "bk b")
    case (Write_answer w k)
    show ?thesis
    proof (cases "in_write s")
      case True
      then have e: "handler_effort rank bk (in_write s) (handler s) = 2 + rank (k True) + rank (k False)"
        by (simp add: handler_effort_def b Write_answer)
      from assms(4) b Write_answer True cut obtain r where h: "handler s' = Some (k r)" "in_write s' = False"
        and same: "reader s' = reader s" "fwd s' = fwd s" "payloadChannel s' = payloadChannel s" "sender s' = sender s"
          "scan_buf s' = scan_buf s" "scan_err s' = scan_err s" "pinger s' = pinger s"
        by (auto simp: handler_step_def split: if_splits)
      have "handler_effort rank bk False (Some (k r)) < 2 + rank (k True) + rank (k False)"
        using small [of "k r"] by (cases r) simp_all
      then show ?thesis by (simp add: effort_def e h same)
    next
      case False
      then have "s' = s\<lparr>handler := Some (k False)\<rparr>"
        using assms(4) b Write_answer cut by (simp add: handler_step_def)
      moreover have "handler_effort rank bk False (Some (k False)) < handler_effort rank bk False (Some b)"
        using small [of "k False"] g Write_answer by (simp add: handler_effort_def)
      ultimately show ?thesis using False b by (simp add: effort_def)
    qed
  next
    case (Read_body n k)
    then have "\<not> in_write s" using writing by auto
    moreover have "s' = s\<lparr>handler := Some (k None)\<rparr>" using assms(4) b Read_body cut by (simp add: handler_step_def)
    moreover have "handler_effort rank bk False (Some (k None)) < Suc (rank b)"
      using small [of "k None"] g Read_body by simp
    ultimately show ?thesis using b Read_body by (simp add: effort_def handler_effort_def)
  next
    case (Await_done b')
    then have "\<not> in_write s" using writing by auto
    moreover have "s' = s\<lparr>handler := Some b'\<rparr>" using assms(4) b Await_done cut by (simp add: handler_step_def)
    moreover have "handler_effort rank bk False (Some b') < Suc (rank b)"
      using small [of b'] g Await_done by simp
    ultimately show ?thesis using b Await_done by (simp add: effort_def handler_effort_def)
  next
    case Return_handler
    then have "s' = s\<lparr>handler := None, ctx_done := True\<rparr>" using assms(4) b by (simp add: handler_step_def)
    then show ?thesis using b Return_handler by (simp add: effort_def handler_effort_def)
  qed
qed

lemma closed_writes:
  "writes_ok bk s \<Longrightarrow> in_write s \<Longrightarrow> \<exists>b w k. handler s = Some b \<and> bk b = Write_answer w k"
  by (auto simp: writes_ok_def)

lemma reader_effort_step:
  assumes "cut_off s" and "\<not> chan_reader (payloadChannel s)" and "reader_step hand fails s = Some s'"
  shows "effort rank bk s' < effort rank bk s"
  using assms
  by (cases "reader s")
    (auto simp: reader_step_def effort_def cut_off_def chan_send_def chan_close_def split: if_splits list.splits outcome.splits)

lemma forward_effort_step:
  assumes "forward_step receive s = Some s'" and "cut_off s"
  shows "effort rank bk s' < effort rank bk s"
  using assms(1)
proof (cases rule: forward_cases)
  case (receive p c)
  from receive(2) have "length (chan_buf (payloadChannel s)) = Suc (length (chan_buf c))"
    by (auto simp: chan_recv_def split: list.splits if_splits)
  with receive show ?thesis by (simp add: effort_def)
qed (use assms(2) in \<open>auto simp: effort_def cut_off_def\<close>)

lemma sender_effort_step:
  assumes "sender_step n r s = Some s'" and "cut_off s"
  shows "effort rank bk s' < effort rank bk s"
  using assms(1)
proof (cases rule: sender_cases)
  case scan
  from scan(2) show ?thesis
  proof (cases rule: scan_step_cases)
    case read
    from read(4) show ?thesis by (cases rule: fill_cases) (use assms(2) read(2) scan(1) in \<open>auto simp: effort_def cut_off_def\<close>)
  next
    case (line l r)
    then show ?thesis using scan(1) by (simp add: effort_def deliver_def)
  next
    case last
    then show ?thesis using scan(1) by (cases "scan_buf s") (simp_all add: effort_def deliver_def)
  qed (use scan(1) in \<open>simp add: effort_def\<close>)
qed (auto simp: effort_def)


lemma effort_step:
  assumes "gives_up rank bk" and "cut_off s" and "answer_ok bk s" and "body_ok s"
    and "inner e" and "conn_step bk e s = Some s'"
  shows "effort rank bk s' < effort rank bk s"
proof (cases e)
  case Closer_runs
  with assms(2,6) show ?thesis by (simp add: closer_step_def cut_off_def)
next
  case Handler_runs
  with handler_effort_step [OF assms(1,2)] assms(3,6) show ?thesis by (simp add: answer_ok_def)
next
  case (Reader_runs hand fails)
  with reader_effort_step [OF assms(2)] assms(4,6) show ?thesis by (simp add: body_ok_def)
next
  case (Forwarder_runs receive)
  with forward_effort_step assms(2,6) show ?thesis by simp
next
  case (Sender_runs n r)
  with sender_effort_step assms(2,6) show ?thesis by simp
next
  case Pinger_runs
  with assms(6) show ?thesis by (auto simp: pinger_step_def effort_def split: if_splits)
qed (use assms(5) in simp_all)

definition all_ended :: "'b connection \<Rightarrow> bool" where
  "all_ended s \<longleftrightarrow> closer s = Close_ended \<and> handler s = None \<and> reader s = Read_ended \<and> fwd s = Fwd_ended \<and>
     sender s = Send_ended \<and> pinger s = Ping_ended"

lemma sender_runs_on:
  assumes "cut_off s" and "sender s \<noteq> Send_ended"
  shows "\<exists>n r. sender_step n r s \<noteq> None"
proof (cases "sender s")
  case Scan_line
  have "scan_step 0 s \<noteq> None" using assms(1) by (simp add: scan_step_def fill_def cut_off_def Let_def)
  with Scan_line show ?thesis by (auto simp: sender_step_def)
next
  case (Send_message l)
  then have "sender_step 0 (Some ErrClosedPipe) s \<noteq> None" by (simp add: sender_step_def)
  then show ?thesis by blast
qed (use assms(2) in \<open>simp_all add: sender_step_def\<close>)

lemma forwarder_runs_on: "cut_off s \<Longrightarrow> fwd s \<noteq> Fwd_ended \<Longrightarrow> forward_step False s \<noteq> None"
  by (cases "fwd s") (simp_all add: forward_step_def cut_off_def)

lemma handler_runs_on: "cut_off s \<Longrightarrow> handler s \<noteq> None \<Longrightarrow> handler_step bk s \<noteq> None"
  by (auto simp: handler_step_def cut_off_def split: backend_call.split)

lemma reader_runs_on:
  assumes "cut_off s" and "closing_ok s" and "sender s = Send_ended" and "reader s \<noteq> Read_ended"
  shows "\<exists>hand fails. reader_step hand fails s \<noteq> None"
proof -
  have "reader_step False True s \<noteq> None"
    using assms by (cases "reader s") (simp_all add: reader_step_def cut_off_def closing_ok_def chan_close_def)
  then show ?thesis by blast
qed

lemma connection_not_stuck:
  assumes "cut_off s" and "closing_ok s" and "\<not> all_ended s"
  shows "\<exists>e. inner e \<and> conn_step bk e s \<noteq> None"
proof -
  have "closer s = Close_ended" using assms(1) by (simp add: cut_off_def)
  with assms(3) consider "handler s \<noteq> None" | "fwd s \<noteq> Fwd_ended" | "sender s \<noteq> Send_ended"
    | "sender s = Send_ended" "reader s \<noteq> Read_ended" | "pinger s = Ping_loop"
    by (cases "pinger s") (auto simp: all_ended_def)
  then show ?thesis
  proof cases
    case 1
    then show ?thesis using handler_runs_on [OF assms(1)] by (intro exI [of _ Handler_runs]) simp
  next
    case 2
    then show ?thesis using forwarder_runs_on [OF assms(1)] by (intro exI [of _ "Forwarder_runs False"]) simp
  next
    case 3
    with sender_runs_on [OF assms(1)] obtain n r where "sender_step n r s \<noteq> None" by blast
    then show ?thesis by (intro exI [of _ "Sender_runs n r"]) simp
  next
    case 4
    with reader_runs_on [OF assms(1,2)] obtain h f where "reader_step h f s \<noteq> None" by blast
    then show ?thesis by (intro exI [of _ "Reader_runs h f"]) simp
  next
    case 5
    then show ?thesis using assms(1) by (intro exI [of _ Pinger_runs]) (simp add: pinger_step_def cut_off_def)
  qed
qed

lemma inner_run_bounded:
  assumes "gives_up rank bk"
  shows "conn_reach p bk s \<Longrightarrow> cut_off s \<Longrightarrow> \<forall>e \<in> set es. inner e \<Longrightarrow> conn_run bk es s = Some s' \<Longrightarrow>
    length es + effort rank bk s' \<le> effort rank bk s \<and> cut_off s' \<and> conn_reach p bk s'"
proof (induction es arbitrary: s)
  case (Cons e es)
  from Cons.prems(4) obtain s1 where s1: "conn_step bk e s = Some s1" "conn_run bk es s1 = Some s'"
    by (auto split: option.splits)
  have "effort rank bk s1 < effort rank bk s"
    using effort_step [OF assms Cons.prems(2) answer_ok_reachable [OF Cons.prems(1)]
        body_ok_reachable [OF Cons.prems(1)] _ s1(1)] Cons.prems(3) by simp
  with Cons.IH [OF conn_reach.step [OF Cons.prems(1) s1(1)] cut_off_step [OF Cons.prems(2) s1(1)] _ s1(2)] Cons.prems(3)
  show ?case by simp
qed simp


section \<open>Two runs\<close>

text \<open>A REST proxy that reads the body to its end, answers with one line and returns.\<close>

definition echo_backend :: "nat \<Rightarrow> nat backend_call" where
  "echo_backend b =
     (if b = 0 then Read_body 512 (\<lambda>r. if r = None then 1 else 0)
      else if b = 1 then Write_answer (''pong'' @ [newline]) (\<lambda>_. 2)
      else Return_handler)"

definition demo_connection :: "nat connection" where
  "demo_connection = open_connection (NewWebSocketProxy 0 0) False 0"

definition request_run :: "event list" where
  "request_run =
     [Frame_arrives ''hi'', Reader_runs False False, Reader_runs False False, Reader_runs True False,
      Forwarder_runs True, Forwarder_runs False, Handler_runs, Forwarder_runs False, Forwarder_runs False,
      Forwarder_runs False, Handler_runs, Forwarder_runs False, Forwarder_runs False, Handler_runs]"

definition answer_run :: "event list" where
  "answer_run =
     [Handler_runs, Sender_runs 5 None, Handler_runs, Handler_runs, Closer_runs, Closer_runs, Closer_runs]"

definition sending_run :: "event list" where
  "sending_run =
     [Sender_runs 0 None, Sender_runs 0 None, Sender_runs 0 None, Sender_runs 0 None, Sender_runs 0 None,
      Sender_runs 0 None, Sender_runs 0 None]"

definition asked_state :: "nat connection" where
  "asked_state = demo_connection
     \<lparr>payloadChannel := (make_chan 1)\<lparr>chan_taken := [''hi'']\<rparr>, body_closed := True, body_read := ''hi'' @ [newline],
      handler := Some 1\<rparr>"

lemma request_run_state: "conn_run echo_backend request_run demo_connection = Some asked_state"
  by (simp add: request_run_def demo_connection_def asked_state_def open_connection_def goroutine_defs
      newRequestForwardingReader_def make_chan_def chan_send_def chan_recv_def echo_backend_def left_over_def newline_def
      pingPongEnabled_def NewWebSocketProxy_def)


definition answered_state :: "nat connection" where
  "answered_state = asked_state
     \<lparr>ctx_done := True, closer := Close_ended, handler := None, accepted := ''pong'' @ [newline],
      scan_buf := ''pong'' @ [newline],
      forwarder := newResponseForwardingWriter
        \<lparr>written := ''pong'' @ [newline], pipe_closed := True, closed := (make_chan 1)\<lparr>chan_buf := [True]\<rparr>\<rparr>\<rparr>"

lemma answer_run_state: "conn_run echo_backend answer_run asked_state = Some answered_state"
  by (simp add: answer_run_def demo_connection_def asked_state_def answered_state_def open_connection_def goroutine_defs
      newResponseForwardingWriter_def newRequestForwardingReader_def make_chan_def chan_send_def echo_backend_def
      left_over_def newline_def char_of_def scan_step_def fill_def room_def MaxScanTokenSize_def rw_Close_def
      pingPongEnabled_def NewWebSocketProxy_def)

definition sent_state :: "nat connection" where
  "sent_state = answered_state
     \<lparr>scan_buf := [], full_lines := [''pong''], scan_err := Some ErrClosedPipe, sent_messages := [''pong''],
      sender := Send_ended, conn_open := False\<rparr>"

lemma sending_run_state: "conn_run echo_backend sending_run answered_state = Some sent_state"
  by (simp add: sending_run_def demo_connection_def asked_state_def answered_state_def sent_state_def
      open_connection_def goroutine_defs newResponseForwardingWriter_def newRequestForwardingReader_def make_chan_def
      newline_def char_of_def scan_step_def fill_def deliver_def drop_CR_def Let_def MaxScanTokenSize_def
      pingPongEnabled_def NewWebSocketProxy_def)

lemma demo_reach:
  "conn_reach (NewWebSocketProxy 0 0) echo_backend asked_state"
  "conn_reach (NewWebSocketProxy 0 0) echo_backend answered_state"
  "conn_reach (NewWebSocketProxy 0 0) echo_backend sent_state"
proof -
  have "conn_reach (NewWebSocketProxy 0 0) echo_backend demo_connection"
    unfolding demo_connection_def by (rule conn_reach.upgraded)
  from conn_run_reach [OF this request_run_state] show a: "conn_reach (NewWebSocketProxy 0 0) echo_backend asked_state" .
  from conn_run_reach [OF a answer_run_state] show b: "conn_reach (NewWebSocketProxy 0 0) echo_backend answered_state" .
  from conn_run_reach [OF b sending_run_state] show "conn_reach (NewWebSocketProxy 0 0) echo_backend sent_state" .
qed

lemma echo_gives_up: "gives_up (\<lambda>b. 2 - b) echo_backend"
  by (simp add: gives_up_def echo_backend_def)

text \<open>The variable \<^verbatim>\<open>err\<close> is shared: here the REST proxy does not read the body, as it does not for a GET
  request, and returns after its answer, so that the pipe is closed under the write of the forward
  loop. That write's error arrives between a successful write to the client and the check of its
  error, and the second line of the answer is never sent.\<close>

definition deaf_backend :: "nat \<Rightarrow> nat backend_call" where
  "deaf_backend b =
     (if b = 0 then Write_answer (''a'' @ [newline] @ ''b'' @ [newline]) (\<lambda>_. 1) else Return_handler)"

definition race_run :: "event list" where
  "race_run =
     [Frame_arrives ''hi'', Reader_runs False False, Reader_runs False False, Reader_runs True False,
      Forwarder_runs True, Forwarder_runs False, Handler_runs, Sender_runs 4 None, Handler_runs, Handler_runs,
      Sender_runs 0 None, Sender_runs 0 None, Closer_runs, Closer_runs, Closer_runs,
      Forwarder_runs False, Sender_runs 0 None, Sender_runs 0 None, Sender_runs 0 None]"

lemma shared_err_loses_a_line:
  "\<exists>s. conn_run deaf_backend race_run (open_connection (NewWebSocketProxy 0 0) False 0) = Some s \<and>
     conn_reach (NewWebSocketProxy 0 0) deaf_backend s \<and> sender s = Send_ended \<and> \<not> write_broken s \<and>
     accepted s = ''a'' @ [newline] @ ''b'' @ [newline] \<and> sent_messages s = [''a'']"
proof -
  let ?s = "open_connection (NewWebSocketProxy 0 0) False (0 :: nat)"
  have "\<exists>s. conn_run deaf_backend race_run ?s = Some s \<and> sender s = Send_ended \<and> \<not> write_broken s \<and>
     accepted s = ''a'' @ [newline] @ ''b'' @ [newline] \<and> sent_messages s = [''a'']"
    by (simp add: race_run_def open_connection_def goroutine_defs newResponseForwardingWriter_def
        newRequestForwardingReader_def make_chan_def chan_send_def chan_recv_def deaf_backend_def left_over_def
        newline_def char_of_def scan_step_def fill_def deliver_def drop_CR_def Let_def room_def MaxScanTokenSize_def rw_Close_def
        pingPongEnabled_def NewWebSocketProxy_def)
  then obtain s where s: "conn_run deaf_backend race_run ?s = Some s" "sender s = Send_ended" "\<not> write_broken s"
      "accepted s = ''a'' @ [newline] @ ''b'' @ [newline]" "sent_messages s = [''a'']" by (elim exE conjE)
  from conn_run_reach [OF conn_reach.upgraded s(1)] s show ?thesis by (intro exI [of _ s] conjI)
qed

section \<open>Witnesses\<close>

theorem no_line_of_the_answer_is_lost_witness:
  "sent_messages sent_state = write_loop (\<lambda>_. None) (fst (scan_lines (''pong'' @ [newline]))) \<and>
     sent_messages sent_state = [''pong'']"
proof -
  have "sender sent_state = Send_ended" "\<not> write_broken sent_state" "\<not> forward_failed sent_state"
      "written (forwarder sent_state) = ''pong'' @ [newline]" "sent_messages sent_state = [''pong'']"
    by (simp_all add: sent_state_def answered_state_def asked_state_def demo_connection_def open_connection_def)
  with no_line_of_the_answer_is_lost [OF demo_reach(3)] show ?thesis by simp
qed

theorem body_is_what_the_client_said_witness:
  "received asked_state \<noteq> [] \<and> body_read asked_state = hd (received asked_state) @ [newline] \<and>
     body_read asked_state = ''hi'' @ [newline]"
proof -
  have "body_closed asked_state" "\<not> ctx_done asked_state" "body_read asked_state = ''hi'' @ [newline]"
    by (simp_all add: asked_state_def demo_connection_def open_connection_def)
  with body_is_what_the_client_said [OF demo_reach(1)] show ?thesis by simp
qed


end
