(* ===== verification/DemoPlugins.thy ===== *)
theory DemoPlugins
  imports Queue GoNumbers
begin

text \<open>
  Files \<^verbatim>\<open>plugins/plugins/_demo/demo_datasource.go\<close> and \<^verbatim>\<open>demo_controller.go\<close>: the plugins that come with
  the daemon as examples, the other side of the calls of \<open>PluginInstance\<close>. Each is the state of its
  process, the methods the daemon calls, and the goroutines these leave behind, one step at a time. The
  consumer of the channels a method returns, which is the plugin SDK, is the environment: it takes a
  frame, or never does. Random numbers and the clock are arguments; so are the arithmetic and the printing of
  floating-point numbers and the JSON of a frame or command.
\<close>

section \<open>Lists of goroutines\<close>

lemma sum_list_update:
  fixes f :: "'a \<Rightarrow> nat"
  shows "k < length xs \<Longrightarrow> sum_list (map f (xs[k := x])) + f (xs ! k) = sum_list (map f xs) + f x"
proof (induction xs arbitrary: k)
  case (Cons y ys)
  then show ?case by (cases k) (auto simp: algebra_simps)
qed simp

lemma effort_decreases:
  fixes f :: "'a \<Rightarrow> nat"
  shows "k < length xs \<Longrightarrow> f x < f (xs ! k) \<Longrightarrow> sum_list (map f (xs[k := x])) < sum_list (map f xs)"
  using sum_list_update [of k xs f x] by simp

section \<open>Readings\<close>

record 'f float_env =
  fadd :: "'f \<Rightarrow> 'f \<Rightarrow> 'f"
  fdiv :: "'f \<Rightarrow> nat \<Rightarrow> 'f"
  fzero :: 'f
  f25 :: 'f
  Marshal :: "(string \<times> 'f) list \<Rightarrow> go_error + string"
  print_temps :: "'f \<Rightarrow> 'f \<Rightarrow> string"
  ParseFloat :: "string \<Rightarrow> go_error + 'f"

definition json_type :: string where
  "json_type = ''application/json''"

text \<open>The data of a frame: 96 readings, named from 1.\<close>

definition demo_data :: "'f list \<Rightarrow> (string \<times> 'f) list" where
  "demo_data vs = map (\<lambda>i. (''Temperature: '' @ Itoa (i + 1), vs ! i)) [0..<length vs]"

definition reading_frame :: "string \<Rightarrow> int \<Rightarrow> string \<Rightarrow> frame" where
  "reading_frame pluginName now payload =
     \<lparr>Source = pluginName, FrameType = json_type, Timestamp = now, Payload = payload\<rparr>"

section \<open>The datasource\<close>

definition datasourceName :: string where
  "datasourceName = ''demo-datasource-plugin''"

text \<open>A goroutine of \<^verbatim>\<open>StartRecord\<close>: it sleeps for a second, looks at the quit channel, and hands a frame
  over. \<open>quit_senders\<close> are the calls of \<^verbatim>\<open>StopRecord\<close> that are waiting for a goroutine to look.\<close>

datatype ds_pc = Ds_sleeps | Ds_selects | Ds_sends frame | Ds_ended

record datasource =
  ds_quit :: bool
  quit_senders :: nat
  ds_wg :: nat
  ds_tasks :: "ds_pc list"
  ds_frames :: "frame list list"

definition new_datasource :: datasource where
  "new_datasource = \<lparr>ds_quit = False, quit_senders = 0, ds_wg = 0, ds_tasks = [], ds_frames = []\<rparr>"

definition ds_StartRecord :: "datasource \<Rightarrow> nat \<times> datasource" where
  "ds_StartRecord s =
     (length (ds_tasks s),
      s\<lparr>ds_wg := Suc (ds_wg s), ds_tasks := ds_tasks s @ [Ds_sleeps], ds_frames := ds_frames s @ [[]]\<rparr>)"

text \<open>\<^verbatim>\<open>quitChan <- struct{}{}\<close>: it waits, or panics when the channel is closed.\<close>

definition ds_StopRecord :: "datasource \<Rightarrow> datasource outcome" where
  "ds_StopRecord s = (if ds_quit s then Panics else Returns (s\<lparr>quit_senders := Suc (quit_senders s)\<rparr>))"

text \<open>\<^verbatim>\<open>close(quitChan)\<close>, which makes the senders that wait panic; what follows is \<^verbatim>\<open>Wait\<close>.\<close>

definition ds_Stop :: "datasource \<Rightarrow> datasource outcome" where
  "ds_Stop s = (if ds_quit s \<or> 0 < quit_senders s then Panics else Returns (s\<lparr>ds_quit := True\<rparr>))"

definition ds_Stop_returns :: "datasource \<Rightarrow> bool" where
  "ds_Stop_returns s \<longleftrightarrow> ds_quit s \<and> ds_wg s = 0"

definition ds_finish :: "nat \<Rightarrow> datasource \<Rightarrow> datasource" where
  "ds_finish k s = s\<lparr>ds_tasks := (ds_tasks s)[k := Ds_ended], ds_wg := ds_wg s - 1\<rparr>"

text \<open>One step of goroutine \<open>k\<close>, with the random numbers and the time if it takes a sample; the last case is the
  consumer taking the frame on offer.\<close>

definition ds_task_step ::
  "'f float_env \<Rightarrow> nat \<Rightarrow> 'f list \<Rightarrow> int \<Rightarrow> datasource \<Rightarrow> datasource option" where
  "ds_task_step env k vs now s =
     (if length (ds_tasks s) \<le> k then None
      else
        (case ds_tasks s ! k of
           Ds_sleeps \<Rightarrow> Some (s\<lparr>ds_tasks := (ds_tasks s)[k := Ds_selects]\<rparr>)
         | Ds_selects \<Rightarrow>
             if ds_quit s then Some (ds_finish k s)
             else if 0 < quit_senders s then Some ((ds_finish k s)\<lparr>quit_senders := quit_senders s - 1\<rparr>)
             else if length vs \<noteq> 96 then None
             else
               (case Marshal env (demo_data (map (\<lambda>r. fadd env r (f25 env)) vs)) of
                  Inl e \<Rightarrow> Some (ds_finish k s)
                | Inr b \<Rightarrow> Some (s\<lparr>ds_tasks := (ds_tasks s)[k := Ds_sends (reading_frame datasourceName now b)]\<rparr>))
         | Ds_sends f \<Rightarrow>
             Some (s\<lparr>ds_tasks := (ds_tasks s)[k := Ds_sleeps],
                     ds_frames := (ds_frames s)[k := ds_frames s ! k @ [f]]\<rparr>)
         | Ds_ended \<Rightarrow> None))"

datatype 'f ds_move = Ds_start | Ds_stop_record | Ds_stop | Ds_task nat "'f list" int

fun ds_step :: "'f float_env \<Rightarrow> 'f ds_move \<Rightarrow> datasource \<Rightarrow> datasource outcome option" where
  "ds_step env Ds_start s = Some (Returns (snd (ds_StartRecord s)))"
| "ds_step env Ds_stop_record s = Some (ds_StopRecord s)"
| "ds_step env Ds_stop s = Some (ds_Stop s)"
| "ds_step env (Ds_task k vs now) s = map_option Returns (ds_task_step env k vs now s)"

fun ds_run :: "'f float_env \<Rightarrow> 'f ds_move list \<Rightarrow> datasource \<Rightarrow> datasource outcome option" where
  "ds_run env [] s = Some (Returns s)"
| "ds_run env (m # ms) s =
     (case ds_step env m s of Some (Returns s') \<Rightarrow> ds_run env ms s' | r \<Rightarrow> r)"

section \<open>The end of the datasource\<close>

primrec ds_live :: "ds_pc \<Rightarrow> nat" where
  "ds_live Ds_sleeps = 1"
| "ds_live Ds_selects = 1"
| "ds_live (Ds_sends f) = 1"
| "ds_live Ds_ended = 0"

primrec ds_effort :: "ds_pc \<Rightarrow> nat" where
  "ds_effort Ds_sleeps = 2"
| "ds_effort Ds_selects = 1"
| "ds_effort (Ds_sends f) = 3"
| "ds_effort Ds_ended = 0"

text \<open>The wait group counts the goroutines that have not ended.\<close>

definition ds_ok :: "datasource \<Rightarrow> bool" where
  "ds_ok s \<longleftrightarrow> ds_wg s = sum_list (map ds_live (ds_tasks s)) \<and> length (ds_frames s) = length (ds_tasks s) \<and>
     (ds_quit s \<longrightarrow> quit_senders s = 0)"

lemma ds_ok_new: "ds_ok new_datasource"
  by (simp add: ds_ok_def new_datasource_def)

lemma ds_finish_live:
  assumes "k < length ts" and "ts ! k = Ds_selects"
  shows "sum_list (map ds_live (ts[k := Ds_ended])) = sum_list (map ds_live ts) - 1"
  using sum_list_update [OF assms(1), of ds_live Ds_ended] assms(2) by simp

lemma ds_same_live:
  assumes "k < length ts" and "ds_live t = ds_live (ts ! k)"
  shows "sum_list (map ds_live (ts[k := t])) = sum_list (map ds_live ts)"
  using sum_list_update [OF assms(1), of ds_live t] assms(2) by simp

lemma ds_ok_task:
  assumes "ds_ok s" and "ds_task_step env k vs now s = Some s'"
  shows "ds_ok s' \<and> ds_quit s' = ds_quit s \<and> length (ds_tasks s') = length (ds_tasks s) \<and>
    (ds_quit s \<longrightarrow> sum_list (map ds_effort (ds_tasks s')) < sum_list (map ds_effort (ds_tasks s)))"
proof -
  have k: "k < length (ds_tasks s)" using assms(2) by (simp add: ds_task_step_def split: if_splits)
  note eff = effort_decreases [OF k, of ds_effort]
  show ?thesis
  proof (cases "ds_tasks s ! k")
    case Ds_sleeps
    with assms k eff [of Ds_selects] show ?thesis by (auto simp: ds_task_step_def ds_ok_def ds_same_live)
  next
    case Ds_selects
    with assms k eff [of Ds_ended] show ?thesis
      by (auto simp: ds_task_step_def ds_ok_def ds_finish_def ds_finish_live ds_same_live
          split: if_splits sum.splits)
  next
    case (Ds_sends f)
    with assms k eff [of Ds_sleeps] show ?thesis by (auto simp: ds_task_step_def ds_ok_def ds_same_live)
  next
    case Ds_ended
    with assms k show ?thesis by (simp add: ds_task_step_def)
  qed
qed

lemma ds_ok_step:
  assumes "ds_ok s" and "ds_step env m s = Some (Returns s')"
  shows "ds_ok s'"
proof (cases m)
  case (Ds_task k vs now)
  with assms(2) have "ds_task_step env k vs now s = Some s'" by simp
  from ds_ok_task [OF assms(1) this] show ?thesis by blast
qed (use assms in \<open>auto simp: ds_ok_def ds_StartRecord_def ds_StopRecord_def ds_Stop_def split: if_splits\<close>)

lemma ds_ok_run: "ds_ok s \<Longrightarrow> ds_run env ms s = Some (Returns s') \<Longrightarrow> ds_ok s'"
proof (induction ms arbitrary: s)
  case (Cons m ms)
  then obtain s1 where "ds_step env m s = Some (Returns s1)" "ds_run env ms s1 = Some (Returns s')"
    by (auto split: option.splits outcome.splits)
  with Cons ds_ok_step show ?case by blast
qed simp

fun is_task :: "'f ds_move \<Rightarrow> bool" where
  "is_task (Ds_task k vs now) = True"
| "is_task _ = False"

lemma ds_all_ended: "(\<forall>t \<in> set ts. t = Ds_ended) \<Longrightarrow> sum_list (map ds_live ts) = 0"
  by (induction ts) auto

lemma ds_not_stuck:
  assumes "ds_ok s" and "ds_quit s" and "ds_wg s \<noteq> 0"
  shows "\<exists>k. ds_task_step env k [] 0 s \<noteq> None"
proof -
  have "\<exists>t \<in> set (ds_tasks s). t \<noteq> Ds_ended"
    using assms(1,3) ds_all_ended [of "ds_tasks s"] unfolding ds_ok_def by metis
  then obtain k where k: "k < length (ds_tasks s)" "ds_tasks s ! k \<noteq> Ds_ended" by (auto simp: in_set_conv_nth)
  then have "ds_task_step env k [] 0 s \<noteq> None"
    using assms(2) by (auto simp: ds_task_step_def split: ds_pc.split)
  then show ?thesis ..
qed

text \<open>
  \<open>Stop\<close> of the demo datasource returns when the frames on offer are taken: from any state it has been
  called in without a panic, the goroutines make a bounded number of steps, and as long as the wait
  group is not at zero one of them can make another.
\<close>

theorem datasource_Stop_returns:
  assumes "ds_run env ms new_datasource = Some (Returns s)" and "ds_quit s"
    and "ds_run env ts s = Some (Returns s')" and "\<forall>m \<in> set ts. is_task m"
  shows "length ts \<le> sum_list (map ds_effort (ds_tasks s)) \<and>
    (ds_Stop_returns s' \<or> (\<exists>k. ds_task_step env k [] 0 s' \<noteq> None))"
proof -
  have bound: "ds_ok s' \<and> ds_quit s' \<and>
      length ts + sum_list (map ds_effort (ds_tasks s')) \<le> sum_list (map ds_effort (ds_tasks s))"
    if "ds_ok s" "ds_quit s" "ds_run env ts s = Some (Returns s')" "\<forall>m \<in> set ts. is_task m" for s
    using that
  proof (induction ts arbitrary: s)
    case (Cons m ts)
    from Cons.prems(4) obtain k vs now where m: "m = Ds_task k vs now" by (cases m) auto
    with Cons.prems(3) obtain s1 where s1: "ds_task_step env k vs now s = Some s1" "ds_run env ts s1 = Some (Returns s')"
      by (auto split: option.splits)
    note t = ds_ok_task [OF Cons.prems(1) s1(1)]
    with Cons.IH [of s1] Cons.prems(2,4) s1(2) show ?case by auto
  qed simp
  from bound [OF ds_ok_run [OF ds_ok_new assms(1)] assms(2-4)]
  show ?thesis using ds_not_stuck [of s' env] by (auto simp: ds_Stop_returns_def)
qed

text \<open>A recording started after \<open>Stop\<close> never produces a frame: its goroutine finds the quit channel closed.\<close>

definition silent_from :: "nat \<Rightarrow> datasource \<Rightarrow> bool" where
  "silent_from n s \<longleftrightarrow> n \<le> length (ds_tasks s) \<and>
     (\<forall>k. n \<le> k \<longrightarrow> k < length (ds_tasks s) \<longrightarrow> (\<forall>f. ds_tasks s ! k \<noteq> Ds_sends f) \<and> ds_frames s ! k = [])"

lemma ds_quit_step:
  assumes "ds_quit s" "ds_ok s" "silent_from n s" and "ds_step env m s = Some (Returns s')"
  shows "ds_quit s' \<and> silent_from n s'"
proof (cases m)
  case Ds_start
  then have "s' = snd (ds_StartRecord s)" using assms(4) by simp
  with assms(1-3) show ?thesis by (simp add: silent_from_def ds_StartRecord_def ds_ok_def nth_append)
next
  case (Ds_task j vs now)
  with assms(4) have t: "ds_task_step env j vs now s = Some s'" by simp
  then have j: "j < length (ds_tasks s)" by (simp add: ds_task_step_def split: if_splits)
  show ?thesis
  proof (cases "ds_tasks s ! j")
    case (Ds_sends f)
    have "j < n" using assms(3) j Ds_sends by (meson silent_from_def not_le)
    with t j Ds_sends assms(1-3) show ?thesis by (auto simp: ds_task_step_def silent_from_def)
  qed (use t j assms(1-3) in \<open>auto simp: ds_task_step_def ds_finish_def silent_from_def nth_list_update split: if_splits\<close>)
qed (use assms in \<open>simp_all add: ds_StopRecord_def ds_Stop_def split: if_splits\<close>)

lemma stopped_datasource_is_silent:
  assumes "ds_run env ms new_datasource = Some (Returns s)" and "ds_quit s"
    and "ds_run env ts s = Some (Returns s')" and "length (ds_tasks s) \<le> k" and "k < length (ds_tasks s')"
  shows "ds_frames s' ! k = []"
proof -
  have "silent_from n s'" if "ds_run env ts s1 = Some (Returns s')" "ds_quit s1" "ds_ok s1" "silent_from n s1" for s1 n
    using that
  proof (induction ts arbitrary: s1)
    case (Cons m ts)
    then obtain s2 where s2: "ds_step env m s1 = Some (Returns s2)" "ds_run env ts s2 = Some (Returns s')"
      by (auto split: option.splits outcome.splits)
    from ds_quit_step [OF Cons.prems(2,3,4) s2(1)] ds_ok_step [OF Cons.prems(3) s2(1)] Cons.IH [OF s2(2)]
    show ?case by blast
  qed simp
  from this [OF assms(3,2) ds_ok_run [OF ds_ok_new assms(1)], of "length (ds_tasks s)"] assms(4,5)
  show ?thesis by (simp add: silent_from_def)
qed

text \<open>Nor does it recover from being stopped twice, or while a \<open>StopRecord\<close> is still waiting.\<close>

lemma datasource_panics:
  "ds_Stop s = Returns s' \<Longrightarrow> ds_Stop s' = Panics \<and> ds_StopRecord s' = Panics"
  "ds_StopRecord s = Returns s' \<Longrightarrow> ds_Stop s' = Panics"
  by (auto simp: ds_Stop_def ds_StopRecord_def split: if_splits)

section \<open>The controller\<close>

definition controllerName :: string where
  "controllerName = ''demo-controller-plugin''"

type_synonym ctrl_command = "string \<times> string gomap"

text \<open>The goroutines of \<^verbatim>\<open>start-record\<close> (sleeping, looking at the quit channel, reading the set point once for every
  value, writing the average, handing a frame over) and of \<^verbatim>\<open>set-temperature\<close> (sleeping, handing the
  first frame over with the read lock held, writing the set point, taking the read lock again, handing
  the second frame over).\<close>

datatype 'f ctl_task =
    Rec_sleeps
  | Rec_selects
  | Rec_reads "'f list"
  | Rec_averages "'f list"
  | Rec_sends frame
  | Set_sleeps 'f
  | Set_first 'f frame
  | Set_locks 'f
  | Set_rlocks
  | Set_second frame
  | Task_ended

record 'f controller =
  recording :: bool
  ctl_quit :: bool
  set_point :: 'f
  avg_temp :: 'f
  ctl_wg :: nat
  tasks :: "'f ctl_task list"
  ctl_frames :: "frame list list"

definition new_controller :: "'f \<Rightarrow> 'f \<Rightarrow> 'f controller" where
  "new_controller initial zero =
     \<lparr>recording = False, ctl_quit = False, set_point = initial, avg_temp = zero, ctl_wg = 0, tasks = [],
      ctl_frames = []\<rparr>"

text \<open>The controller as \<^verbatim>\<open>main\<close> serves it.\<close>

definition served_controller :: "'f float_env \<Rightarrow> 'f controller" where
  "served_controller env = new_controller (f25 env) (fzero env)"

definition spawn_task :: "'f ctl_task \<Rightarrow> 'f controller \<Rightarrow> 'f controller" where
  "spawn_task t s = s\<lparr>ctl_wg := Suc (ctl_wg s), tasks := tasks s @ [t], ctl_frames := ctl_frames s @ [[]]\<rparr>"

text \<open>A command: the error, or the number of the channel its frames come on.\<close>

definition set_temperature ::
  "'f float_env \<Rightarrow> string gomap \<Rightarrow> 'f controller \<Rightarrow> (go_error + nat) \<times> 'f controller" where
  "set_temperature env args s =
     (if recording s then
        (case map_of args ''temp_set_point'' of
           Some setPtStr \<Rightarrow>
             (case ParseFloat env setPtStr of
                Inr v \<Rightarrow> (Inr (length (tasks s)), spawn_task (Set_sleeps v) s)
              | Inl e \<Rightarrow> (Inl (Foreign ''not recording''), s))
         | None \<Rightarrow> (Inl (Foreign ''invalid temperature set point type''), s))
      else (Inl (Foreign ''invalid temperature set point type''), s))"

definition start_record :: "'f controller \<Rightarrow> (go_error + nat) \<times> 'f controller" where
  "start_record s =
     (if recording s then (Inl (Foreign ''already recording''), s)
      else (Inr (length (tasks s)), spawn_task Rec_sleeps (s\<lparr>recording := True\<rparr>)))"

definition ctl_Command ::
  "'f float_env \<Rightarrow> (string \<Rightarrow> go_error + ctrl_command) \<Rightarrow> frame option \<Rightarrow> 'f controller \<Rightarrow>
     (go_error + nat) \<times> 'f controller" where
  "ctl_Command env Unmarshal req s =
     (case req of
        None \<Rightarrow> (Inl (Foreign ''request arg is nil''), s)
      | Some f \<Rightarrow>
          if FrameType f = json_type then
            (case Unmarshal (Payload f) of
               Inl e \<Rightarrow> (Inl e, s)
             | Inr (cmd, args) \<Rightarrow>
                 if cmd = ''set-temperature'' then set_temperature env args s
                 else if cmd = ''start-record'' then start_record s
                 else (Inl (Foreign ''invalid command''), s))
          else (Inl (Foreign ''invalid frame type''), s))"

text \<open>\<^verbatim>\<open>Stop\<close> up to its wait: an error when nothing records; the second close of the channel panics.\<close>

definition ctl_Stop :: "'f controller \<Rightarrow> (go_error option \<times> 'f controller) outcome" where
  "ctl_Stop s =
     (if \<not> recording s then Returns (Some (Foreign ''already stopped recording''), s)
      else if ctl_quit s then Panics
      else Returns (None, s\<lparr>recording := False, ctl_quit := True\<rparr>))"

definition ctl_Stop_returns :: "'f controller \<Rightarrow> bool" where
  "ctl_Stop_returns s \<longleftrightarrow> ctl_quit s \<and> ctl_wg s = 0"

text \<open>The read-write lock: who holds it for reading, and who waits for writing, which keeps new readers
  out.\<close>

fun holds_read :: "'f ctl_task \<Rightarrow> bool" where
  "holds_read (Set_first v f) = True"
| "holds_read (Set_second f) = True"
| "holds_read _ = False"

fun wants_write :: "'f ctl_task \<Rightarrow> bool" where
  "wants_write (Rec_averages vs) = True"
| "wants_write (Set_locks v) = True"
| "wants_write _ = False"

definition can_read :: "'f controller \<Rightarrow> bool" where
  "can_read s \<longleftrightarrow> list_all (\<lambda>t. \<not> wants_write t) (tasks s)"

definition can_write :: "'f controller \<Rightarrow> bool" where
  "can_write s \<longleftrightarrow> list_all (\<lambda>t. \<not> holds_read t) (tasks s)"

definition goes :: "nat \<Rightarrow> 'f ctl_task \<Rightarrow> 'f controller \<Rightarrow> 'f controller" where
  "goes k t s = s\<lparr>tasks := (tasks s)[k := t]\<rparr>"

definition finishes :: "nat \<Rightarrow> 'f controller \<Rightarrow> 'f controller" where
  "finishes k s = (goes k Task_ended s)\<lparr>ctl_wg := ctl_wg s - 1\<rparr>"

definition delivers :: "nat \<Rightarrow> frame \<Rightarrow> 'f controller \<Rightarrow> 'f controller" where
  "delivers k f s = s\<lparr>ctl_frames := (ctl_frames s)[k := ctl_frames s ! k @ [f]]\<rparr>"

definition temps_frame :: "'f float_env \<Rightarrow> int \<Rightarrow> 'f controller \<Rightarrow> frame" where
  "temps_frame env now s = reading_frame controllerName now (print_temps env (avg_temp s) (set_point s))"

definition average :: "'f float_env \<Rightarrow> 'f list \<Rightarrow> 'f" where
  "average env vs = fdiv env (foldl (fadd env) (fzero env) vs) (length vs)"

text \<open>One step of goroutine \<open>k\<close>, with the random number and the time it may need; a step of one that hands
  a frame over is the consumer taking it.\<close>

definition task_step :: "'f float_env \<Rightarrow> nat \<Rightarrow> 'f \<Rightarrow> int \<Rightarrow> 'f controller \<Rightarrow> 'f controller option" where
  "task_step env k random now s =
     (if length (tasks s) \<le> k then None
      else
        (case tasks s ! k of
           Rec_sleeps \<Rightarrow> Some (goes k Rec_selects s)
         | Rec_selects \<Rightarrow> Some (if ctl_quit s then finishes k s else goes k (Rec_reads []) s)
         | Rec_reads vs \<Rightarrow>
             if 96 \<le> length vs then Some (goes k (Rec_averages vs) s)
             else if can_read s then Some (goes k (Rec_reads (vs @ [fadd env random (set_point s)])) s)
             else None
         | Rec_averages vs \<Rightarrow>
             if can_write s then
               (let s = s\<lparr>avg_temp := average env vs\<rparr> in
                case Marshal env (demo_data vs) of
                  Inl e \<Rightarrow> Some (finishes k s)
                | Inr b \<Rightarrow> Some (goes k (Rec_sends (reading_frame controllerName now b)) s))
             else None
         | Rec_sends f \<Rightarrow> Some (delivers k f (goes k Rec_sleeps s))
         | Set_sleeps v \<Rightarrow> if can_read s then Some (goes k (Set_first v (temps_frame env now s)) s) else None
         | Set_first v f \<Rightarrow> Some (delivers k f (goes k (Set_locks v) s))
         | Set_locks v \<Rightarrow> if can_write s then Some (goes k Set_rlocks (s\<lparr>set_point := v\<rparr>)) else None
         | Set_rlocks \<Rightarrow> if can_read s then Some (goes k (Set_second (temps_frame env now s)) s) else None
         | Set_second f \<Rightarrow> Some (delivers k f (finishes k s))
         | Task_ended \<Rightarrow> None))"

datatype 'f ctl_move = Ctl_command "frame option" | Ctl_stop | Ctl_task nat 'f int

fun ctl_step ::
  "'f float_env \<Rightarrow> (string \<Rightarrow> go_error + ctrl_command) \<Rightarrow> 'f ctl_move \<Rightarrow> 'f controller \<Rightarrow>
     'f controller outcome option" where
  "ctl_step env un (Ctl_command req) s = Some (Returns (snd (ctl_Command env un req s)))"
| "ctl_step env un Ctl_stop s = Some (and_then (ctl_Stop s) (\<lambda>(e, s). Returns s))"
| "ctl_step env un (Ctl_task k random now) s = map_option Returns (task_step env k random now s)"

fun ctl_run ::
  "'f float_env \<Rightarrow> (string \<Rightarrow> go_error + ctrl_command) \<Rightarrow> 'f ctl_move list \<Rightarrow> 'f controller \<Rightarrow>
     'f controller outcome option" where
  "ctl_run env un [] s = Some (Returns s)"
| "ctl_run env un (m # ms) s =
     (case ctl_step env un m s of Some (Returns s') \<Rightarrow> ctl_run env un ms s' | r \<Rightarrow> r)"

section \<open>What the controller answers\<close>

lemma set_temperature_refused:
  "\<not> recording s \<Longrightarrow> set_temperature env args s = (Inl (Foreign ''invalid temperature set point type''), s)"
  "recording s \<Longrightarrow> map_of args ''temp_set_point'' = Some x \<Longrightarrow> ParseFloat env x = Inl e \<Longrightarrow>
     set_temperature env args s = (Inl (Foreign ''not recording''), s)"
  by (simp_all add: set_temperature_def)

lemma idle_controller_is_not_stopped:
  "\<not> recording s \<Longrightarrow> ctl_Stop s = Returns (Some (Foreign ''already stopped recording''), s)"
  by (simp add: ctl_Stop_def)

lemma restarted_controller_panics:
  assumes "ctl_Stop s = Returns (None, s1)" and "start_record s1 = (Inr n, s2)"
  shows "ctl_Stop s2 = Panics"
  using assms by (auto simp: ctl_Stop_def start_record_def spawn_task_def split: if_splits)

section \<open>The end of the controller\<close>

fun task_live :: "'f ctl_task \<Rightarrow> nat" where
  "task_live Task_ended = 0"
| "task_live _ = 1"

primrec task_effort :: "'f ctl_task \<Rightarrow> nat" where
  "task_effort Rec_sleeps = 2"
| "task_effort Rec_selects = 1"
| "task_effort (Rec_reads vs) = 5 + (96 - length vs)"
| "task_effort (Rec_averages vs) = 4"
| "task_effort (Rec_sends f) = 3"
| "task_effort (Set_sleeps v) = 6"
| "task_effort (Set_first v f) = 5"
| "task_effort (Set_locks v) = 4"
| "task_effort Set_rlocks = 3"
| "task_effort (Set_second f) = 2"
| "task_effort Task_ended = 0"

fun recorder :: "'f ctl_task \<Rightarrow> nat" where
  "recorder Rec_sleeps = 1"
| "recorder Rec_selects = 1"
| "recorder (Rec_reads vs) = 1"
| "recorder (Rec_averages vs) = 1"
| "recorder (Rec_sends f) = 1"
| "recorder _ = 0"

text \<open>The wait group counts what has not ended, and until the first \<open>Stop\<close> at most one goroutine records.\<close>

definition ctl_ok :: "'f controller \<Rightarrow> bool" where
  "ctl_ok s \<longleftrightarrow> ctl_wg s = sum_list (map task_live (tasks s)) \<and> length (ctl_frames s) = length (tasks s) \<and>
     (\<not> ctl_quit s \<longrightarrow> sum_list (map recorder (tasks s)) \<le> (if recording s then 1 else 0))"

lemma ctl_ok_new: "ctl_ok (new_controller i z)"
  by (simp add: ctl_ok_def new_controller_def)

text \<open>What a step of a goroutine does to the list: it goes on, or it ends.\<close>

lemma task_step_cases:
  assumes "task_step env k random now s = Some s'"
  obtains t where "k < length (tasks s)" "tasks s' = (tasks s)[k := t]" "task_live (tasks s ! k) = 1"
    "ctl_wg s' = ctl_wg s - (1 - task_live t)" "ctl_quit s' = ctl_quit s" "recording s' = recording s"
    "length (ctl_frames s') = length (ctl_frames s)" "recorder t \<le> recorder (tasks s ! k)"
    "ctl_quit s \<Longrightarrow> task_effort t < task_effort (tasks s ! k)"
proof -
  have k: "k < length (tasks s)" using assms by (simp add: task_step_def split: if_splits)
  note defs = task_step_def goes_def finishes_def delivers_def Let_def
  show ?thesis
    by (cases "tasks s ! k"; rule that [of "tasks s' ! k"])
      (use assms k in \<open>auto simp: defs split: if_splits sum.splits\<close>)
qed


lemma ctl_ok_task:
  assumes "ctl_ok s" and "task_step env k random now s = Some s'"
  shows "ctl_ok s' \<and> ctl_quit s' = ctl_quit s \<and>
    (ctl_quit s \<longrightarrow> sum_list (map task_effort (tasks s')) < sum_list (map task_effort (tasks s)))"
  using assms(2)
proof (cases rule: task_step_cases)
  case (1 t)
  have "task_live t \<le> 1" by (cases t) simp_all
  then have "ctl_wg s' = sum_list (map task_live (tasks s'))"
    using assms(1) 1(1-4) sum_list_update [OF 1(1), of task_live t] by (auto simp: ctl_ok_def)
  moreover have "sum_list (map recorder (tasks s')) \<le> sum_list (map recorder (tasks s))"
    using 1(1,2,8) sum_list_update [OF 1(1), of recorder t] by simp
  moreover have "ctl_quit s \<Longrightarrow> sum_list (map task_effort (tasks s')) < sum_list (map task_effort (tasks s))"
    using effort_decreases [OF 1(1) 1(9)] 1(2) by simp
  moreover have "length (ctl_frames s') = length (tasks s')" using assms(1) 1(2,7) by (simp add: ctl_ok_def)
  ultimately show ?thesis using assms(1) unfolding ctl_ok_def 1(5,6) by (meson le_trans)
qed

lemma ctl_ok_spawn:
  "ctl_ok s \<Longrightarrow> task_live t = 1 \<Longrightarrow> recorder t = 0 \<Longrightarrow> ctl_ok (spawn_task t s)"
  by (simp add: ctl_ok_def spawn_task_def)

lemma ctl_ok_Command:
  assumes "ctl_ok s"
  shows "ctl_ok (snd (ctl_Command env un req s))"
proof -
  have "ctl_ok (snd (set_temperature env args s))" for args
    using assms by (auto simp: set_temperature_def ctl_ok_spawn split: option.split sum.split)
  moreover have "ctl_ok (snd (start_record s))"
    using assms by (auto simp: start_record_def ctl_ok_def spawn_task_def)
  ultimately show ?thesis using assms by (auto simp: ctl_Command_def split: option.split sum.split)
qed

lemma ctl_ok_step:
  assumes "ctl_ok s" and "ctl_step env un m s = Some (Returns s')"
  shows "ctl_ok s'"
proof (cases m)
  case (Ctl_command req)
  with assms ctl_ok_Command show ?thesis by fastforce
next
  case Ctl_stop
  with assms show ?thesis by (auto simp: ctl_Stop_def ctl_ok_def outcome_simps split: if_splits)
next
  case (Ctl_task k random now)
  with assms(2) have "task_step env k random now s = Some s'" by simp
  from ctl_ok_task [OF assms(1) this] show ?thesis by blast
qed

lemma ctl_ok_run: "ctl_ok s \<Longrightarrow> ctl_run env un ms s = Some (Returns s') \<Longrightarrow> ctl_ok s'"
proof (induction ms arbitrary: s)
  case (Cons m ms)
  then obtain s1 where "ctl_step env un m s = Some (Returns s1)" "ctl_run env un ms s1 = Some (Returns s')"
    by (auto split: option.splits outcome.splits)
  with Cons ctl_ok_step show ?case by blast
qed simp

text \<open>The lock never stops them all: one that waits for writing gets it or another holds it for reading
  and has a frame to hand over, and when none waits for writing every reader gets it.\<close>

lemma locks_do_not_wedge:
  assumes "ctl_wg s \<noteq> 0" and "ctl_ok s"
  shows "\<exists>k. task_step env k r now s \<noteq> None"
proof -
  have step: "task_step env k r now s \<noteq> None" if "k < length (tasks s)"
      "wants_write (tasks s ! k) \<Longrightarrow> can_write s" "tasks s ! k \<noteq> Task_ended"
      "can_read s \<or> wants_write (tasks s ! k) \<or> holds_read (tasks s ! k)" for k
    using that by (cases "tasks s ! k") (auto simp: task_step_def Let_def split: sum.split)
  show ?thesis
  proof (cases "can_read s")
    case True
    have "\<exists>t \<in> set (tasks s). t \<noteq> Task_ended"
    proof (rule ccontr)
      assume "\<not> ?thesis"
      then have "\<forall>t \<in> set (tasks s). task_live t = 0" by force
      then have "sum_list (map task_live (tasks s)) = 0" by simp
      with assms show False by (simp add: ctl_ok_def)
    qed
    then obtain k where k: "k < length (tasks s)" "tasks s ! k \<noteq> Task_ended" by (auto simp: in_set_conv_nth)
    with True have "\<not> wants_write (tasks s ! k)" by (simp add: can_read_def list_all_length)
    with step k True show ?thesis by blast
  next
    case False
    then obtain k where k: "k < length (tasks s)" "wants_write (tasks s ! k)"
      by (auto simp: can_read_def list_all_length)
    show ?thesis
    proof (cases "can_write s")
      case True
      have "tasks s ! k \<noteq> Task_ended" using k(2) by auto
      with step k True show ?thesis by blast
    next
      case False
      then obtain j where j: "j < length (tasks s)" "holds_read (tasks s ! j)"
        by (auto simp: can_write_def list_all_length)
      then have "\<not> wants_write (tasks s ! j)" "tasks s ! j \<noteq> Task_ended"
        by (cases "tasks s ! j"; simp)+
      with step j show ?thesis by blast
    qed
  qed
qed

fun is_ctl_task :: "'f ctl_move \<Rightarrow> bool" where
  "is_ctl_task (Ctl_task k random now) = True"
| "is_ctl_task _ = False"

text \<open>
  C32. \<open>Stop\<close> of the demo controller returns when the frames on offer are taken: whatever commands came
  before, once it has closed the quit channel the goroutines make a bounded number of steps, and as long
  as the wait group is not at zero one of them can make another, in spite of the lock they share. Until
  then at most one goroutine records; a \<open>Stop\<close> when nothing records is an error and closes nothing.
\<close>

theorem controller_Stop_returns:
  assumes "ctl_run env un ms (new_controller i z) = Some (Returns s)"
  shows "(\<not> ctl_quit s \<longrightarrow> sum_list (map recorder (tasks s)) \<le> (if recording s then 1 else 0)) \<and>
    (\<not> recording s \<longrightarrow> ctl_Stop s = Returns (Some (Foreign ''already stopped recording''), s)) \<and>
    (\<forall>ts s'. ctl_quit s \<and> ctl_run env un ts s = Some (Returns s') \<and> (\<forall>m \<in> set ts. is_ctl_task m) \<longrightarrow>
       length ts \<le> sum_list (map task_effort (tasks s)) \<and>
       (ctl_Stop_returns s' \<or> (\<exists>k. \<forall>r now. task_step env k r now s' \<noteq> None)))"
proof (intro conjI impI allI)
  have ok: "ctl_ok s" by (rule ctl_ok_run [OF ctl_ok_new assms])
  then show "sum_list (map recorder (tasks s)) \<le> (if recording s then 1 else 0)" if "\<not> ctl_quit s"
    using that by (simp add: ctl_ok_def)
  show "ctl_Stop s = Returns (Some (Foreign ''already stopped recording''), s)" if "\<not> recording s"
    using that by (rule idle_controller_is_not_stopped)
  fix ts s'
  assume run: "ctl_quit s \<and> ctl_run env un ts s = Some (Returns s') \<and> (\<forall>m \<in> set ts. is_ctl_task m)"
  have bound: "ctl_ok s' \<and> ctl_quit s' \<and>
      length ts + sum_list (map task_effort (tasks s')) \<le> sum_list (map task_effort (tasks s))"
    if "ctl_ok s" "ctl_quit s" "ctl_run env un ts s = Some (Returns s')" "\<forall>m \<in> set ts. is_ctl_task m" for s
    using that
  proof (induction ts arbitrary: s)
    case (Cons m ts)
    from Cons.prems(4) obtain k r now where m: "m = Ctl_task k r now" by (cases m) auto
    with Cons.prems(3) obtain s1 where s1: "task_step env k r now s = Some s1" "ctl_run env un ts s1 = Some (Returns s')"
      by (auto split: option.splits)
    note t = ctl_ok_task [OF Cons.prems(1) s1(1)]
    with Cons.IH [of s1] Cons.prems(2,4) s1(2) show ?case by auto
  qed simp
  from bound [OF ok] run have s': "ctl_ok s'" "ctl_quit s'"
    "length ts + sum_list (map task_effort (tasks s')) \<le> sum_list (map task_effort (tasks s))" by blast+
  then show "length ts \<le> sum_list (map task_effort (tasks s))" by simp
  show "ctl_Stop_returns s' \<or> (\<exists>k. \<forall>r now. task_step env k r now s' \<noteq> None)"
  proof (cases "ctl_wg s' = 0")
    case False
    from locks_do_not_wedge [OF False s'(1)] obtain k where "task_step env k z 0 s' \<noteq> None" by blast
    then have "\<forall>r now. task_step env k r now s' \<noteq> None"
      by (auto simp: task_step_def Let_def split: if_splits ctl_task.splits sum.splits)
    then show ?thesis by blast
  qed (use s'(2) in \<open>simp add: ctl_Stop_returns_def\<close>)
qed

text \<open>But a \<open>set-temperature\<close> whose frame is never taken keeps the read lock: the set point and the average
  stay as they are, and \<open>Stop\<close> never returns.\<close>

lemma abandoned_command_wedges:
  assumes "tasks s ! k = Set_first v f" and "k < length (tasks s)" and "ctl_ok s"
    and "ctl_run env un ms s = Some (Returns s')" and "\<forall>m \<in> set ms. \<forall>r now. m \<noteq> Ctl_task k r now"
  shows "tasks s' ! k = Set_first v f \<and> set_point s' = set_point s \<and> avg_temp s' = avg_temp s \<and> \<not> ctl_Stop_returns s'"
  using assms
proof (induction ms arbitrary: s)
  case Nil
  from nth_mem [OF Nil(2)] have "tasks s ! k \<in> set (tasks s)" .
  then have "task_live (tasks s ! k) \<le> sum_list (map task_live (tasks s))" by (intro member_le_sum_list) simp_all
  with Nil have "1 \<le> ctl_wg s" by (simp only: ctl_ok_def) simp
  with Nil show ?case by (simp add: ctl_Stop_returns_def)
next
  case (Cons m ms)
  then obtain s1 where s1: "ctl_step env un m s = Some (Returns s1)" "ctl_run env un ms s1 = Some (Returns s')"
    by (auto split: option.splits outcome.splits)
  have nw: "\<not> can_write s" using Cons.prems(1,2) by (auto simp: can_write_def list_all_length)
  have "tasks s1 ! k = Set_first v f \<and> k < length (tasks s1) \<and> set_point s1 = set_point s \<and> avg_temp s1 = avg_temp s"
  proof (cases m)
    case (Ctl_command req)
    with s1(1) Cons.prems(1,2) show ?thesis
      by (auto simp: ctl_Command_def set_temperature_def start_record_def spawn_task_def nth_append
          split: option.splits sum.splits if_splits)
  next
    case Ctl_stop
    with s1(1) Cons.prems(1,2) show ?thesis by (auto simp: ctl_Stop_def outcome_simps split: if_splits)
  next
    case (Ctl_task j r now)
    with Cons.prems(5) have j: "j \<noteq> k" by simp
    from Ctl_task s1(1) have "task_step env j r now s = Some s1" by simp
    with j nw Cons.prems(1,2) show ?thesis
      by (auto simp: task_step_def goes_def finishes_def delivers_def split: if_splits ctl_task.splits)
  qed
  with Cons.IH [OF _ _ ctl_ok_step [OF Cons.prems(3) s1(1)] s1(2)] Cons.prems(5) show ?case by simp
qed


section \<open>Witness\<close>

definition demo_floats :: "nat float_env" where
  "demo_floats = \<lparr>fadd = (+), fdiv = (div), fzero = 0, f25 = 25, Marshal = (\<lambda>d. Inr ''{}''), print_temps = (\<lambda>a b. ''{}''),
     ParseFloat = (\<lambda>x. Inl (Foreign ''invalid syntax''))\<rparr>"

definition start_frame :: frame where
  "start_frame = \<lparr>Source = ''lani'', FrameType = json_type, Timestamp = 0, Payload = ''start''\<rparr>"

theorem controller_Stop_returns_witness:
  "\<exists>s s'. ctl_run demo_floats (\<lambda>_. Inr (''start-record'', [])) [Ctl_command (Some start_frame), Ctl_stop]
       (new_controller 25 0) = Some (Returns s) \<and>
     ctl_run demo_floats (\<lambda>_. Inr (''start-record'', [])) [Ctl_task 0 0 0] s = Some (Returns s') \<and>
     \<not> ctl_Stop_returns s' \<and> (\<exists>k. \<forall>r now. task_step demo_floats k r now s' \<noteq> None)"
proof -
  let ?un = "\<lambda>_ :: string. Inr (''start-record'', []) :: go_error + ctrl_command"
  obtain s where s: "ctl_run demo_floats ?un [Ctl_command (Some start_frame), Ctl_stop] (new_controller 25 0) = Some (Returns s)"
      "ctl_quit s" "tasks s = [Rec_sleeps]" "ctl_wg s = 1"
    by (simp add: ctl_Command_def start_record_def ctl_Stop_def new_controller_def spawn_task_def start_frame_def)
  obtain s' where s': "ctl_run demo_floats ?un [Ctl_task 0 0 0] s = Some (Returns s')" "ctl_wg s' = 1"
    using s(3,4) by (simp add: task_step_def goes_def)
  have "\<not> ctl_Stop_returns s'" using s'(2) by (simp add: ctl_Stop_returns_def)
  moreover have "ctl_Stop_returns s' \<or> (\<exists>k. \<forall>r now. task_step demo_floats k r now s' \<noteq> None)"
    using controller_Stop_returns [OF s(1), THEN conjunct2, THEN conjunct2, rule_format, of "[Ctl_task 0 0 0]" s'] s(2) s'(1)
    by simp
  ultimately show ?thesis using s(1) s'(1) by blast
qed

end
