(* ===== verification/ClientAuth.thy ===== *)
theory ClientAuth
  imports RpcServer PluginLog
begin

text \<open>
  The client's side of the macaroon check: \<^verbatim>\<open>auth/macaroon_jar.go\<close> reads a macaroon, encrypted or
  not, \<^verbatim>\<open>auth/connection.go\<close> adds a timeout and \<^verbatim>\<open>macaroons/auth.go\<close> sends it with every call. The
  macaroon library, base 64, the terminal and dialling are parameters.
\<close>

record 'mac codec =
  MacMarshal :: "'mac \<Rightarrow> go_error + string"
  MacUnmarshal :: "string \<Rightarrow> go_error + 'mac"
  AddFirstPartyCaveat :: "'mac \<Rightarrow> string \<Rightarrow> go_error + 'mac"

definition encryptionPrefix :: string where "encryptionPrefix = ''snacl:''"

definition ErrEmptyMac :: go_error where
  "ErrEmptyMac = Foreign ''macaroon data is empty''"

definition ErrInvalidMacEncrypt :: go_error where
  "ErrInvalidMacEncrypt = Foreign (''invalid encrypted macaroon. Format expected: '' @
     [char_of (39 :: nat)] @ ''snacl:<key_base64>:<encrypted_macaroon_base64>'' @ [char_of (39 :: nat)])"

definition Wrap :: "string \<Rightarrow> go_error + 'a \<Rightarrow> go_error + 'a" where
  "Wrap msg r = map_sum (\<lambda>e. Foreign (msg @ '': '' @ error_msg e)) id r"

definition and_try :: "go_error + 'a \<Rightarrow> ('a \<Rightarrow> go_error + 'b) \<Rightarrow> go_error + 'b" where
  "and_try r f = (case r of Inl e \<Rightarrow> Inl e | Inr x \<Rightarrow> f x)"

lemma and_try_Inr [simp]: "and_try r f = Inr y \<longleftrightarrow> (\<exists>x. r = Inr x \<and> f x = Inr y)"
  by (simp add: and_try_def split: sum.split)

lemma Wrap_Inr [simp]: "Wrap msg r = Inr y \<longleftrightarrow> r = Inr y"
  by (cases r) (simp_all add: Wrap_def)

definition decryptMacaroon ::
  "'k snacl \<Rightarrow> (string \<Rightarrow> go_error + string) \<Rightarrow> string \<Rightarrow> string \<Rightarrow> string \<Rightarrow> go_error + string" where
  "decryptMacaroon S base64 keyBase64 dataBase64 pw =
     and_try (Wrap ''could not base64 decode encryption key'' (base64 keyBase64)) (\<lambda>keyData.
     and_try (Wrap ''could not base64 decode encrypted macaroon'' (base64 dataBase64)) (\<lambda>encryptedMac.
     and_try (Wrap ''could not unmarshall encryption key'' (UnmarshalKey S keyData)) (\<lambda>key.
     and_try (Wrap ''could not derive encryption key'' (DeriveKey S key pw)) (\<lambda>key.
     Wrap ''could not decrypt macaroon'' (Decrypt S key encryptedMac)))))"

definition LoadMacaroon ::
  "'mac codec \<Rightarrow> 'k snacl \<Rightarrow> (string \<Rightarrow> go_error + string) \<Rightarrow> go_error + string \<Rightarrow> string \<Rightarrow> go_error + 'mac" where
  "LoadMacaroon mc S base64 pwCallback macHex =
     (if TrimSpace macHex = [] then Inl ErrEmptyMac
      else
        and_try
          (if prefix encryptionPrefix macHex then
             (case split CHR '':'' macHex of
                [_, key, data] \<Rightarrow>
                  and_try (Wrap ''could not read password from terminal'' pwCallback)
                    (decryptMacaroon S base64 key data)
              | _ \<Rightarrow> Inl ErrInvalidMacEncrypt)
           else Wrap ''unable to hex decode macaroon'' (hex_decode macHex)) (\<lambda>macBytes.
        Wrap ''unable to decode macaroon'' (MacUnmarshal mc macBytes)))"

definition SafeCopyMacaroon :: "'mac codec \<Rightarrow> 'mac \<Rightarrow> go_error + 'mac" where
  "SafeCopyMacaroon mc mac = and_try (MacMarshal mc mac) (MacUnmarshal mc)"

definition NewMacaroonCredential :: "'mac codec \<Rightarrow> 'mac \<Rightarrow> go_error + 'mac" where
  "NewMacaroonCredential mc m = SafeCopyMacaroon mc m"

definition RequireTransportSecurity :: "'mac \<Rightarrow> bool" where
  "RequireTransportSecurity m = True"

text \<open>The metadata of a call: the value of the key \<^verbatim>\<open>macaroon\<close>.\<close>

definition GetRequestMetadata :: "'mac codec \<Rightarrow> 'mac \<Rightarrow> go_error + string gomap" where
  "GetRequestMetadata mc m =
     and_try (MacMarshal mc m) (\<lambda>macBytes. Inr [(''macaroon'', hex_encode macBytes)])"

text \<open>The credential that \<open>GetClientConn\<close> dials with; \<open>admin_mac\<close> is what reading the macaroon file
  answers, and \<open>None\<close> the connection without macaroons.\<close>

definition connection_credential ::
  "'mac codec \<Rightarrow> 'k snacl \<Rightarrow> (string \<Rightarrow> go_error + string) \<Rightarrow> go_error + string \<Rightarrow> (int \<Rightarrow> string) \<Rightarrow> int \<Rightarrow>
     go_error option \<Rightarrow> string \<Rightarrow> go_error + string \<Rightarrow> bool \<Rightarrow> 64 word \<Rightarrow> go_error + 'mac option" where
  "connection_credential mc S base64 ReadPassword TimeBeforeCaveat now tls adminMacPath admin_mac
      skipMacaroons macaroon_timeout =
     (case tls of
        Some e \<Rightarrow> Wrap ''could not get TLS credentials from file'' (Inl e)
      | None \<Rightarrow>
          if skipMacaroons then Inr None
          else
            and_try (Wrap (''could not read macaroon at '' @ adminMacPath) admin_mac) (\<lambda>adminMac.
            and_try (LoadMacaroon mc S base64 ReadPassword (hex_encode adminMac)) (\<lambda>mac.
            and_try (SafeCopyMacaroon mc mac) (\<lambda>newMac.
            and_try (AddConstraints newMac
                [TimeoutConstraint (AddFirstPartyCaveat mc) TimeBeforeCaveat now macaroon_timeout])
              (\<lambda>constrainedMac.
            and_try (NewMacaroonCredential mc constrainedMac) (\<lambda>cred. Inr (Some cred)))))))"

section \<open>What reaches the server\<close>

definition codec_laws :: "'mac codec \<Rightarrow> 'mac bakery \<Rightarrow> (int \<Rightarrow> string) \<Rightarrow> bool" where
  "codec_laws mc bk TimeBeforeCaveat \<longleftrightarrow>
     MacUnmarshal mc = Unmarshal bk \<and>
     (\<forall>m bs. MacMarshal mc m = Inr bs \<longrightarrow> Unmarshal bk bs = Inr m) \<and>
     (\<forall>m c m'. AddFirstPartyCaveat mc m c = Inr m' \<longrightarrow> Caveats bk m' = Caveats bk m @ [c]) \<and>
     (\<forall>t. \<exists>stamp. TimeBeforeCaveat t = ''time-before '' @ stamp \<and> CHR '' '' \<notin> set stamp \<and>
        stamp \<noteq> ''plugins'')"

lemma hex_encode_not_snacl: "\<not> prefix encryptionPrefix (hex_encode b)"
proof (cases b)
  case (Cons c cs)
  have "\<forall>n \<in> set [0..<16]. hex_digit n \<noteq> CHR ''s''" by code_simp
  moreover have "(of_char c :: nat) div 16 < 16"
    using nat_of_char_less_256 [of c] by (simp only: less_mult_imp_div_less)
  ultimately show ?thesis
    using Cons by (fastforce simp: encryptionPrefix_def Let_def)
qed (simp add: encryptionPrefix_def)

lemma LoadMacaroon_hex:
  "LoadMacaroon mc S base64 pw (hex_encode b) = Inr m \<Longrightarrow> MacUnmarshal mc b = Inr m"
  by (auto simp: LoadMacaroon_def hex_encode_not_snacl hex_decode_encode split: if_splits)

lemma SafeCopy_same:
  "codec_laws mc bk tb \<Longrightarrow> SafeCopyMacaroon mc m = Inr m' \<Longrightarrow> m' = m"
  by (auto simp: SafeCopyMacaroon_def codec_laws_def)

lemma plugin_check_neutral:
  "caveat_allows p c = Returns False \<Longrightarrow> plugin_check p (cs @ [c]) ok = plugin_check p cs ok"
  by (induction cs arbitrary: ok) (simp_all add: outcome_simps)

lemma authorize_neutral:
  "\<forall>p. caveat_allows p c = Returns False \<Longrightarrow>
     authorize_plugin sv ctx (cavs @ [c]) m = authorize_plugin sv ctx cavs m"
  by (simp add: authorize_plugin_def plugin_check_neutral split: option.split)


section \<open>Witness\<close>

lemma TrimSpace_Nil: "TrimSpace s = [] \<longleftrightarrow> (\<forall>c \<in> set s. is_space c)"
proof -
  have "TrimSpace s = [] \<longleftrightarrow> (\<forall>c \<in> set (dropWhile is_space s). is_space c)"
    by (simp add: TrimSpace_def TrimRight_def)
  also have "\<dots> \<longleftrightarrow> (\<forall>c \<in> set s. is_space c)" by (induction s) auto
  finally show ?thesis .
qed

definition demo_codec :: "string list codec" where
  "demo_codec =
     \<lparr>MacMarshal = (\<lambda>m. if split CHR '','' (join CHR '','' m) = m then Inr (join CHR '','' m)
        else Inl (Foreign ''unsupported caveat'')),
      MacUnmarshal = (\<lambda>bs. Inr (split CHR '','' bs)), AddFirstPartyCaveat = (\<lambda>m c. Inr (m @ [c]))\<rparr>"

lemma demo_codec_laws: "codec_laws demo_codec (demo_bakery v) (\<lambda>_. ''time-before now'')"
  by (auto simp: codec_laws_def demo_codec_def demo_bakery_def split: if_splits)


end
