(* ===== verification/PluginShutdown.thy ===== *)
theory PluginShutdown
  imports PluginLifecycle
begin

text \<open>
  What \<open>Stop\<close> of the plugin manager (\<^verbatim>\<open>plugins/service.go\<close>) achieves when the daemon shuts down:
  it runs the clean-up of every registered plugin, which stops or kills its process and takes its
  source off the queue manager, closes the quit channel and shuts the queue manager down.
\<close>

section \<open>One source\<close>

lemma wf_deregister_source:
  assumes wf: "wf_manager m" and "has_key (incomingQueues m) n"
  obtains m' where "deregister_source n m = Returns m'" "wf_manager m'"
    "\<And>k. has_key (incomingQueues m') k \<longleftrightarrow> k \<noteq> n \<and> has_key (incomingQueues m) k"
proof -
  from assms have "has_key (quitChans m) n" unfolding wf_manager_def by blast
  then obtain c where c: "map_of (quitChans m) n = Some c" unfolding has_key_def by blast
  let ?c = "c\<lparr>chan_closed := True\<rparr>"
  let ?m = "m\<lparr>quitChans := AList.update n ?c (quitChans m)\<rparr>"
  from wf_manager_source [OF wf c] obtain q where open_c: "\<not> chan_closed c"
    and q: "map_of (incomingQueues ?m) n = Some q" "source_ok q (map_of (forwarders ?m) n)" by auto
  from await_forwarder_ok [OF q] obtain m1 where m1: "await_forwarder n ?m = Returns m1"
      "quitChans m1 = quitChans ?m" "outgoingQueues m1 = outgoingQueues ?m"
      "AList.delete n (incomingQueues m1) = AList.delete n (incomingQueues ?m)"
      "AList.delete n (forwarders m1) = AList.delete n (forwarders ?m)"
    by blast
  let ?r = "m1\<lparr>wgs := AList.delete n (wgs m1), quitChans := AList.delete n (quitChans m1),
    incomingQueues := AList.delete n (incomingQueues m1)\<rparr>"
  have "deregister_source n m = Returns ?r"
    using c open_c m1(1) by (simp add: deregister_source_def chan_close_def)
  moreover have keys: "has_key (incomingQueues ?r) k \<longleftrightarrow> k \<noteq> n \<and> has_key (incomingQueues m) k" for k
    using m1(4) by simp
  moreover have "map_of (forwarders m1) k = map_of (forwarders m) k" if "k \<noteq> n" for k
    using delete_eq_other [OF m1(5) that] by simp
  with wf m1(2-4) have "wf_manager ?r"
    unfolding wf_manager_def by (simp add: delete_conv')
  ultimately show ?thesis using that by blast
qed

lemma Shutdown_keeps_absent:
  assumes "wf_manager m"
  shows "\<exists>m'. Shutdown m = Returns m' \<and>
    (\<forall>n. \<not> has_key (quitChans m) n \<longrightarrow> \<not> has_key (quitChans m') n)"
proof -
  from assms have dist: "distinct (map fst (quitChans m))"
    unfolding wf_manager_def wf_map_def by blast
  have "\<forall>(n, c) \<in> set (quitChans m). \<not> chan_closed c \<and>
      (\<exists>q. map_of (incomingQueues m) n = Some q \<and> source_ok q (map_of (forwarders m) n))"
    using wf_manager_source [OF assms] map_of_is_SomeI [OF dist] by blast
  from shutdown_chans_ok [OF dist this] show ?thesis
    unfolding Shutdown_def by (metis has_key_def has_key_iff_fst)
qed

section \<open>One plugin\<close>

lemma stop_or_kill_down:
  assumes "instance_ok i"
  obtains err g i' where "stop_or_kill a i = Returns (err, g, i')" "instance_ok i'" "cfg i' = cfg i"
    "client i \<noteq> None \<longrightarrow> client i' = None \<and> state i' = STOPPED"
proof -
  from stop_keeps_ok [OF assms] obtain err i' where s:
    "stop (stop_env a) (record_reply a) (stop_reply a) i = Returns (err, None, i')" "instance_ok i'"
    "cfg i' = cfg i" "state i' = STOPPED \<or> (i' = i \<and> (state i = KILLED \<or> client i = None))"
    by metis
  then have down: "client i \<noteq> None \<longrightarrow> client i' = None \<and> state i' = STOPPED"
    using assms by (auto simp: instance_ok_def)
  show ?thesis
  proof (cases "client i' = None")
    case True
    with s down that [of err None i'] show ?thesis by (simp add: stop_or_kill_def kill_None)
  next
    case False
    with down have "client i = None" by blast
    with False s assms have "state i' = STOPPED" by auto
    with False s(2) show ?thesis by (simp add: instance_ok_def)
  qed
qed

lemma cleanUp_ok:
  assumes "wf_manager (queueManager p)" and "map_of (pluginRegistry p) n = Some i"
    and "instance_ok i" and "has_key (incomingQueues (queueManager p)) n"
  obtains p' i' where "cleanUp a n p = Returns p'" "wf_manager (queueManager p')"
    "pluginRegistry p' = AList.update n i' (pluginRegistry p)" "client i' = None"
    "client i \<noteq> None \<longrightarrow> state i' = STOPPED" "client i = None \<longrightarrow> i' = i" "quitClosed p' = quitClosed p"
    "\<And>k. has_key (incomingQueues (queueManager p')) k \<longleftrightarrow>
       k \<noteq> n \<and> has_key (incomingQueues (queueManager p)) k"
proof -
  obtain qm where qm: "deregister_source n (queueManager p) = Returns qm" "wf_manager qm"
      "\<And>k. has_key (incomingQueues qm) k \<longleftrightarrow> k \<noteq> n \<and> has_key (incomingQueues (queueManager p)) k"
    using wf_deregister_source [OF assms(1,4)] by blast
  show ?thesis
  proof (cases "client i")
    case None
    with assms(2) qm(1) have "cleanUp a n p = Returns (p\<lparr>queueManager := qm\<rparr>)"
      by (simp add: cleanUp_def)
    moreover have "pluginRegistry p = AList.update n i (pluginRegistry p)"
      using assms(2) by (simp add: update_triv)
    ultimately show ?thesis using that [of "p\<lparr>queueManager := qm\<rparr>" i] None qm by simp
  next
    case (Some k)
    obtain err g i' where i': "stop_or_kill a i = Returns (err, g, i')" "client i' = None" "state i' = STOPPED"
      using stop_or_kill_down [OF assms(3), of a] Some by (metis option.distinct(1))
    let ?p = "(spawn n g (put_instance n i' p))\<lparr>queueManager := qm\<rparr>"
    have "cleanUp a n p = Returns ?p" using assms(2) Some i'(1) qm(1) by (simp add: cleanUp_def)
    moreover have "quitClosed ?p = quitClosed p"
      by (simp add: spawn_def put_instance_def split: option.split)
    ultimately show ?thesis using that [of ?p i'] Some i' qm by simp
  qed
qed

section \<open>All plugins\<close>

lemma clean_up_all_ok:
  assumes "wf_manager (queueManager p)" and "distinct ns"
    and "\<forall>n i. map_of (pluginRegistry p) n = Some i \<longrightarrow> (if n \<in> set ns
      then instance_ok i \<and> has_key (incomingQueues (queueManager p)) n else client i = None)"
    and "\<forall>n \<in> set ns. has_key (pluginRegistry p) n"
  shows "\<exists>p'. clean_up_all a ns p = Returns p' \<and> wf_manager (queueManager p') \<and>
    map fst (pluginRegistry p') = map fst (pluginRegistry p) \<and> quitClosed p' = quitClosed p \<and>
    (\<forall>n i. map_of (pluginRegistry p) n = Some i \<longrightarrow> (\<exists>i'. map_of (pluginRegistry p') n = Some i' \<and>
       client i' = None \<and> (client i \<noteq> None \<longrightarrow> state i' = STOPPED) \<and> (client i = None \<longrightarrow> i' = i))) \<and>
    (\<forall>k. has_key (incomingQueues (queueManager p')) k \<longleftrightarrow>
       has_key (incomingQueues (queueManager p)) k \<and> k \<notin> set ns)"
  using assms
proof (induction ns arbitrary: p)
  case Nil
  then show ?case by auto
next
  case (Cons n ns)
  from Cons.prems(4) obtain i where i: "map_of (pluginRegistry p) n = Some i"
    by (auto simp: has_key_def)
  with Cons.prems(3) have ok: "instance_ok i" "has_key (incomingQueues (queueManager p)) n" by auto
  obtain p1 i1 where p1: "cleanUp (a n) n p = Returns p1" "wf_manager (queueManager p1)"
      "pluginRegistry p1 = AList.update n i1 (pluginRegistry p)" "client i1 = None"
      "client i \<noteq> None \<longrightarrow> state i1 = STOPPED" "client i = None \<longrightarrow> i1 = i" "quitClosed p1 = quitClosed p"
      "\<And>k. has_key (incomingQueues (queueManager p1)) k \<longleftrightarrow>
         k \<noteq> n \<and> has_key (incomingQueues (queueManager p)) k"
    using cleanUp_ok [OF Cons.prems(1) i ok] by metis
  have fst1: "map fst (pluginRegistry p1) = map fst (pluginRegistry p)"
    using p1(3) i by (simp add: update_keys image_iff) (force dest: map_of_SomeD)
  have look: "map_of (pluginRegistry p1) m = (if m = n then Some i1 else map_of (pluginRegistry p) m)" for m
    using p1(3) by simp
  have dist: "distinct ns" using Cons.prems(2) by simp
  have ready: "\<forall>m j. map_of (pluginRegistry p1) m = Some j \<longrightarrow> (if m \<in> set ns
      then instance_ok j \<and> has_key (incomingQueues (queueManager p1)) m else client j = None)"
    using Cons.prems(2,3) look p1(4,8) by auto
  have "\<forall>m \<in> set ns. has_key (pluginRegistry p1) m"
    using Cons.prems(4) p1(3) by auto
  from Cons.IH [OF p1(2) dist ready this] obtain p' where p': "clean_up_all a ns p1 = Returns p'" "wf_manager (queueManager p')"
      "map fst (pluginRegistry p') = map fst (pluginRegistry p1)" "quitClosed p' = quitClosed p1"
      "\<forall>n i. map_of (pluginRegistry p1) n = Some i \<longrightarrow> (\<exists>i'. map_of (pluginRegistry p') n = Some i' \<and>
       client i' = None \<and> (client i \<noteq> None \<longrightarrow> state i' = STOPPED) \<and> (client i = None \<longrightarrow> i' = i))"
      "\<forall>k. has_key (incomingQueues (queueManager p')) k \<longleftrightarrow>
         has_key (incomingQueues (queueManager p1)) k \<and> k \<notin> set ns"
    by blast
  have "\<exists>j'. map_of (pluginRegistry p') m = Some j' \<and> client j' = None \<and>
      (client j \<noteq> None \<longrightarrow> state j' = STOPPED) \<and> (client j = None \<longrightarrow> j' = j)"
    if "map_of (pluginRegistry p) m = Some j" for m j
  proof (cases "m = n")
    case True
    with look [of m] have "map_of (pluginRegistry p1) m = Some i1" by simp
    with p'(5) p1(4) have "map_of (pluginRegistry p') m = Some i1" by blast
    with True that i p1(4-6) show ?thesis by auto
  next
    case False
    with look [of m] that p'(5) show ?thesis by simp
  qed
  with p1 p' fst1 show ?case by auto
qed

text \<open>What \<open>Stop\<close> does to a manager in order that is not stopped.\<close>

lemma Stop_all:
  assumes "wf_pm p" and "\<not> quitClosed p"
  shows "\<exists>p'. PluginManager.Stop a p = Returns p' \<and> quitClosed p' \<and>
    map fst (pluginRegistry p') = map fst (pluginRegistry p) \<and>
    (\<forall>n i. map_of (pluginRegistry p) n = Some i \<longrightarrow> (\<exists>i'. map_of (pluginRegistry p') n = Some i' \<and>
       client i' = None \<and> (client i \<noteq> None \<longrightarrow> state i' = STOPPED))) \<and>
    (\<forall>a'. PluginManager.Stop a' p' = Panics)"
proof -
  let ?ns = "map fst (pluginRegistry p)"
  from assms(1) have wf: "wf_manager (queueManager p)" "distinct ?ns"
    "\<forall>n i. map_of (pluginRegistry p) n = Some i \<longrightarrow>
      (if n \<in> set ?ns then instance_ok i \<and> has_key (incomingQueues (queueManager p)) n else client i = None)"
    "\<forall>n \<in> set ?ns. has_key (pluginRegistry p) n"
    by (auto simp: wf_pm_def wf_map_def has_key_iff_fst dest!: map_of_SomeD) force
  from clean_up_all_ok [OF this, of a] obtain p1 where p1: "clean_up_all a ?ns p = Returns p1"
      "wf_manager (queueManager p1)" "map fst (pluginRegistry p1) = ?ns" "quitClosed p1 = quitClosed p"
      "\<forall>n i. map_of (pluginRegistry p) n = Some i \<longrightarrow> (\<exists>i'. map_of (pluginRegistry p1) n = Some i' \<and>
       client i' = None \<and> (client i \<noteq> None \<longrightarrow> state i' = STOPPED) \<and> (client i = None \<longrightarrow> i' = i))"
      "\<forall>k. has_key (incomingQueues (queueManager p1)) k \<longleftrightarrow>
         has_key (incomingQueues (queueManager p)) k \<and> k \<notin> set ?ns"
    by blast
  from Shutdown_keeps_absent [OF p1(2)] obtain qm where qm: "Shutdown (queueManager p1) = Returns qm"
      "\<And>n. \<not> has_key (quitChans (queueManager p1)) n \<Longrightarrow> \<not> has_key (quitChans qm) n" by metis
  let ?q = "p1\<lparr>quitClosed := True, queueManager := qm\<rparr>"
  from p1 qm assms(2) have run: "PluginManager.Stop a p = Returns ?q"
    by (simp add: PluginManager.Stop_def)
  have gone: "\<not> has_key (quitChans qm) n" if "has_key (pluginRegistry p1) n" for n
    using that p1(2,3,6) qm(2) unfolding wf_manager_def by (metis has_key_iff_fst set_map)
  have "PluginManager.Stop a' ?q = Panics" for a'
  proof (cases "pluginRegistry p1")
    case (Cons e rest)
    obtain n i where e: "e = (n, i)" by force
    have i: "map_of (pluginRegistry ?q) n = Some i" using Cons e by simp
    have "has_key (pluginRegistry p) n" using p1(3) Cons e by (metis has_key_iff_fst has_key_Cons set_map)
    then obtain j where "map_of (pluginRegistry p) n = Some j" unfolding has_key_def by blast
    with p1(5) i have "client i = None" by fastforce
    moreover have "map_of (quitChans qm) n = None" using gone [of n] Cons e by (simp add: has_key_def)
    ultimately show ?thesis using Cons e
      by (simp add: PluginManager.Stop_def cleanUp_def deregister_source_def)
  qed (simp add: PluginManager.Stop_def)
  moreover have "\<forall>n i. map_of (pluginRegistry p) n = Some i \<longrightarrow> (\<exists>i'. map_of (pluginRegistry ?q) n = Some i' \<and>
       client i' = None \<and> (client i \<noteq> None \<longrightarrow> state i' = STOPPED))" using p1(5) by simp metis
  moreover have "quitClosed ?q" "map fst (pluginRegistry ?q) = map fst (pluginRegistry p)" using p1(3) by simp_all
  ultimately show ?thesis using run by (intro exI [of _ ?q]) blast
qed


section \<open>Witness\<close>


end
