(* ===== verification/Daemon.thy ===== *)
theory Daemon
  imports Unlocker RpcServer PluginShutdown Health Cert Address Config
begin

text \<open>
  Files \<^verbatim>\<open>core/laniakea.go\<close>, \<^verbatim>\<open>core/server.go\<close> and \<^verbatim>\<open>cmd/laniakea/main.go\<close>: the boot sequence that
  puts the components together, and its shutdown. \<open>daemon\<close> is what \<open>Main\<close> has built so far: where
  it is (\<open>pc\<close>), the calls it has deferred (the latest first), and the components. \<open>main_step\<close> is
  the code from one place to the next; it waits (\<open>None\<close>) where the code blocks on a channel, and
  it runs the deferred calls one by one. \<^verbatim>\<open>Fatal\<close> of the logger ends the process without them.

  \<open>daemon_move\<close> interleaves these steps with the rest of the process: a client's call passes the
  interceptors, its handler runs some time later, the monitor and the goroutines of the plugins
  move, and signals arrive. What the libraries and the operating system answer is in \<open>env\<close>.
  The stores of the unlocker and of the macaroon service are buckets of one database, and their
  files those of one disk, so the model keeps one copy of each.
\<close>

section \<open>The server object\<close>

definition server_Start :: "32 word \<Rightarrow> go_error option \<times> 32 word" where
  "server_Start active =
     (case compare_and_swap active 0 1 of
        (False, v) \<Rightarrow> (Some ErrServiceAlreadyStarted, v)
      | (True, v) \<Rightarrow> (None, v))"

definition server_Stop :: "32 word \<Rightarrow> go_error option \<times> 32 word" where
  "server_Stop active =
     (case compare_and_swap active 1 0 of
        (False, v) \<Rightarrow> (Some ErrServiceAlreadyStopped, v)
      | (True, v) \<Rightarrow> (None, v))"

section \<open>The REST proxy\<close>

definition FormatInt :: "64 word \<Rightarrow> string" where
  "FormatInt w = (if w <s 0 then CHR ''-'' # Itoa (nat (- sint w)) else Itoa (nat (sint w)))"

text \<open>\<^verbatim>\<open>strings.Replace(s, old, new, 1)\<close>.\<close>

fun replace_first :: "string \<Rightarrow> string \<Rightarrow> string \<Rightarrow> string" where
  "replace_first old new [] = (if old = [] then new else [])"
| "replace_first old new (c # cs) =
     (if prefix old (c # cs) then new @ drop (length old) (c # cs) else c # replace_first old new cs)"

definition rest_proxy_dest :: "string \<Rightarrow> string" where
  "rest_proxy_dest dest =
     (if contains dest ''0.0.0.0'' then replace_first ''0.0.0.0'' ''127.0.0.1'' dest
      else if contains dest ''[::]'' then replace_first ''[::]'' ''[::1]'' dest
      else dest)"

text \<open>\<open>register\<close> answers for the registration of one service with the proxy; the unlocker comes
  first, outside of the list. A failure to resolve or to open the REST address is logged only:
  \<^verbatim>\<open>restEndpoints[0]\<close> of the empty list and \<^verbatim>\<open>lis.Addr()\<close> of the \<^verbatim>\<open>nil\<close> listener panic. The answer is
  the destination of the proxied calls and the address listened on.\<close>

fun register_services :: "('s \<Rightarrow> go_error option) \<Rightarrow> 's list \<Rightarrow> go_error option" where
  "register_services register [] = None"
| "register_services register (s # ss) =
     (case register s of Some e \<Rightarrow> Some e | None \<Rightarrow> register_services register ss)"

definition startRestProxy ::
  "'a net \<Rightarrow> (string \<Rightarrow> string \<Rightarrow> go_error option) \<Rightarrow> ('a \<Rightarrow> go_error option) \<Rightarrow> config \<Rightarrow>
     string list \<Rightarrow> (go_error + string \<times> 'a) outcome" where
  "startRestProxy n register restListen c services =
     (case NormalizeAddresses n (ResolveTCPAddr n) [''localhost:'' @ FormatInt (GrpcPort c)]
         (FormatInt (GrpcPort c)) of
        Inl e \<Rightarrow> Returns (Inl e)
      | Inr [] \<Rightarrow> Panics
      | Inr (a # _) \<Rightarrow>
          let dest = rest_proxy_dest (addr_String n a) in
          (case register_services (\<lambda>s. register s dest) (''unlocker'' # services) of
             Some e \<Rightarrow> Returns (Inl e)
           | None \<Rightarrow>
               (case NormalizeAddresses n (ResolveTCPAddr n) [''0.0.0.0:'' @ FormatInt (RestPort c)]
                   (FormatInt (RestPort c)) of
                  Inr (restEndpoint # _) \<Rightarrow>
                    if restListen restEndpoint \<noteq> None then Panics
                    else Returns (Inr (dest, restEndpoint))
                | _ \<Rightarrow> Panics)))"

section \<open>State and environment\<close>

datatype place =
    AtServer | AtTLS | AtRpcServer | AtGate | AtHealth | AtManager | AtPluginHealth | AtDatabase
  | AtUnlocker | AtRpcStart | AtListen | AtProxy | AtLock | AtPassword | AtUnlock | AtService
  | AtStore | AtMacaroons | AtServices | AtActive | AtShutdown
  | Leaving "go_error option" | Returned "go_error option" | Exited | Crashed

datatype deferred =
    Cancel | ServerStop | CertCleanUp | GrpcStop | ManagerStop | CloseDB | RpcStop | StopProxy
  | CloseMacaroons | CleanUpServices

datatype checked_service = TheRpcServer | ThePluginManager

text \<open>A call of the API that can change something, with what its handler will be answered. The
  unlocker's calls carry the choices of the handler's final \<^verbatim>\<open>select\<close>.\<close>

datatype api_call =
    CLogin bool bool "string option"
  | CSetPassword bool bool "string option"
  | CChangePassword nat nat "string set" bool bool change_request
  | CStopDaemon
  | CPlugin pm_event

record ('k, 'mac, 'ck, 'ip, 'cert, 'a) boot_env =
  the_config :: config
  crypto_lib :: "('ck, 'ip, 'cert) crypto"
  gen_first :: "('ck, 'ip) gen_answers"
  gen_again :: "('ck, 'ip) gen_answers"
  tls_now :: int
  Remove_answer :: "string \<Rightarrow> go_error option"
  Listen_answer :: "go_error option"
  listen_addr :: string
  listen_close :: "go_error option"
  app_version :: string
  handshakes :: "plugin_config \<Rightarrow> handshake_answers"
  stop_plugin_answers :: "string \<Rightarrow> stop_answers"
  open_db_answer :: "go_error option"
  bolt_lib :: bolt
  snacl_lib :: "'k snacl"
  sha256_lib :: "string \<Rightarrow> string"
  net_lib :: "'a net"
  register_answer :: "string \<Rightarrow> string \<Rightarrow> go_error option"
  rest_listen_answer :: "'a \<Rightarrow> go_error option"
  password_first :: bool
  bakery_lib :: "'mac bakery"
  baking_lib :: "'mac baking"
  unlock_nonce :: nat
  root_key_bytes :: "go_error + string"
  root_key_nonce :: nat
  bake_now :: int
  WriteFile_answer :: "string \<Rightarrow> go_error option"

record ('k, 'cert, 'a) daemon =
  pc :: place
  defers :: "deferred list"
  serverActive :: "32 word"
  started_flag :: "32 word"
  cancelled :: bool
  disk :: "string gomap"
  certificate :: "('cert \<times> int) option"
  gate :: grpc_interceptor
  rpc :: rpc_server
  checker :: "checked_service health_service"
  manager :: plugin_manager
  monitoring :: bool
  db_open :: bool
  unl :: unlocker
  serving :: bool
  proxy :: "(string \<times> 'a) option"
  pwd :: "string option"
  store :: "'k rks"
  inflight :: "(api_call \<times> rpc_context) list"
  late_calls :: nat

text \<open>The last two are the calls that have passed the interceptors and whose handlers have not run
  yet, and the number of plugin handlers that ran after the plugin manager was stopped, which the
  program does not keep. A component that has not been created yet has the value of its
  constructor; the buckets, files and the shutdown interceptor are there from the beginning.\<close>

definition new_daemon ::
  "interceptor \<Rightarrow> 32 word \<Rightarrow> string gomap \<Rightarrow> bucket option \<Rightarrow> bucket option \<Rightarrow> ('k, 'cert, 'a) daemon" where
  "new_daemon i started fs pwd_bucket mac_bucket =
     \<lparr>pc = AtServer, defers = [Cancel], serverActive = 0, started_flag = started, cancelled = False,
      disk = fs, certificate = None, gate = NewGrpcInterceptor False,
      rpc = \<lparr>Active = 0, srv_interceptor = i, grpcInterceptor = None, quit = make_chan 1,
        macSvc = None, listening = False\<rparr>,
      checker = NewHealthService, manager = NewPluginManager '''' [] False, monitoring = False,
      db_open = False,
      unl = \<lparr>ps_pwd = pwd_bucket, ps_mac = mac_bucket, PasswordMsgs = make_chan 1,
        macaroonFiles = [], files = []\<rparr>,
      serving = False, proxy = None, pwd = None, store = \<lparr>Bucket = None, encKey = None\<rparr>,
      inflight = [], late_calls = 0\<rparr>"

text \<open>\<^verbatim>\<open>cmd/laniakea/main.go\<close>: each of the four initialisations may fail and end the process.\<close>

definition cmd_main ::
  "32 word \<Rightarrow> go_error + config \<Rightarrow> go_error option \<Rightarrow> go_error option \<Rightarrow> string gomap \<Rightarrow>
     bucket option \<Rightarrow> bucket option \<Rightarrow> go_error + config \<times> ('k, 'cert, 'a) daemon" where
  "cmd_main started cfg_answer log_answer server_answer fs pwd_bucket mac_bucket =
     (case InitInterceptor started of
        (Inl e, _) \<Rightarrow> Inl e
      | (Inr i, s) \<Rightarrow>
          (case cfg_answer of
             Inl e \<Rightarrow> Inl e
           | Inr c \<Rightarrow>
               (case log_answer of
                  Some e \<Rightarrow> Inl e
                | None \<Rightarrow>
                    (case server_answer of
                       Some e \<Rightarrow> Inl e
                     | None \<Rightarrow> Inr (c, new_daemon i s fs pwd_bucket mac_bucket)))))"

section \<open>The stages of \<open>Main\<close>\<close>

definition leave :: "go_error \<Rightarrow> ('k, 'cert, 'a) daemon \<Rightarrow> ('k, 'cert, 'a) daemon" where
  "leave e d = d\<lparr>pc := Leaving (Some e)\<rparr>"

definition registered_names :: "config \<Rightarrow> string list" where
  "registered_names c = map Name (Plugins c)"

definition at_server :: "('k, 'cert, 'a) daemon \<Rightarrow> ('k, 'cert, 'a) daemon" where
  "at_server d =
     (case server_Start (serverActive d) of
        (Some _, v) \<Rightarrow> d\<lparr>serverActive := v, pc := Exited\<rparr>
      | (None, v) \<Rightarrow> d\<lparr>serverActive := v, defers := ServerStop # defers d, pc := AtTLS\<rparr>)"

definition at_tls ::
  "('k, 'mac, 'ck, 'ip, 'cert, 'a) boot_env \<Rightarrow> ('k, 'cert, 'a) daemon \<Rightarrow> ('k, 'cert, 'a) daemon" where
  "at_tls env d =
     (let c = the_config env in
      case GetTLSConfig (crypto_lib env) (gen_first env) (gen_again env) (tls_now env) (Remove_answer env)
          (TLSCertPath c) (TLSKeyPath c) (ExtraIPAddr c) (disk d) of
        (Inl e, fs) \<Rightarrow> leave e (d\<lparr>disk := fs\<rparr>)
      | (Inr cert, fs) \<Rightarrow>
          d\<lparr>disk := fs, certificate := Some cert, defers := CertCleanUp # defers d, pc := AtRpcServer\<rparr>)"

definition at_rpc_server ::
  "('k, 'mac, 'ck, 'ip, 'cert, 'a) boot_env \<Rightarrow> ('k, 'cert, 'a) daemon \<Rightarrow> ('k, 'cert, 'a) daemon" where
  "at_rpc_server env d =
     (case NewRpcServer (srv_interceptor (rpc d)) (Listen_answer env) of
        Inl _ \<Rightarrow> d\<lparr>pc := Exited\<rparr>
      | Inr r \<Rightarrow> d\<lparr>rpc := r, pc := AtGate\<rparr>)"

definition at_gate :: "('k, 'cert, 'a) daemon \<Rightarrow> ('k, 'cert, 'a) daemon" where
  "at_gate d =
     (case Interceptors.AddPermissions MainGrpcServerPermissions (NewGrpcInterceptor False) of
        (Some e, g) \<Rightarrow> leave e (d\<lparr>gate := g\<rparr>)
      | (None, g) \<Rightarrow>
          d\<lparr>gate := g, rpc := AddGrpcInterceptor g (rpc d), defers := GrpcStop # defers d, pc := AtHealth\<rparr>)"

definition at_health :: "('k, 'cert, 'a) daemon \<Rightarrow> ('k, 'cert, 'a) daemon" where
  "at_health d =
     (case RegisterHealthService ''main'' TheRpcServer NewHealthService of
        (Some e, h) \<Rightarrow> leave e (d\<lparr>checker := h\<rparr>)
      | (None, h) \<Rightarrow> d\<lparr>checker := h, pc := AtManager\<rparr>)"

definition at_manager ::
  "('k, 'mac, 'ck, 'ip, 'cert, 'a) boot_env \<Rightarrow> ('k, 'cert, 'a) daemon \<Rightarrow> ('k, 'cert, 'a) daemon outcome" where
  "at_manager env d =
     (let c = the_config env in
      case PluginManager.AddPermissions StreamingPluginAPIPermission
          (NewPluginManager (PluginDir c) (Plugins c) False) of
        (Some e, p) \<Rightarrow> Returns (leave e (d\<lparr>manager := p\<rparr>))
      | (None, p) \<Rightarrow>
          and_then (PluginManager.Start (app_version env) (handshakes env) p) (\<lambda>(r, p).
          Returns (case r of
              Some e \<Rightarrow> leave e (d\<lparr>manager := p\<rparr>)
            | None \<Rightarrow> d\<lparr>manager := p, monitoring := True, defers := ManagerStop # defers d,
                pc := AtPluginHealth\<rparr>)))"

definition at_plugin_health :: "('k, 'cert, 'a) daemon \<Rightarrow> ('k, 'cert, 'a) daemon" where
  "at_plugin_health d =
     (case RegisterHealthService ''plugins'' ThePluginManager (checker d) of
        (Some e, h) \<Rightarrow> leave e (d\<lparr>checker := h\<rparr>)
      | (None, h) \<Rightarrow> d\<lparr>checker := h, pc := AtDatabase\<rparr>)"

definition at_database ::
  "('k, 'mac, 'ck, 'ip, 'cert, 'a) boot_env \<Rightarrow> ('k, 'cert, 'a) daemon \<Rightarrow> ('k, 'cert, 'a) daemon" where
  "at_database env d =
     (case open_db_answer env of
        Some _ \<Rightarrow> d\<lparr>pc := Exited\<rparr>
      | None \<Rightarrow> d\<lparr>db_open := True, defers := CloseDB # defers d, pc := AtUnlocker\<rparr>)"

definition at_unlocker ::
  "('k, 'mac, 'ck, 'ip, 'cert, 'a) boot_env \<Rightarrow> ('k, 'cert, 'a) daemon \<Rightarrow> ('k, 'cert, 'a) daemon outcome" where
  "at_unlocker env d =
     (let c = the_config env in
      and_then (InitUnlockerService (bolt_lib env) (ps_pwd (unl d)) (ps_mac (unl d))
          [AdminMacPath c, TestMacPath c] (map fst (disk d))) (\<lambda>r.
      Returns (case r of
          Inl _ \<Rightarrow> d\<lparr>pc := Exited\<rparr>
        | Inr u \<Rightarrow> d\<lparr>unl := u, pc := AtRpcStart\<rparr>)))"

definition at_rpc_start :: "('k, 'cert, 'a) daemon \<Rightarrow> ('k, 'cert, 'a) daemon" where
  "at_rpc_start d =
     (case RpcServer.Start (rpc d) of
        (Some _, r) \<Rightarrow> d\<lparr>rpc := r, pc := Exited\<rparr>
      | (None, r) \<Rightarrow> d\<lparr>rpc := r, defers := RpcStop # defers d, pc := AtListen\<rparr>)"

text \<open>\<open>startGrpcListen\<close> starts the serving goroutine and never fails.\<close>

definition startGrpcListen :: "('k, 'cert, 'a) daemon \<Rightarrow> go_error option \<times> ('k, 'cert, 'a) daemon" where
  "startGrpcListen d = (None, d\<lparr>serving := True\<rparr>)"

definition at_listen :: "('k, 'cert, 'a) daemon \<Rightarrow> ('k, 'cert, 'a) daemon" where
  "at_listen d =
     (case startGrpcListen d of
        (Some _, d) \<Rightarrow> d\<lparr>pc := Exited\<rparr>
      | (None, d) \<Rightarrow> d\<lparr>pc := AtProxy\<rparr>)"

definition at_proxy ::
  "('k, 'mac, 'ck, 'ip, 'cert, 'a) boot_env \<Rightarrow> ('k, 'cert, 'a) daemon \<Rightarrow> ('k, 'cert, 'a) daemon outcome" where
  "at_proxy env d =
     and_then (startRestProxy (net_lib env) (register_answer env) (rest_listen_answer env)
         (the_config env) [''rpc'', ''unlocker'', ''plugins'', ''health'']) (\<lambda>r.
     Returns (case r of
         Inl e \<Rightarrow> leave e d
       | Inr a \<Rightarrow> d\<lparr>proxy := Some a, defers := StopProxy # defers d, pc := AtLock\<rparr>))"

text \<open>\<open>waitForPassword\<close>: \<open>None\<close> while neither a password nor the shutdown is there; \<open>password_first\<close>
  is the choice of the \<^verbatim>\<open>select\<close> when both are.\<close>

definition waitForPassword ::
  "bool \<Rightarrow> unlocker \<Rightarrow> interceptor \<Rightarrow> ((go_error + string option) \<times> unlocker) option" where
  "waitForPassword first u i =
     (case chan_recv (PasswordMsgs u) of
        Returns (Some msg, c) \<Rightarrow>
          if chan_closed (ShutdownChannel i) \<and> \<not> first then Some (Inl ErrShutdown, u)
          else Some (case Err msg of Some e \<Rightarrow> Inl e | None \<Rightarrow> Inr (Password msg), u\<lparr>PasswordMsgs := c\<rparr>)
      | _ \<Rightarrow> if chan_closed (ShutdownChannel i) then Some (Inl ErrShutdown, u) else None)"

definition at_password ::
  "('k, 'mac, 'ck, 'ip, 'cert, 'a) boot_env \<Rightarrow> ('k, 'cert, 'a) daemon \<Rightarrow> ('k, 'cert, 'a) daemon option" where
  "at_password env d =
     (case waitForPassword (password_first env) (unl d) (srv_interceptor (rpc d)) of
        None \<Rightarrow> None
      | Some (Inl e, u) \<Rightarrow> Some (leave e (d\<lparr>unl := u\<rparr>))
      | Some (Inr p, u) \<Rightarrow> Some (d\<lparr>unl := u, pwd := p, pc := AtUnlock\<rparr>))"

text \<open>\<open>InitService\<close> of \<^verbatim>\<open>macaroons/service.go\<close>: the service, its store, and the caveat checkers that
  are registered, beside the \<open>builtin\<close> ones of the library.\<close>

definition InitService ::
  "bolt \<Rightarrow> checker_info list \<Rightarrow> string list \<Rightarrow> string list \<Rightarrow> bucket option \<Rightarrow>
     (go_error + mac_service \<times> 'k rks \<times> checker_info list) \<times> bucket option" where
  "InitService db builtin pluginNames checks b =
     (case InitRootKeyStorage db b of
        (Inl e, b) \<Rightarrow> (Inl e, b)
      | (Inr r, b) \<Rightarrow>
          (Inr (\<lparr>ExternalValidators = [], registeredPlugins = pluginNames\<rparr>, r,
             register_checks checks builtin), b))"

text \<open>The service itself does not change between here and \<open>at_services\<close>, which hands it out; what
  changes is its store, kept in the field \<open>store\<close>.\<close>

definition macaroon_service :: "config \<Rightarrow> mac_service" where
  "macaroon_service c = \<lparr>ExternalValidators = [], registeredPlugins = registered_names c\<rparr>"

definition at_service ::
  "('k, 'mac, 'ck, 'ip, 'cert, 'a) boot_env \<Rightarrow> ('k, 'cert, 'a) daemon \<Rightarrow> ('k, 'cert, 'a) daemon" where
  "at_service env d =
     (case InitService (bolt_lib env) [] (registered_names (the_config env)) [] (ps_mac (unl d)) of
        (Inl e, b) \<Rightarrow> leave e (d\<lparr>unl := (unl d)\<lparr>ps_mac := b\<rparr>\<rparr>)
      | (Inr (_, r, _), b) \<Rightarrow>
          d\<lparr>unl := (unl d)\<lparr>ps_mac := b\<rparr>, store := r, defers := CloseMacaroons # defers d, pc := AtStore\<rparr>)"

text \<open>An operation of the store works on the bucket in the database.\<close>

definition on_store ::
  "('k rks \<Rightarrow> ('r, 'k) store_result) \<Rightarrow> ('k, 'cert, 'a) daemon \<Rightarrow> (go_error + 'r) \<times> ('k, 'cert, 'a) daemon" where
  "on_store f d =
     (case f ((store d)\<lparr>Bucket := ps_mac (unl d)\<rparr>) of
        (r, s) \<Rightarrow> (r, d\<lparr>store := s, unl := (unl d)\<lparr>ps_mac := Bucket s\<rparr>\<rparr>))"

definition at_store ::
  "('k, 'mac, 'ck, 'ip, 'cert, 'a) boot_env \<Rightarrow> ('k, 'cert, 'a) daemon \<Rightarrow> ('k, 'cert, 'a) daemon" where
  "at_store env d =
     (case on_store (CreateUnlock (bolt_lib env) (snacl_lib env) (unlock_nonce env) (Some (bytes (pwd d)))) d of
        (Inl e, d) \<Rightarrow> leave e d
      | (Inr _, d) \<Rightarrow> d\<lparr>pc := AtMacaroons\<rparr>)"

definition remove_macaroon ::
  "('k, 'mac, 'ck, 'ip, 'cert, 'a) boot_env \<Rightarrow> string \<Rightarrow> string gomap \<Rightarrow> string gomap" where
  "remove_macaroon env path fs =
     (if FileExists (exists_in fs) path then
        (case Remove_answer env path of Some _ \<Rightarrow> fs | None \<Rightarrow> AList.delete path fs)
      else fs)"

text \<open>Baking asks the store for the root key of the identifier in the context, which makes it the
  first time.\<close>

definition baking_ctx :: rpc_context where
  "baking_ctx = \<lparr>ctx_md = None, ctx_plugin = None, ctx_root_key_id = None\<rparr>"

definition bake_to_file ::
  "('k, 'mac, 'ck, 'ip, 'cert, 'a) boot_env \<Rightarrow> string \<Rightarrow> op list \<Rightarrow> 64 word \<Rightarrow> string list \<Rightarrow>
     ('k, 'cert, 'a) daemon \<Rightarrow> go_error option \<times> ('k, 'cert, 'a) daemon" where
  "bake_to_file env path perms seconds pluginNames d =
     (if FileExists (exists_in (disk d)) path then (None, d)
      else
        (case on_store (RootKey (bolt_lib env) (snacl_lib env) (root_key_bytes env) (root_key_nonce env)
            (ContextWithRootKeyId baking_ctx DefaultRootKeyID)) d of
           (Inl e, d) \<Rightarrow> (Some e, d)
         | (Inr _, d) \<Rightarrow>
             (case genMacaroons (baking_lib env) (bake_now env) (WriteFile_answer env) baking_ctx path
                 perms seconds pluginNames (disk d) of
                (r, fs) \<Rightarrow> (r, d\<lparr>disk := fs\<rparr>))))"

definition at_macaroons ::
  "('k, 'mac, 'ck, 'ip, 'cert, 'a) boot_env \<Rightarrow> ('k, 'cert, 'a) daemon \<Rightarrow> ('k, 'cert, 'a) daemon" where
  "at_macaroons env d =
     (let c = the_config env;
          d = (if RegenerateMacaroons c
            then d\<lparr>disk := remove_macaroon env (TestMacPath c) (remove_macaroon env (AdminMacPath c) (disk d))\<rparr>
            else d)
      in
      case bake_to_file env (AdminMacPath c) adminPermissions 0 [''all''] d of
        (Some e, d) \<Rightarrow> leave e d
      | (None, d) \<Rightarrow>
          (case bake_to_file env (TestMacPath c) readPermissions 120 (registered_names c) d of
             (Some e, d) \<Rightarrow> leave e d
           | (None, d) \<Rightarrow>
               let s = macaroon_service c in
               d\<lparr>gate := Interceptors.AddMacaroonService s (gate d),
                 rpc := RpcServer.AddMacaroonService s (rpc d),
                 manager := PluginManager.AddMacaroonService s (manager d), pc := AtServices\<rparr>))"

text \<open>The list of services is empty: nothing is started, and \<open>cleanUpServices\<close> stops nothing.\<close>

definition at_services :: "('k, 'cert, 'a) daemon \<Rightarrow> ('k, 'cert, 'a) daemon" where
  "at_services d = d\<lparr>defers := CleanUpServices # defers d, pc := AtActive\<rparr>"

section \<open>Leaving\<close>

text \<open>A deferred call. The errors of the \<open>Stop\<close> methods are not looked at.\<close>

definition run_deferred ::
  "('k, 'mac, 'ck, 'ip, 'cert, 'a) boot_env \<Rightarrow> deferred \<Rightarrow> ('k, 'cert, 'a) daemon \<Rightarrow>
     ('k, 'cert, 'a) daemon outcome" where
  "run_deferred env c d =
     (case c of
        Cancel \<Rightarrow> Returns (d\<lparr>cancelled := True\<rparr>)
      | ServerStop \<Rightarrow> Returns (d\<lparr>serverActive := snd (server_Stop (serverActive d))\<rparr>)
      | CertCleanUp \<Rightarrow> Returns d
      | GrpcStop \<Rightarrow> Returns (d\<lparr>serving := False\<rparr>)
      | ManagerStop \<Rightarrow>
          and_then (PluginManager.Stop (stop_plugin_answers env) (manager d)) (\<lambda>p.
          Returns (d\<lparr>manager := p, monitoring := False\<rparr>))
      | CloseDB \<Rightarrow> Returns (d\<lparr>db_open := False\<rparr>)
      | RpcStop \<Rightarrow>
          and_then (RpcServer.Stop (listen_addr env) (listen_close env) (rpc d)) (\<lambda>(_, r).
          Returns (d\<lparr>rpc := r\<rparr>))
      | StopProxy \<Rightarrow> Returns (d\<lparr>proxy := None\<rparr>)
      | CloseMacaroons \<Rightarrow> Returns (d\<lparr>store := RootKeyStorage.Close (store d)\<rparr>)
      | CleanUpServices \<Rightarrow> Returns d)"

definition leaving ::
  "('k, 'mac, 'ck, 'ip, 'cert, 'a) boot_env \<Rightarrow> go_error option \<Rightarrow> ('k, 'cert, 'a) daemon \<Rightarrow>
     ('k, 'cert, 'a) daemon outcome" where
  "leaving env e d =
     (case defers d of
        [] \<Rightarrow> Returns (d\<lparr>pc := Returned e\<rparr>)
      | c # cs \<Rightarrow> run_deferred env c (d\<lparr>defers := cs\<rparr>))"

definition main_step ::
  "('k, 'mac, 'ck, 'ip, 'cert, 'a) boot_env \<Rightarrow> ('k, 'cert, 'a) daemon \<Rightarrow> ('k, 'cert, 'a) daemon outcome option" where
  "main_step env d =
     (case pc d of
        AtServer \<Rightarrow> Some (Returns (at_server d))
      | AtTLS \<Rightarrow> Some (Returns (at_tls env d))
      | AtRpcServer \<Rightarrow> Some (Returns (at_rpc_server env d))
      | AtGate \<Rightarrow> Some (Returns (at_gate d))
      | AtHealth \<Rightarrow> Some (Returns (at_health d))
      | AtManager \<Rightarrow> Some (at_manager env d)
      | AtPluginHealth \<Rightarrow> Some (Returns (at_plugin_health d))
      | AtDatabase \<Rightarrow> Some (Returns (at_database env d))
      | AtUnlocker \<Rightarrow> Some (at_unlocker env d)
      | AtRpcStart \<Rightarrow> Some (Returns (at_rpc_start d))
      | AtListen \<Rightarrow> Some (Returns (at_listen d))
      | AtProxy \<Rightarrow> Some (at_proxy env d)
      | AtLock \<Rightarrow> Some (Returns (d\<lparr>gate := SetDaemonLocked (gate d), pc := AtPassword\<rparr>))
      | AtPassword \<Rightarrow> map_option Returns (at_password env d)
      | AtUnlock \<Rightarrow> Some (Returns (d\<lparr>gate := SetDaemonUnlocked (gate d), pc := AtService\<rparr>))
      | AtService \<Rightarrow> Some (Returns (at_service env d))
      | AtStore \<Rightarrow> Some (Returns (at_store env d))
      | AtMacaroons \<Rightarrow> Some (Returns (at_macaroons env d))
      | AtServices \<Rightarrow> Some (Returns (at_services d))
      | AtActive \<Rightarrow> Some (Returns (d\<lparr>gate := SetRPCActive (gate d), pc := AtShutdown\<rparr>))
      | AtShutdown \<Rightarrow>
          if chan_closed (ShutdownChannel (srv_interceptor (rpc d)))
          then Some (Returns (d\<lparr>pc := Leaving None\<rparr>)) else None
      | Leaving e \<Rightarrow> Some (leaving env e d)
      | _ \<Rightarrow> None)"

section \<open>The rest of the process\<close>

text \<open>The plugin handlers as functions, next to the relation \<open>pm_step\<close>; the turns of the monitor and
  of the goroutines are no calls.\<close>

definition drop_result :: "('r \<times> plugin_manager) outcome \<Rightarrow> plugin_manager outcome" where
  "drop_result x = and_then x (\<lambda>(_, p). Returns p)"

fun plugin_handler :: "pm_event \<Rightarrow> plugin_manager \<Rightarrow> plugin_manager outcome" where
  "plugin_handler (EStartRecord e r n) p = drop_result (StartRecord e r n p)"
| "plugin_handler (EStopRecord e r n) p = drop_result (StopRecord e r n p)"
| "plugin_handler (EStartPlugin now n) p = drop_result (StartPlugin now n p)"
| "plugin_handler (EStopPlugin a n) p = drop_result (StopPlugin a n p)"
| "plugin_handler (EAddPlugin fe v h c) p = drop_result (AddPlugin fe v h c p)"
| "plugin_handler (EMonitor a n) p = monitor_plugin a n p"
| "plugin_handler (EGo now ev k) p = (case plugin_go now ev k p of None \<Rightarrow> Blocks | Some r \<Rightarrow> r)"

fun plugin_call :: "pm_event \<Rightarrow> (string \<times> request) option" where
  "plugin_call (EStartRecord e r n) = Some (''/lanirpc.PluginAPI/StartRecord'', PluginRequest n)"
| "plugin_call (EStopRecord e r n) = Some (''/lanirpc.PluginAPI/StopRecord'', PluginRequest n)"
| "plugin_call (EStartPlugin now n) = Some (''/lanirpc.PluginAPI/StartPlugin'', PluginRequest n)"
| "plugin_call (EStopPlugin a n) = Some (''/lanirpc.PluginAPI/StopPlugin'', PluginRequest n)"
| "plugin_call (EAddPlugin fe v h c) = Some (''/lanirpc.PluginAPI/AddPlugin'', OtherRequest)"
| "plugin_call (EMonitor a n) = None"
| "plugin_call (EGo now ev k) = None"

fun call_target :: "api_call \<Rightarrow> (call_info \<times> request) option" where
  "call_target (CLogin _ _ _) =
     Some (\<lparr>FullMethod = ''/lanirpc.Unlocker/Login'', Server = UnlockerServer\<rparr>, OtherRequest)"
| "call_target (CSetPassword _ _ _) =
     Some (\<lparr>FullMethod = ''/lanirpc.Unlocker/SetPassword'', Server = UnlockerServer\<rparr>, OtherRequest)"
| "call_target (CChangePassword _ _ _ _ _ _) =
     Some (\<lparr>FullMethod = ''/lanirpc.Unlocker/ChangePassword'', Server = UnlockerServer\<rparr>, OtherRequest)"
| "call_target CStopDaemon =
     Some (\<lparr>FullMethod = ''/lanirpc.Lani/StopDaemon'', Server = LaniServer\<rparr>, OtherRequest)"
| "call_target (CPlugin e) =
     map_option (\<lambda>(m, r). (\<lparr>FullMethod = m, Server = PluginAPIServer\<rparr>, r)) (plugin_call e)"

text \<open>A handler of the unlocker; a transaction on a closed database fails.\<close>

definition on_unlocker ::
  "(unlocker \<Rightarrow> ((rpc_error + unit) \<times> unlocker) outcome) \<Rightarrow> ('k, 'cert, 'a) daemon \<Rightarrow>
     ('k, 'cert, 'a) daemon outcome" where
  "on_unlocker f d =
     (if \<not> db_open d then Returns d
      else
        and_then (f ((unl d)\<lparr>files := map fst (disk d)\<rparr>)) (\<lambda>(_, u).
        Returns (d\<lparr>unl := u, disk := filter (\<lambda>(p, _). p \<in> set (files u)) (disk d)\<rparr>)))"

fun run_handler ::
  "('k, 'mac, 'ck, 'ip, 'cert, 'a) boot_env \<Rightarrow> api_call \<Rightarrow> ('k, 'cert, 'a) daemon \<Rightarrow>
     ('k, 'cert, 'a) daemon outcome" where
  "run_handler env (CLogin done first pw) d =
     on_unlocker (Login (bolt_lib env) (sha256_lib env) done first pw) d"
| "run_handler env (CSetPassword done first pw) d =
     on_unlocker (SetPassword (bolt_lib env) (sha256_lib env) done first pw) d"
| "run_handler env (CChangePassword n m kept done first req) d =
     on_unlocker (Unlocker.ChangePassword (bolt_lib env) (sha256_lib env) (snacl_lib env) n m kept done first req) d"
| "run_handler env CStopDaemon d = Returns (d\<lparr>rpc := snd (StopDaemon (rpc d))\<rparr>)"
| "run_handler env (CPlugin e) d =
     and_then (plugin_handler e (manager d)) (\<lambda>p.
     Returns (d\<lparr>manager := p, late_calls := late_calls d + (if quitClosed (manager d) then 1 else 0)\<rparr>))"

text \<open>A call enters through the chain of interceptors; what it reaches there is that the call is
  accepted. Its handler runs at some later time.\<close>

definition accept_call ::
  "api_call \<Rightarrow> (('k, 'cert, 'a) daemon, unit) unary_handler" where
  "accept_call c ctx req d = Returns (Inr (), d\<lparr>inflight := (c, ctx) # inflight d\<rparr>)"

definition enter_call ::
  "((('k, 'cert, 'a) daemon, unit) unary_interceptor list \<Rightarrow> (('k, 'cert, 'a) daemon, unit) unary_interceptor) \<Rightarrow>
   ('k, 'mac, 'ck, 'ip, 'cert, 'a) boot_env \<Rightarrow> api_call \<Rightarrow> call_info \<Rightarrow> request \<Rightarrow> rpc_context \<Rightarrow>
     ('k, 'cert, 'a) daemon \<Rightarrow> ((rpc_error + unit) \<times> ('k, 'cert, 'a) daemon) outcome" where
  "enter_call unaryChain env c info req ctx d =
     fst (CreateGrpcOptions unaryChain (\<lambda>_ _ h. h :: ('k, 'cert, 'a) daemon stream_handler)
       (bakery_lib env) (\<lambda>_ _ d. d) (gate d)) info (accept_call c) ctx req d"

definition alive :: "('k, 'cert, 'a) daemon \<Rightarrow> bool" where
  "alive d \<longleftrightarrow> pc d \<noteq> Exited \<and> pc d \<noteq> Crashed \<and> (\<forall>e. pc d \<noteq> Returned e)"

text \<open>The moves of the process. A panic anywhere ends it.\<close>

inductive daemon_move ::
  "((('k, 'cert, 'a) daemon, unit) unary_interceptor list \<Rightarrow> (('k, 'cert, 'a) daemon, unit) unary_interceptor) \<Rightarrow>
   ('k, 'mac, 'ck, 'ip, 'cert, 'a) boot_env \<Rightarrow> ('k, 'cert, 'a) daemon \<Rightarrow> ('k, 'cert, 'a) daemon \<Rightarrow> bool"
  for chain and env where
  main: "main_step env d = Some (Returns d') \<Longrightarrow> daemon_move chain env d d'"
| main_panics: "main_step env d = Some Panics \<Longrightarrow> daemon_move chain env d (d\<lparr>pc := Crashed\<rparr>)"
| call: "alive d \<Longrightarrow> serving d \<Longrightarrow> call_target c = Some (info, req) \<Longrightarrow>
     enter_call chain env c info req ctx d = Returns (r, d') \<Longrightarrow> daemon_move chain env d d'"
| call_panics: "alive d \<Longrightarrow> serving d \<Longrightarrow> call_target c = Some (info, req) \<Longrightarrow>
     enter_call chain env c info req ctx d = Panics \<Longrightarrow> daemon_move chain env d (d\<lparr>pc := Crashed\<rparr>)"
| handler: "alive d \<Longrightarrow> (c, ctx) \<in> set (inflight d) \<Longrightarrow> run_handler env c d = Returns d' \<Longrightarrow>
     daemon_move chain env d (d'\<lparr>inflight := remove1 (c, ctx) (inflight d)\<rparr>)"
| handler_panics: "alive d \<Longrightarrow> (c, ctx) \<in> set (inflight d) \<Longrightarrow> run_handler env c d = Panics \<Longrightarrow>
     daemon_move chain env d (d\<lparr>pc := Crashed\<rparr>)"
| monitor: "alive d \<Longrightarrow> monitoring d \<Longrightarrow> plugin_handler (EMonitor a n) (manager d) = Returns p \<Longrightarrow>
     daemon_move chain env d (d\<lparr>manager := p\<rparr>)"
| goroutine: "alive d \<Longrightarrow> plugin_handler (EGo now ev k) (manager d) = Returns p \<Longrightarrow>
     daemon_move chain env d (d\<lparr>manager := p\<rparr>)"
| interrupt: "alive d \<Longrightarrow> program_move (srv_interceptor (rpc d), started_flag d) (i, s) \<Longrightarrow>
     daemon_move chain env d (d\<lparr>rpc := (rpc d)\<lparr>srv_interceptor := i\<rparr>, started_flag := s\<rparr>)"
| signal: "alive d \<Longrightarrow>
     daemon_move chain env d (d\<lparr>rpc := (rpc d)\<lparr>srv_interceptor := deliver_signal (srv_interceptor (rpc d))\<rparr>\<rparr>)"

inductive_cases daemon_moveE: "daemon_move chain env d d'"

abbreviation daemon_runs where "daemon_runs chain env \<equiv> (daemon_move chain env)\<^sup>*\<^sup>*"

end
