(* ===== verification/DaemonSteps.thy ===== *)
theory DaemonSteps
  imports Daemon
begin

text \<open>
  What each move of \<open>Daemon\<close> can change: \<open>main_update\<close> lists the steps of \<open>Main\<close>, \<open>other_update\<close> the
  moves of the rest of the process, both as updates of the few fields concerned, and every move is
  one of them. The invariants of the boot sequence are proved over these two.
\<close>

section \<open>Control\<close>

definition all_defers :: "deferred list" where
  "all_defers = [CleanUpServices, CloseMacaroons, StopProxy, RpcStop, CloseDB, ManagerStop, GrpcStop,
     CertCleanUp, ServerStop, Cancel]"

text \<open>How many of them are not deferred yet at a place, and how far the place is.\<close>

fun not_yet :: "place \<Rightarrow> nat" where
  "not_yet AtServer = 9" | "not_yet AtTLS = 8" | "not_yet AtRpcServer = 7" | "not_yet AtGate = 7"
| "not_yet AtHealth = 6" | "not_yet AtManager = 6" | "not_yet AtPluginHealth = 5"
| "not_yet AtDatabase = 5" | "not_yet AtUnlocker = 4" | "not_yet AtRpcStart = 4"
| "not_yet AtListen = 3" | "not_yet AtProxy = 3" | "not_yet AtLock = 2" | "not_yet AtPassword = 2"
| "not_yet AtUnlock = 2" | "not_yet AtService = 2" | "not_yet AtStore = 1" | "not_yet AtMacaroons = 1"
| "not_yet AtServices = 1" | "not_yet _ = 0"

fun stage :: "place \<Rightarrow> nat" where
  "stage AtServer = 0" | "stage AtTLS = 1" | "stage AtRpcServer = 2" | "stage AtGate = 3"
| "stage AtHealth = 4" | "stage AtManager = 5" | "stage AtPluginHealth = 6" | "stage AtDatabase = 7"
| "stage AtUnlocker = 8" | "stage AtRpcStart = 9" | "stage AtListen = 10" | "stage AtProxy = 11"
| "stage AtLock = 12" | "stage AtPassword = 13" | "stage AtUnlock = 14" | "stage AtService = 15"
| "stage AtStore = 16" | "stage AtMacaroons = 17" | "stage AtServices = 18" | "stage AtActive = 19"
| "stage AtShutdown = 20" | "stage (Leaving e) = 21" | "stage (Returned e) = 22"
| "stage Exited = 22" | "stage Crashed = 22"

definition control_ok :: "('k, 'cert, 'a) daemon \<Rightarrow> bool" where
  "control_ok d \<longleftrightarrow>
     (if stage (pc d) < 21 then defers d = drop (not_yet (pc d)) all_defers
      else if stage (pc d) = 21 then suffix (defers d) all_defers
      else \<forall>e. pc d = Returned e \<longrightarrow> defers d = [])"

lemmas stage_defs = at_server_def at_tls_def at_rpc_server_def at_gate_def at_health_def at_manager_def
  at_plugin_health_def at_database_def at_unlocker_def at_rpc_start_def at_listen_def at_proxy_def
  at_password_def at_service_def at_store_def at_macaroons_def at_services_def leave_def
  startGrpcListen_def Let_def

text \<open>The store's operations and the baking of macaroons change the store, its bucket and the disk.\<close>

lemma on_store_frame:
  assumes "on_store f d = (r, d')"
  obtains s b where "d' = d\<lparr>store := s, unl := (unl d)\<lparr>ps_mac := b\<rparr>\<rparr>"
proof -
  obtain x s where "f ((store d)\<lparr>Bucket := ps_mac (unl d)\<rparr>) = (x, s)" by force
  with assms have "d' = d\<lparr>store := s, unl := (unl d)\<lparr>ps_mac := Bucket s\<rparr>\<rparr>"
    by (simp add: on_store_def)
  then show ?thesis by (rule that)
qed

lemma bake_to_file_frame:
  assumes "bake_to_file env path perms secs names d = (r, d')"
  obtains s b fs where "d' = d\<lparr>store := s, unl := (unl d)\<lparr>ps_mac := b\<rparr>, disk := fs\<rparr>"
proof (cases "FileExists (exists_in (disk d)) path")
  case True
  with assms have "d' = d\<lparr>store := store d, unl := (unl d)\<lparr>ps_mac := ps_mac (unl d)\<rparr>, disk := disk d\<rparr>"
    by (simp add: bake_to_file_def)
  then show ?thesis by (rule that)
next
  case False
  obtain x d1 where o: "on_store (RootKey (bolt_lib env) (snacl_lib env) (root_key_bytes env) (root_key_nonce env)
      (ContextWithRootKeyId baking_ctx DefaultRootKeyID)) d = (x, d1)" by force
  obtain s b where d1: "d1 = d\<lparr>store := s, unl := (unl d)\<lparr>ps_mac := b\<rparr>\<rparr>" by (rule on_store_frame [OF o])
  obtain y fs where g: "genMacaroons (baking_lib env) (bake_now env) (WriteFile_answer env) baking_ctx path
      perms secs names (disk d1) = (y, fs)" by force
  have "d' = d1 \<or> d' = d1\<lparr>disk := fs\<rparr>"
  proof (cases x)
    case (Inl e)
    with False assms o show ?thesis by (simp add: bake_to_file_def)
  next
    case (Inr k)
    with False assms o g show ?thesis by (simp add: bake_to_file_def)
  qed
  then consider "d' = d1\<lparr>disk := disk d\<rparr>" | "d' = d1\<lparr>disk := fs\<rparr>" using d1 by auto
  then show ?thesis
  proof cases
    case 1
    with d1 show ?thesis by (intro that [where fs = "disk d"]) simp
  next
    case 2
    with d1 show ?thesis by (intro that [where fs = fs]) simp
  qed
qed

lemma CreateUnlock_encKey:
  "CreateUnlock db S n pw r = (Inr (), r') \<Longrightarrow> encKey r' \<noteq> None"
  by (auto simp: CreateUnlock_def Update_def split: if_splits option.splits sum.splits prod.splits)

lemma RootKey_encKey: "RootKey db S fresh n ctx r = (x, r') \<Longrightarrow> encKey r' = encKey r"
  by (auto simp: RootKey_def Update_def split: if_splits option.splits sum.splits prod.splits)

lemma bake_to_file_encKey:
  assumes "bake_to_file env path perms secs names d = (r, d')"
  shows "encKey (store d') = encKey (store d)"
proof (cases "FileExists (exists_in (disk d)) path")
  case False
  obtain x s where k: "RootKey (bolt_lib env) (snacl_lib env) (root_key_bytes env) (root_key_nonce env)
      (ContextWithRootKeyId baking_ctx DefaultRootKeyID) ((store d)\<lparr>Bucket := ps_mac (unl d)\<rparr>) = (x, s)" by force
  with RootKey_encKey [OF k] False assms show ?thesis
    by (auto simp: bake_to_file_def on_store_def split: sum.splits prod.splits)
qed (use assms in \<open>simp add: bake_to_file_def\<close>)

lemma at_macaroons_cases:
  obtains e s b fs where "at_macaroons env d = leave e (d\<lparr>store := s, unl := (unl d)\<lparr>ps_mac := b\<rparr>, disk := fs\<rparr>)"
  | s b fs where "at_macaroons env d = d\<lparr>store := s, unl := (unl d)\<lparr>ps_mac := b\<rparr>, disk := fs,
      gate := Interceptors.AddMacaroonService (macaroon_service (the_config env)) (gate d),
      rpc := RpcServer.AddMacaroonService (macaroon_service (the_config env)) (daemon.rpc d),
      manager := PluginManager.AddMacaroonService (macaroon_service (the_config env)) (manager d),
      pc := AtServices\<rparr>" "encKey s = encKey (store d)"
proof -
  let ?c = "the_config env"
  define fs0 where "fs0 = (if RegenerateMacaroons ?c
      then remove_macaroon env (TestMacPath ?c) (remove_macaroon env (AdminMacPath ?c) (disk d)) else disk d)"
  have d0: "(if RegenerateMacaroons ?c
      then d\<lparr>disk := remove_macaroon env (TestMacPath ?c) (remove_macaroon env (AdminMacPath ?c) (disk d))\<rparr>
      else d) = d\<lparr>disk := fs0\<rparr>" by (simp add: fs0_def)
  obtain r1 d1 where b1: "bake_to_file env (AdminMacPath ?c) adminPermissions 0 [''all''] (d\<lparr>disk := fs0\<rparr>) = (r1, d1)"
    by force
  obtain s1 k1 fs1 where d1: "d1 = d\<lparr>store := s1, unl := (unl d)\<lparr>ps_mac := k1\<rparr>, disk := fs1\<rparr>"
    by (rule bake_to_file_frame [OF b1]) auto
  show ?thesis
  proof (cases r1)
    case (Some e)
    with d0 b1 have "at_macaroons env d = leave e d1" by (simp add: at_macaroons_def Let_def)
    with d1 that(1) show ?thesis by blast
  next
    case None
    obtain r2 d2 where b2: "bake_to_file env (TestMacPath ?c) readPermissions 120 (registered_names ?c) d1 = (r2, d2)"
      by force
    obtain s2 k2 fs2 where d2: "d2 = d\<lparr>store := s2, unl := (unl d)\<lparr>ps_mac := k2\<rparr>, disk := fs2\<rparr>"
      by (rule bake_to_file_frame [OF b2]) (auto simp: d1)
    show ?thesis
    proof (cases r2)
      case (Some e)
      with d0 b1 b2 None have "at_macaroons env d = leave e d2" by (simp add: at_macaroons_def Let_def)
      with d2 that(1) show ?thesis by blast
    next
      case n2: None
      have "encKey s2 = encKey (store d)"
        using bake_to_file_encKey [OF b1] bake_to_file_encKey [OF b2] d1 d2 by simp
      with d0 b1 b2 None n2 d2 show ?thesis
        by (intro that(2) [where s = s2 and b = k2 and fs = fs2]) (simp_all add: at_macaroons_def Let_def)
    qed
  qed
qed

lemma at_store_cases:
  obtains e s b where "at_store env d = leave e (d\<lparr>store := s, unl := (unl d)\<lparr>ps_mac := b\<rparr>\<rparr>)"
  | s b where "at_store env d = d\<lparr>store := s, unl := (unl d)\<lparr>ps_mac := b\<rparr>, pc := AtMacaroons\<rparr>"
    "\<exists>n. CreateUnlock (bolt_lib env) (snacl_lib env) n (Some (bytes (pwd d)))
       ((store d)\<lparr>Bucket := ps_mac (unl d)\<rparr>) = (Inr (), s)"
proof -
  obtain r s where u: "CreateUnlock (bolt_lib env) (snacl_lib env) (unlock_nonce env) (Some (bytes (pwd d)))
      ((store d)\<lparr>Bucket := ps_mac (unl d)\<rparr>) = (r, s)" by force
  show ?thesis
  proof (cases r)
    case (Inl e)
    with u show ?thesis by (intro that(1) [where s = s and b = "Bucket s"]) (simp add: at_store_def on_store_def)
  next
    case (Inr x)
    show ?thesis
    proof (rule that(2))
      show "at_store env d = d\<lparr>store := s, unl := (unl d)\<lparr>ps_mac := Bucket s\<rparr>, pc := AtMacaroons\<rparr>"
        using u Inr by (simp add: at_store_def on_store_def)
      show "\<exists>n. CreateUnlock (bolt_lib env) (snacl_lib env) n (Some (bytes (pwd d)))
          ((store d)\<lparr>Bucket := ps_mac (unl d)\<rparr>) = (Inr (), s)"
        using u Inr by (intro exI [of _ "unlock_nonce env"]) simp
    qed
  qed
qed

lemma quit_spawn [simp]: "quitClosed (spawn n g p) = quitClosed p"
  by (cases g) (simp_all add: spawn_def)
lemma quit_put [simp]: "quitClosed (put_instance n i p) = quitClosed p"
  by (simp add: put_instance_def)
lemma quit_create:
  "createPluginInstance v a c p = Returns (r, p') \<Longrightarrow> quitClosed p' = quitClosed p"
  by (auto simp: createPluginInstance_def Let_def outcome_simps split: if_splits prod.splits sum.splits option.splits)
lemma quit_start_plugins:
  "start_plugins v a cs p = Returns (r, p') \<Longrightarrow> quitClosed p' = quitClosed p"
proof (induction cs arbitrary: p)
  case (Cons c cs)
  show ?case
  proof (cases "has_key (pluginRegistry p) (Name c)")
    case False
    with Cons.prems obtain x q where "createPluginInstance v (a c) c p = Returns (x, q)"
      "(case x of Inl e \<Rightarrow> Returns (Some e, q) | Inr i \<Rightarrow> start_plugins v a cs (put_instance (Name c) i q)) =
        Returns (r, p')" by (auto simp: outcome_simps)
    with Cons.IH quit_create show ?thesis by (cases x) fastforce+
  qed (use Cons.prems in simp)
qed simp

lemma quit_StartPlugin: "StartPlugin now n p = Returns (x, p') \<Longrightarrow> quitClosed p' = quitClosed p"
  by (auto simp: StartPlugin_def with_plugin_def outcome_simps split: if_splits option.splits)
lemma quit_StartRecord: "StartRecord e r n p = Returns (x, p') \<Longrightarrow> quitClosed p' = quitClosed p"
  by (auto simp: StartRecord_def with_plugin_def outcome_simps split: if_splits option.splits)
lemma quit_StopRecord: "StopRecord e r n p = Returns (x, p') \<Longrightarrow> quitClosed p' = quitClosed p"
  by (auto simp: StopRecord_def with_plugin_def outcome_simps split: if_splits option.splits)
lemma quit_StopPlugin: "StopPlugin a n p = Returns (x, p') \<Longrightarrow> quitClosed p' = quitClosed p"
  by (auto simp: StopPlugin_def with_plugin_def outcome_simps split: if_splits option.splits)
lemma quit_AddPlugin:
  assumes "AddPlugin fe v h c p = Returns (x, p')"
  shows "quitClosed p' = quitClosed p"
proof -
  obtain e c1 where c1: "ValidatePluginConfig fe c (pluginDir p) False = (e, c1)" by force
  obtain ty e2 where ty: "getPluginCodeFromType (Type c1) = (ty, e2)" by force
  show ?thesis
  proof (cases "e = None \<and> \<not> has_key (pluginRegistry p) (Name c1) \<and> e2 = None")
    case True
    with assms c1 ty obtain y q where yq: "createPluginInstance v h c1 p = Returns (y, q)"
      "(case y of Inl e \<Rightarrow> Returns (Inl (status Internal e), q)
        | Inr i \<Rightarrow> Returns (Inr \<lparr>pi_Name = Name (cfg i), pi_Type = ty, pi_State = state i,
            pi_StartedAt = startedAt i, pi_StoppedAt = 0, pi_Version = version i\<rparr>,
            put_instance (Name c1) i q)) = Returns (x, p')"
      by (auto simp: AddPlugin_def and_then_eq_Returns)
    with quit_create [OF yq(1)] show ?thesis by (cases y) auto
  qed (use assms c1 ty in \<open>auto simp: AddPlugin_def split: option.splits if_splits\<close>)
qed

lemma quit_monitor: "monitor_plugin a n p = Returns p' \<Longrightarrow> quitClosed p' = quitClosed p"
proof -
  assume run: "monitor_plugin a n p = Returns p'"
  have restart: "quitClosed q = quitClosed p'" 
    if "StartPlugin now n p' = Returns (r, p1)"
      "(case r of Inr _ \<Rightarrow> Returns p1 | Inl _ \<Rightarrow> (case map_of (pluginRegistry p1) n of None \<Rightarrow> Returns p1
         | Some i \<Rightarrow> and_then (setUnresponsive i) (\<lambda>i. Returns (put_instance n i p1)))) = Returns q" for now p' r p1 q
    using quit_StartPlugin [OF that(1)] that(2)
    by (auto simp: and_then_eq_Returns split: sum.splits option.splits)
  show ?thesis
  proof (cases "map_of (pluginRegistry p) n")
    case (Some i)
    show ?thesis
    proof (cases "state i = UNRESPONSIVE \<and> \<not> MaxTimeouts (cfg i) \<le> timeoutCnt i")
      case True
      with run Some show ?thesis
        by (auto simp: monitor_plugin_def and_then_eq_Returns split: prod.splits dest!: restart)
    qed (use run Some in \<open>auto simp: monitor_plugin_def and_then_eq_Returns split: if_splits\<close>)
  qed (use run in \<open>simp add: monitor_plugin_def\<close>)
qed

lemma quit_go: "plugin_go now ev k p = Some (Returns p') \<Longrightarrow> quitClosed p' = quitClosed p"
  by (auto simp: plugin_go_def outcome_simps split: if_splits option.splits prod.splits)

lemma set_state_client: "set_state s i = Returns i' \<Longrightarrow> client i' = client i"
  by (auto simp: set_state_def updateListeners_def outcome_simps)
lemma go_step_client: "go_step now ev g i q = Some (Returns (g', i', q')) \<Longrightarrow> client i' = client i"
  by (erule go_stepE) (auto simp: setter_defs outcome_simps plain_setter_defs dest!: set_state_client split: if_splits)
lemma pm_AddPermissions_frame:
  "PluginManager.AddPermissions perms p = (r, p') \<Longrightarrow> \<exists>m. p' = p\<lparr>permissionMap := m\<rparr>"
proof (induction perms arbitrary: p)
  case Nil
  then show ?case by (intro exI [of _ "permissionMap p"]) simp
next
  case (Cons a perms)
  obtain m ops where a: "a = (m, ops)" by force
  show ?case
  proof (cases "has_key (permissionMap p) m")
    case True
    with Cons.prems a show ?thesis
      by (intro exI [of _ "permissionMap p"]) (simp add: PluginManager.AddPermission_def)
  next
    case False
    with Cons.prems a
    have "PluginManager.AddPermissions perms (p\<lparr>permissionMap := AList.update m ops (permissionMap p)\<rparr>) = (r, p')"
      by (simp add: PluginManager.AddPermission_def)
    from Cons.IH [OF this] show ?thesis by force
  qed
qed

lemma wf_NewPluginManager: "wf_pm (NewPluginManager dir cfgs noMac)"
  by (simp add: wf_pm_def NewPluginManager_def wf_NewQueueManager)

lemma at_manager_cases:
  obtains e p where "at_manager env d = Returns (leave e (d\<lparr>manager := p\<rparr>))" "wf_pm p" "\<not> quitClosed p"
  | p where "at_manager env d = Returns (d\<lparr>manager := p, monitoring := True,
      defers := ManagerStop # defers d, pc := AtPluginHealth\<rparr>)" "wf_pm p" "\<not> quitClosed p"
proof -
  let ?c = "the_config env"
  let ?p0 = "NewPluginManager (PluginDir ?c) (Plugins ?c) False"
  obtain r1 p1 where a: "PluginManager.AddPermissions StreamingPluginAPIPermission ?p0 = (r1, p1)" by force
  obtain m where p1: "p1 = ?p0\<lparr>permissionMap := m\<rparr>" using pm_AddPermissions_frame [OF a] by blast
  have ok: "wf_pm p1" "\<not> quitClosed p1"
    by (simp add: p1 wf_NewPluginManager) (simp add: p1 NewPluginManager_def)
  show ?thesis
  proof (cases r1)
    case (Some e)
    with a ok show ?thesis by (intro that(1)) (simp_all add: at_manager_def Let_def)
  next
    case None
    obtain r2 p2 where st: "PluginManager.Start (app_version env) (handshakes env) p1 = Returns (r2, p2)" "wf_pm p2"
      using keeps_wf_Start [of "app_version env" "handshakes env"] ok(1) unfolding keeps_wf_def by metis
    have q: "\<not> quitClosed p2" using st(1) ok(2) quit_start_plugins unfolding PluginManager.Start_def by fastforce
    show ?thesis
    proof (cases r2)
      case n2: None
      show ?thesis by (rule that(2) [OF _ st(2) q]) (simp add: at_manager_def Let_def a None st(1) n2)
    next
      case (Some e)
      show ?thesis by (rule that(1) [OF _ st(2) q]) (simp add: at_manager_def Let_def a None st(1) Some)
    qed
  qed
qed

lemma InitUnlocker_channel:
  "InitUnlockerService db b1 b2 ms fs = Returns (Inr u) \<Longrightarrow> PasswordMsgs u = make_chan 1"
  by (auto simp: InitUnlockerService_def pwd_Update_def split: option.splits prod.splits)

lemma at_unlocker_cases:
  assumes "at_unlocker env d = Returns d'"
  obtains "d' = d\<lparr>pc := Exited\<rparr>"
  | u where "d' = d\<lparr>unl := u, pc := AtRpcStart\<rparr>" "PasswordMsgs u = make_chan 1"
proof -
  from assms obtain r where r: "InitUnlockerService (bolt_lib env) (ps_pwd (unl d)) (ps_mac (unl d))
      [AdminMacPath (the_config env), TestMacPath (the_config env)] (map fst (disk d)) = Returns r"
      "d' = (case r of Inl _ \<Rightarrow> d\<lparr>pc := Exited\<rparr> | Inr u \<Rightarrow> d\<lparr>unl := u, pc := AtRpcStart\<rparr>)"
    unfolding at_unlocker_def Let_def and_then_eq_Returns by blast
  then show ?thesis using that by (cases r) (simp_all add: InitUnlocker_channel)
qed

lemma at_proxy_cases:
  assumes "at_proxy env d = Returns d'"
  obtains e where "d' = leave e d"
  | a where "d' = d\<lparr>daemon.proxy := Some a, defers := StopProxy # defers d, pc := AtLock\<rparr>"
proof -
  from assms obtain r where "d' = (case r of Inl e \<Rightarrow> leave e d
      | Inr a \<Rightarrow> d\<lparr>daemon.proxy := Some a, defers := StopProxy # defers d, pc := AtLock\<rparr>)"
    unfolding at_proxy_def and_then_eq_Returns by blast
  with that show ?thesis by (cases r) simp_all
qed

section \<open>The steps of \<open>Main\<close>\<close>

inductive main_update ::
  "('k, 'mac, 'ck, 'ip, 'cert, 'a) boot_env \<Rightarrow> ('k, 'cert, 'a) daemon \<Rightarrow> ('k, 'cert, 'a) daemon \<Rightarrow> bool"
  for env where
  exits: "stage (pc d) < 10 \<Longrightarrow> main_update env d (d\<lparr>serverActive := v, rpc := r, pc := Exited\<rparr>)"
| leaves: "0 < stage (pc d) \<Longrightarrow> stage (pc d) < 20 \<Longrightarrow>
     p = manager d \<or> (pc d = AtManager \<and> wf_pm p \<and> \<not> quitClosed p) \<Longrightarrow>
     s = store d \<or> pc d \<in> {AtStore, AtMacaroons} \<Longrightarrow>
     chan_history (PasswordMsgs u) = chan_history (PasswordMsgs (unl d)) \<Longrightarrow>
     main_update env d (d\<lparr>disk := fs, checker := h, manager := p, unl := u, store := s, pc := Leaving (Some e)\<rparr>)"
| server: "pc d = AtServer \<Longrightarrow> main_update env d (d\<lparr>serverActive := 1, defers := ServerStop # defers d, pc := AtTLS\<rparr>)"
| tls: "pc d = AtTLS \<Longrightarrow>
     main_update env d (d\<lparr>disk := fs, certificate := Some cert, defers := CertCleanUp # defers d, pc := AtRpcServer\<rparr>)"
| rpc_server: "pc d = AtRpcServer \<Longrightarrow> srv_interceptor r = srv_interceptor (daemon.rpc d) \<Longrightarrow> Active r = 0 \<Longrightarrow>
     \<not> chan_closed (quit r) \<Longrightarrow> main_update env d (d\<lparr>rpc := r, pc := AtGate\<rparr>)"
| gate: "pc d = AtGate \<Longrightarrow> rpc_state g = waitingToStart \<Longrightarrow> i_svc g = None \<Longrightarrow> \<not> i_noMacaroons g \<Longrightarrow>
     (\<And>m. map_of (i_permissionMap g) m = map_of MainGrpcServerPermissions m) \<Longrightarrow>
     main_update env d (d\<lparr>gate := g, rpc := AddGrpcInterceptor g (daemon.rpc d),
       defers := GrpcStop # defers d, pc := AtHealth\<rparr>)"
| health: "pc d = AtHealth \<Longrightarrow> main_update env d (d\<lparr>checker := h, pc := AtManager\<rparr>)"
| manager: "pc d = AtManager \<Longrightarrow> wf_pm p \<Longrightarrow> \<not> quitClosed p \<Longrightarrow>
     main_update env d (d\<lparr>manager := p, monitoring := True, defers := ManagerStop # defers d, pc := AtPluginHealth\<rparr>)"
| plugin_health: "pc d = AtPluginHealth \<Longrightarrow> main_update env d (d\<lparr>checker := h, pc := AtDatabase\<rparr>)"
| database: "pc d = AtDatabase \<Longrightarrow>
     main_update env d (d\<lparr>db_open := True, defers := CloseDB # defers d, pc := AtUnlocker\<rparr>)"
| unlocker: "pc d = AtUnlocker \<Longrightarrow> PasswordMsgs u = make_chan 1 \<Longrightarrow>
     main_update env d (d\<lparr>unl := u, pc := AtRpcStart\<rparr>)"
| rpc_start: "pc d = AtRpcStart \<Longrightarrow>
     main_update env d (d\<lparr>rpc := (daemon.rpc d)\<lparr>Active := 1\<rparr>, defers := RpcStop # defers d, pc := AtListen\<rparr>)"
| listen: "pc d = AtListen \<Longrightarrow> main_update env d (d\<lparr>serving := True, pc := AtProxy\<rparr>)"
| proxy: "pc d = AtProxy \<Longrightarrow>
     main_update env d (d\<lparr>daemon.proxy := Some a, defers := StopProxy # defers d, pc := AtLock\<rparr>)"
| lock: "pc d = AtLock \<Longrightarrow> main_update env d (d\<lparr>gate := SetDaemonLocked (daemon.gate d), pc := AtPassword\<rparr>)"
| password: "pc d = AtPassword \<Longrightarrow> \<lparr>Password = pw, Err = None\<rparr> \<in> set (chan_history (PasswordMsgs (unl d))) \<Longrightarrow>
     chan_history (PasswordMsgs u) = chan_history (PasswordMsgs (unl d)) \<Longrightarrow>
     main_update env d (d\<lparr>unl := u, pwd := pw, pc := AtUnlock\<rparr>)"
| unlock: "pc d = AtUnlock \<Longrightarrow> main_update env d (d\<lparr>gate := SetDaemonUnlocked (daemon.gate d), pc := AtService\<rparr>)"
| service: "pc d = AtService \<Longrightarrow> main_update env d (d\<lparr>unl := (unl d)\<lparr>ps_mac := b\<rparr>, store := s,
     defers := CloseMacaroons # defers d, pc := AtStore\<rparr>)"
| store: "pc d = AtStore \<Longrightarrow> encKey s \<noteq> None \<Longrightarrow>
     main_update env d (d\<lparr>unl := (unl d)\<lparr>ps_mac := b\<rparr>, store := s, pc := AtMacaroons\<rparr>)"
| macaroons: "pc d = AtMacaroons \<Longrightarrow> encKey s = encKey (daemon.store d) \<Longrightarrow>
     sv = macaroon_service (the_config env) \<Longrightarrow>
     main_update env d (d\<lparr>unl := (unl d)\<lparr>ps_mac := b\<rparr>, store := s, disk := fs,
       gate := Interceptors.AddMacaroonService sv (daemon.gate d),
       rpc := RpcServer.AddMacaroonService sv (daemon.rpc d),
       manager := PluginManager.AddMacaroonService sv (daemon.manager d), pc := AtServices\<rparr>)"
| services: "pc d = AtServices \<Longrightarrow> main_update env d (d\<lparr>defers := CleanUpServices # defers d, pc := AtActive\<rparr>)"
| active: "pc d = AtActive \<Longrightarrow> main_update env d (d\<lparr>gate := SetRPCActive (daemon.gate d), pc := AtShutdown\<rparr>)"
| shutdown: "pc d = AtShutdown \<Longrightarrow> chan_closed (ShutdownChannel (srv_interceptor (daemon.rpc d))) \<Longrightarrow>
     main_update env d (d\<lparr>pc := Leaving None\<rparr>)"
| deferred: "pc d = Leaving e \<Longrightarrow> defers d = c # cs \<Longrightarrow> run_deferred env c (d\<lparr>defers := cs\<rparr>) = Returns d' \<Longrightarrow>
     main_update env d d'"
| returns: "pc d = Leaving e \<Longrightarrow> defers d = [] \<Longrightarrow> main_update env d (d\<lparr>pc := Returned e\<rparr>)"

inductive_cases main_updateE: "main_update env d d'"

lemma wf_MainGrpcServerPermissions: "wf_map MainGrpcServerPermissions"
  by code_simp

lemma gate_permissions:
  obtains pm where "Interceptors.AddPermissions MainGrpcServerPermissions (NewGrpcInterceptor False) =
      (None, (NewGrpcInterceptor False)\<lparr>i_permissionMap := pm\<rparr>)"
    "\<And>m. map_of pm m = map_of MainGrpcServerPermissions m"
proof -
  have "\<exists>pm. Interceptors.AddPermissions MainGrpcServerPermissions (NewGrpcInterceptor False) =
      (None, (NewGrpcInterceptor False)\<lparr>i_permissionMap := pm\<rparr>) \<and>
    (\<forall>m. map_of pm m = (case map_of MainGrpcServerPermissions m of Some ops \<Rightarrow> Some ops
       | None \<Rightarrow> map_of (i_permissionMap (NewGrpcInterceptor False)) m))"
    by (rule AddPermissions_fresh [OF wf_MainGrpcServerPermissions]) (simp add: NewGrpcInterceptor_def)
  then obtain pm where pm: "Interceptors.AddPermissions MainGrpcServerPermissions (NewGrpcInterceptor False) =
      (None, (NewGrpcInterceptor False)\<lparr>i_permissionMap := pm\<rparr>)"
    "\<And>m. map_of pm m = (case map_of MainGrpcServerPermissions m of Some ops \<Rightarrow> Some ops
       | None \<Rightarrow> map_of (i_permissionMap (NewGrpcInterceptor False)) m)" by blast
  have "map_of pm m = map_of MainGrpcServerPermissions m" for m
    by (simp add: pm(2) NewGrpcInterceptor_def split: option.split)
  with pm(1) show ?thesis by (rule that)
qed

text \<open>A step that leaves \<open>Main\<close> changes what it may.\<close>

lemma leaves_all:
  assumes "0 < stage (pc d)" and "stage (pc d) < 20"
    and "p = manager d \<or> (pc d = AtManager \<and> wf_pm p \<and> \<not> quitClosed p)"
    and "s = store d \<or> pc d \<in> {AtStore, AtMacaroons}"
    and "chan_history (PasswordMsgs u) = chan_history (PasswordMsgs (unl d))"
  shows "main_update env d (leave e (d\<lparr>disk := fs, checker := h, manager := p, unl := u, store := s\<rparr>))"
  using main_update.leaves [OF assms, where env = env and fs = fs and h = h and e = e]
  by (simp add: leave_def)

lemma leaves_same:
  assumes "0 < stage (pc d)" and "stage (pc d) < 20"
  shows "main_update env d (leave e d)" "main_update env d (leave e (d\<lparr>disk := fs\<rparr>))"
    "main_update env d (leave e (d\<lparr>checker := h\<rparr>))"
    "chan_history (PasswordMsgs u) = chan_history (PasswordMsgs (unl d)) \<Longrightarrow>
      main_update env d (leave e (d\<lparr>unl := u\<rparr>))"
  using leaves_all [OF assms disjI1 [OF refl] disjI1 [OF refl], where env = env and e = e and fs = "disk d"
      and h = "checker d" and u = "unl d"]
    leaves_all [OF assms disjI1 [OF refl] disjI1 [OF refl], where env = env and e = e and fs = fs
      and h = "checker d" and u = "unl d"]
    leaves_all [OF assms disjI1 [OF refl] disjI1 [OF refl], where env = env and e = e and fs = "disk d"
      and h = h and u = "unl d"]
    leaves_all [OF assms disjI1 [OF refl] disjI1 [OF refl], where env = env and e = e and fs = "disk d"
      and h = "checker d" and u = u]
  by simp_all

lemma exits_same: "stage (pc d) < 10 \<Longrightarrow> main_update env d (d\<lparr>pc := Exited\<rparr>)"
  using main_update.exits [where d = d and env = env and v = "serverActive d" and r = "rpc d"] by simp

lemma tls_update: "pc d = AtTLS \<Longrightarrow> main_update env d (at_tls env d)"
proof -
  assume pc: "pc d = AtTLS"
  let ?c = "the_config env"
  obtain r fs where t: "GetTLSConfig (crypto_lib env) (gen_first env) (gen_again env) (tls_now env) (Remove_answer env)
      (TLSCertPath ?c) (TLSKeyPath ?c) (ExtraIPAddr ?c) (disk d) = (r, fs)" by force
  show ?thesis
  proof (cases r)
    case (Inl e)
    with pc t leaves_same(2) [of d env e fs] show ?thesis by (simp add: at_tls_def)
  next
    case (Inr cert)
    with pc t main_update.tls [OF pc, where env = env and fs = fs and cert = cert] show ?thesis by (simp add: at_tls_def)
  qed
qed

lemma rpc_server_update: "pc d = AtRpcServer \<Longrightarrow> main_update env d (at_rpc_server env d)"
  using exits_same [of d env]
  by (cases "Listen_answer env")
    (auto simp: at_rpc_server_def NewRpcServer_def make_chan_def intro!: main_update.rpc_server)

lemma gate_update: "pc d = AtGate \<Longrightarrow> main_update env d (at_gate d)"
proof -
  assume pc: "pc d = AtGate"
  obtain pm where pm: "Interceptors.AddPermissions MainGrpcServerPermissions (NewGrpcInterceptor False) =
      (None, (NewGrpcInterceptor False)\<lparr>i_permissionMap := pm\<rparr>)"
    "\<And>m. map_of pm m = map_of MainGrpcServerPermissions m" by (rule gate_permissions) blast
  have "main_update env d (d\<lparr>gate := (NewGrpcInterceptor False)\<lparr>i_permissionMap := pm\<rparr>,
      rpc := AddGrpcInterceptor ((NewGrpcInterceptor False)\<lparr>i_permissionMap := pm\<rparr>) (rpc d),
      defers := GrpcStop # defers d, pc := AtHealth\<rparr>)"
    by (rule main_update.gate [OF pc]) (simp_all add: NewGrpcInterceptor_def pm(2))
  then show ?thesis by (simp add: at_gate_def pm(1))
qed

lemma health_update: "pc d = AtHealth \<Longrightarrow> main_update env d (at_health d)"
  using leaves_same(3) [of d env] main_update.health [of d env]
  by (auto simp: at_health_def split: prod.splits option.splits)

lemma plugin_health_update: "pc d = AtPluginHealth \<Longrightarrow> main_update env d (at_plugin_health d)"
  using leaves_same(3) [of d env] main_update.plugin_health [of d env]
  by (auto simp: at_plugin_health_def split: prod.splits option.splits)

lemma manager_update: "pc d = AtManager \<Longrightarrow> at_manager env d = Returns d' \<Longrightarrow> main_update env d d'"
proof -
  assume pc: "pc d = AtManager" and run: "at_manager env d = Returns d'"
  show ?thesis
  proof (cases rule: at_manager_cases [of env d])
    case (1 e p)
    with leaves_all [where d = d and p = p and s = "store d" and env = env and fs = "disk d" and h = "checker d"
        and u = "unl d" and e = e] pc run show ?thesis by simp
  next
    case (2 p)
    with main_update.manager [OF pc, where p = p and env = env] run show ?thesis by simp
  qed
qed

lemma unlocker_update: "pc d = AtUnlocker \<Longrightarrow> at_unlocker env d = Returns d' \<Longrightarrow> main_update env d d'"
  using exits_same [of d env] main_update.unlocker [of d _ env]
  by (elim at_unlocker_cases) auto

lemma proxy_update: "pc d = AtProxy \<Longrightarrow> at_proxy env d = Returns d' \<Longrightarrow> main_update env d d'"
  using leaves_same(1) [of d env] main_update.proxy [of d env]
  by (elim at_proxy_cases) auto

lemma password_update: "pc d = AtPassword \<Longrightarrow> at_password env d = Some d' \<Longrightarrow> main_update env d d'"
proof -
  assume pc: "pc d = AtPassword" and run: "at_password env d = Some d'"
  then obtain r u where w: "waitForPassword (password_first env) (unl d) (srv_interceptor (rpc d)) = Some (r, u)"
    by (auto simp: at_password_def split: option.splits)
  show ?thesis
  proof (cases r)
    case (Inl e)
    from w Inl have "chan_history (PasswordMsgs u) = chan_history (PasswordMsgs (unl d))"
      by (auto simp: waitForPassword_def split: outcome.splits option.splits if_splits)
        (erule chan_recv_history)+
    with Inl w run leaves_same(4) [of d u env e] pc show ?thesis by (simp add: at_password_def)
  next
    case (Inr p)
    with w obtain msg c where m: "chan_recv (PasswordMsgs (unl d)) = Returns (Some msg, c)" "Err msg = None"
        "p = Password msg" "u = (unl d)\<lparr>PasswordMsgs := c\<rparr>"
      by (auto simp: waitForPassword_def split: outcome.splits option.splits if_splits)
    have "\<lparr>Password = p, Err = None\<rparr> \<in> set (chan_history (PasswordMsgs (unl d)))"
      using m(1-3) by (cases msg) (auto simp: chan_recv_def chan_history_def split: list.splits if_splits)
    with chan_recv_history [OF m(1)] main_update.password [OF pc, where pw = p and u = u and env = env] m(4) w run Inr
    show ?thesis by (simp add: at_password_def)
  qed
qed

lemma service_update: "pc d = AtService \<Longrightarrow> main_update env d (at_service env d)"
  using leaves_same(4) [of d _ env] main_update.service [of d env]
  by (auto simp: at_service_def split: prod.splits sum.splits)

lemma store_update: "pc d = AtStore \<Longrightarrow> main_update env d (at_store env d)"
proof -
  assume pc: "pc d = AtStore"
  show ?thesis
  proof (cases rule: at_store_cases [of env d])
    case (1 e s b)
    with leaves_all [where d = d and p = "manager d" and s = s and env = env and fs = "disk d" and h = "checker d"
        and u = "(unl d)\<lparr>ps_mac := b\<rparr>" and e = e] pc show ?thesis by (cases d) simp
  next
    case (2 s b)
    then have "encKey s \<noteq> None" using CreateUnlock_encKey by blast
    from main_update.store [OF pc this, where env = env and b = b] 2(1) show ?thesis by (cases d) simp
  qed
qed


lemma macaroons_update: "pc d = AtMacaroons \<Longrightarrow> main_update env d (at_macaroons env d)"
proof -
  assume pc: "pc d = AtMacaroons"
  show ?thesis
  proof (cases rule: at_macaroons_cases [of env d])
    case (1 e s b fs)
    with leaves_all [where d = d and p = "manager d" and s = s and env = env and fs = fs and h = "checker d"
        and u = "(unl d)\<lparr>ps_mac := b\<rparr>" and e = e] pc show ?thesis by (cases d) simp
  next
    case (2 s b fs)
    from main_update.macaroons [OF pc 2(2) refl, where env = env and b = b and fs = fs] 2(1)
    show ?thesis by (cases d) simp
  qed
qed

text \<open>Every step is one of \<open>main_update\<close>.\<close>

lemma main_step_update:
  assumes "main_step env d = Some (Returns d')"
  shows "main_update env d d'"
proof (cases "pc d")
  case AtServer
  with assms exits_same [of d env] show ?thesis
    by (auto simp: main_step_def at_server_def server_Start_def compare_and_swap_def
        intro: main_update.server main_update.exits [where r = "rpc d"] split: if_splits)
next
  case (Leaving e)
  with assms have l: "leaving env e d = Returns d'" by (simp add: main_step_def)
  then show ?thesis using Leaving
    by (cases "defers d") (auto simp: leaving_def intro: main_update.deferred main_update.returns)
next
  case AtRpcStart
  with assms exits_same [of d env] show ?thesis
    by (auto simp: main_step_def at_rpc_start_def RpcServer.Start_def compare_and_swap_def
        intro: main_update.rpc_start main_update.exits [where v = "serverActive d"] split: if_splits)
next
  case AtDatabase
  with assms exits_same [of d env] main_update.database [of d env] show ?thesis
    by (auto simp: main_step_def at_database_def split: option.splits)
next
  case AtListen
  with assms main_update.listen [of d env] show ?thesis
    by (simp add: main_step_def at_listen_def startGrpcListen_def)
next
  case AtPassword
  with assms password_update show ?thesis by (auto simp: main_step_def)
qed (use assms in \<open>auto simp: main_step_def at_services_def split: if_splits intro: tls_update rpc_server_update
    gate_update health_update manager_update plugin_health_update unlocker_update proxy_update
    service_update store_update macaroons_update main_update.lock main_update.unlock main_update.active
    main_update.services main_update.shutdown\<close>)

section \<open>The moves of the rest of the process\<close>

lemma plugin_handler_step: "plugin_handler e p = Returns p' \<Longrightarrow> pm_step e p p'"
  by (cases e) (auto simp: drop_result_def outcome_simps intro: pm_step.intros split: option.splits)

lemma plugin_handler_wf: "plugin_handler e p = Returns p' \<Longrightarrow> wf_pm p \<Longrightarrow> wf_pm p'"
  using pm_step_good [OF plugin_handler_step] by (auto simp: good_def)

lemmas quit_handlers = quit_StartRecord quit_StopRecord quit_StartPlugin quit_StopPlugin quit_AddPlugin
  quit_monitor quit_go

lemma plugin_handler_quit: "plugin_handler e p = Returns p' \<Longrightarrow> quitClosed p' = quitClosed p"
  by (cases e) (auto simp: drop_result_def outcome_simps dest: quit_handlers split: option.splits)

lemma plugin_go_clients:
  assumes "plugin_go now ev k p = Some (Returns p')" and "map_of (pluginRegistry p') n = Some i'"
  shows "\<exists>i. map_of (pluginRegistry p) n = Some i \<and> client i' = client i"
proof -
  obtain m g where ng: "goroutines p ! k = (m, g)" by force
  with assms(1) obtain i q r where iq: "map_of (pluginRegistry p) m = Some i"
      "map_of (incomingQueues (queueManager p)) m = Some q" "go_step now ev g i q = Some r"
    by (auto simp: plugin_go_def split: if_splits option.splits)
  with assms(1) ng obtain g' j q' where r: "r = Returns (g', j, q')"
    and reg: "pluginRegistry p' = AList.update m j (pluginRegistry p)"
    by (auto simp: plugin_go_def outcome_simps put_instance_def split: if_splits option.splits)
  have "client j = client i" using go_step_client iq(3) r by blast
  with assms(2) iq(1) reg show ?thesis by (cases "n = m") auto
qed

lemma program_move_closed:
  "program_move (i, s) (i', s') \<Longrightarrow> chan_closed (shutdown_chan i) \<Longrightarrow> chan_closed (shutdown_chan i')"
  by (erule program_moveE)
    (auto simp: handler_branch_def leave_request_def shutdown_def chan_close_def outcome_simps
      split: if_splits branch.splits)

text \<open>A postcondition of the outcomes that return.\<close>

definition ensures :: "('r \<Rightarrow> bool) \<Rightarrow> 'r outcome \<Rightarrow> bool" where
  "ensures P x \<longleftrightarrow> (\<forall>v. x = Returns v \<longrightarrow> P v)"

lemma ensures_simps [simp]:
  "ensures P (Returns v) = P v" "ensures P Panics" "ensures P Blocks"
  by (simp_all add: ensures_def)

lemma ensures_and_then: "ensures P (and_then x f) \<longleftrightarrow> ensures (\<lambda>v. ensures P (f v)) x"
  by (cases x) simp_all

text \<open>The handlers of the unlocker add to the channel what they send.\<close>

definition extends :: "password_msg list \<Rightarrow> 'r \<times> unlocker \<Rightarrow> bool" where
  "extends h x \<longleftrightarrow> prefix h (chan_history (PasswordMsgs (snd x)))"

lemma extends_Pair [simp]: "extends h (r, u) \<longleftrightarrow> prefix h (chan_history (PasswordMsgs u))"
  by (simp add: extends_def)

lemma send_password_sends:
  assumes "chan_history (PasswordMsgs u) = h"
  shows "ensures (extends h) (send_password done first pw u)"
  unfolding ensures_def
proof (intro allI impI)
  fix v assume run: "send_password done first pw u = Returns v"
  obtain r u' where v: "v = (r, u')" by force
  show "extends h v" using send_password_frame [OF run [unfolded v]] assms by (cases r) (simp_all add: v)
qed

lemma after_pwd_Update:
  assumes "chan_history (PasswordMsgs u) = h"
    and "\<And>err u1. chan_history (PasswordMsgs u1) = h \<Longrightarrow> ensures (extends h) (g (err, u1))"
  shows "ensures (extends h) (and_then (pwd_Update db f u) g)"
proof -
  have "ensures (\<lambda>v. chan_history (PasswordMsgs (snd v)) = h) (pwd_Update db f u)"
    unfolding pwd_Update_def ensures_and_then using assms(1) by (simp add: ensures_def split: prod.split)
  then have "ensures (\<lambda>v. ensures (extends h) (g v)) (pwd_Update db f u)"
    using assms(2) unfolding ensures_def [of _ "pwd_Update db f u"] by auto
  then show ?thesis unfolding ensures_and_then .
qed

lemma Login_sends: "chan_history (PasswordMsgs u) = h \<Longrightarrow>
    ensures (extends h) (Login db sha256 done first password u)"
  unfolding Login_def readPassword_def
  by (erule after_pwd_Update) (simp split: option.split add: send_password_sends)

lemma SetPassword_sends: "chan_history (PasswordMsgs u) = h \<Longrightarrow>
    ensures (extends h) (SetPassword db sha256 done first password u)"
  unfolding SetPassword_def setPassword_def
  by (erule after_pwd_Update) (simp split: option.split add: send_password_sends)

lemma ChangePassword_sends: "chan_history (PasswordMsgs u) = h \<Longrightarrow>
    ensures (extends h) (Unlocker.ChangePassword db sha256 S n m kept done first req u)"
  unfolding Unlocker.ChangePassword_def readPassword_def setPassword_def
  by (erule after_pwd_Update, simp split: option.split, intro impI, erule after_pwd_Update)
    (simp split: option.split prod.split add: send_password_sends)

text \<open>What entering the API means.\<close>

lemma enter_call_cases:
  assumes "chain_law chain" and "enter_call chain env c info req ctx d = Returns (r, d')"
  shows "d' = d \<or> (\<exists>ctx'. state_admits (gate d) (Server info) \<and>
    macaroon_admits (bakery_lib env) (gate d) info ctx req ctx' \<and> d' = d\<lparr>inflight := (c, ctx') # inflight d\<rparr>)"
proof -
  from assms(2) have "and_then (rpcStateUnaryServerInterceptor (gate d) info
      (MacaroonUnaryServerInterceptor (bakery_lib env) (gate d) info (accept_call c)) ctx req d) (\<lambda>(resp, w).
       Returns (resp, w)) = Returns (r, d')"
    by (simp add: enter_call_def CreateGrpcOptions_def chain_law_def [THEN iffD1, OF assms(1)]
        logUnaryServerInterceptor_def sum.case_eq_if)
  then have "rpcStateUnaryServerInterceptor (gate d) info
      (MacaroonUnaryServerInterceptor (bakery_lib env) (gate d) info (accept_call c)) ctx req d = Returns (r, d')"
    by (auto simp: and_then_eq_Returns)
  then show ?thesis
    unfolding rpcStateUnaryServerInterceptor_def MacaroonUnaryServerInterceptor_def macaroon_admits_def
    by (auto simp: checkRPCState_admits [symmetric] and_then_eq_Returns accept_call_def
        split: option.splits if_splits sum.splits)
qed
text \<open>A call of the plugin API.\<close>

definition plugin_api :: "api_call \<Rightarrow> bool" where
  "plugin_api c \<longleftrightarrow> (\<exists>e. c = CPlugin e)"

inductive other_update ::
  "('k, 'mac, 'ck, 'ip, 'cert, 'a) boot_env \<Rightarrow> ('k, 'cert, 'a) daemon \<Rightarrow> ('k, 'cert, 'a) daemon \<Rightarrow> bool"
  for env where
  crashes: "other_update env d (d\<lparr>pc := Crashed\<rparr>)"
| refused: "other_update env d d"
| enters: "call_target c = Some (info, req) \<Longrightarrow> state_admits (gate d) (Server info) \<Longrightarrow>
     macaroon_admits (bakery_lib env) (gate d) info ctx req ctx' \<Longrightarrow>
     other_update env d (d\<lparr>inflight := (c, ctx') # inflight d\<rparr>)"
| unlocks: "set l \<subseteq> set (inflight d) \<Longrightarrow>
     prefix (chan_history (PasswordMsgs (unl d))) (chan_history (PasswordMsgs u)) \<Longrightarrow>
     other_update env d (d\<lparr>unl := u, disk := fs, inflight := l\<rparr>)"
| stops: "set l \<subseteq> set (inflight d) \<Longrightarrow> shutdown_chan i = shutdown_chan (srv_interceptor (rpc d)) \<Longrightarrow>
     other_update env d (d\<lparr>rpc := (rpc d)\<lparr>srv_interceptor := i\<rparr>, inflight := l\<rparr>)"
| handles: "set l \<subseteq> set (inflight d) \<Longrightarrow> (wf_pm (manager d) \<Longrightarrow> wf_pm p) \<Longrightarrow>
     quitClosed p = quitClosed (manager d) \<Longrightarrow>
     n = late_calls d + (if quitClosed (manager d) then 1 else 0) \<Longrightarrow>
     other_update env d (d\<lparr>manager := p, late_calls := n, inflight := l\<rparr>)"
| monitors: "monitoring d \<Longrightarrow> (wf_pm (manager d) \<Longrightarrow> wf_pm p) \<Longrightarrow> quitClosed p = quitClosed (manager d) \<Longrightarrow>
     other_update env d (d\<lparr>manager := p\<rparr>)"
| goes: "(wf_pm (manager d) \<Longrightarrow> wf_pm p) \<Longrightarrow> quitClosed p = quitClosed (manager d) \<Longrightarrow>
     (\<And>n i'. map_of (pluginRegistry p) n = Some i' \<Longrightarrow>
        \<exists>i. map_of (pluginRegistry (manager d)) n = Some i \<and> client i' = client i) \<Longrightarrow>
     other_update env d (d\<lparr>manager := p\<rparr>)"
| interrupts: "(chan_closed (shutdown_chan (srv_interceptor (rpc d))) \<Longrightarrow> chan_closed (shutdown_chan i)) \<Longrightarrow>
     other_update env d (d\<lparr>rpc := (rpc d)\<lparr>srv_interceptor := i\<rparr>, started_flag := s\<rparr>)"

inductive_cases other_updateE: "other_update env d d'"

lemma unlocker_handler_update:
  assumes "run_handler env c d = Returns d'" and "\<not> plugin_api c" and "c \<noteq> CStopDaemon"
    and "set l \<subseteq> set (inflight d)"
  shows "other_update env d (d'\<lparr>inflight := l\<rparr>)"
proof -
  have step: "other_update env d (d'\<lparr>inflight := l\<rparr>)" if on: "on_unlocker f d = Returns d'"
      and sends: "\<And>u h. chan_history (PasswordMsgs u) = h \<Longrightarrow> ensures (extends h) (f u)" for f
  proof (cases "db_open d")
    case False
    with on have "d' = d" by (simp add: on_unlocker_def)
    then show ?thesis using other_update.unlocks [OF assms(4), where u = "unl d" and env = env and fs = "disk d"] by simp
  next
    case True
    let ?u = "(unl d)\<lparr>files := map fst (disk d)\<rparr>"
    from on True obtain r u where f: "f ?u = Returns (r, u)"
      and d': "d' = d\<lparr>unl := u, disk := filter (\<lambda>(p, _). p \<in> set (files u)) (disk d)\<rparr>"
      by (auto simp: on_unlocker_def and_then_eq_Returns)
    from sends [OF refl, of ?u] f have "prefix (chan_history (PasswordMsgs (unl d))) (chan_history (PasswordMsgs u))"
      by (simp add: ensures_def)
    from other_update.unlocks [OF assms(4) this] d' show ?thesis by simp
  qed
  show ?thesis
  proof (cases c)
    case (CLogin x1 x2 x3)
    with assms(1) show ?thesis by (intro step) (simp, rule Login_sends)
  next
    case (CSetPassword x1 x2 x3)
    with assms(1) show ?thesis by (intro step) (simp, rule SetPassword_sends)
  next
    case (CChangePassword x1 x2 x3 x4 x5 x6)
    with assms(1) show ?thesis by (intro step) (simp, rule ChangePassword_sends)
  qed (use assms(2,3) in \<open>auto simp: plugin_api_def\<close>)
qed

lemma handler_update:
  assumes "run_handler env c d = Returns d'" and "set l \<subseteq> set (inflight d)"
  shows "other_update env d (d'\<lparr>inflight := l\<rparr>)"
proof (cases "plugin_api c \<or> c = CStopDaemon")
  case False
  with unlocker_handler_update assms show ?thesis by blast
next
  case True
  show ?thesis
  proof (cases "c = CStopDaemon")
    case True
    with assms(1) have "d' = d\<lparr>rpc := (rpc d)\<lparr>srv_interceptor := RequestShutdown (srv_interceptor (rpc d))\<rparr>\<rparr>"
      by (simp add: StopDaemon_def)
    with other_update.stops [OF assms(2), where i = "RequestShutdown (srv_interceptor (rpc d))" and env = env] show ?thesis
      by (simp add: RequestShutdown_def)
  next
    case False
    with True obtain e where e: "c = CPlugin e" by (auto simp: plugin_api_def)
    with assms(1) obtain p where p: "plugin_handler e (manager d) = Returns p"
      "d' = d\<lparr>manager := p, late_calls := late_calls d + (if quitClosed (manager d) then 1 else 0)\<rparr>"
      by (auto simp: and_then_eq_Returns)
    from other_update.handles [OF assms(2) _ plugin_handler_quit [OF p(1)] refl, where env = env]
      plugin_handler_wf [OF p(1)] p(2)
    show ?thesis by simp
  qed
qed

lemma daemon_move_cases:
  assumes "daemon_move chain env d d'" and "chain_law chain"
  shows "main_step env d = Some (Returns d') \<or> (main_step env d = Some Panics \<and> d' = d\<lparr>pc := Crashed\<rparr>) \<or>
    (alive d \<and> other_update env d d')"
  using assms(1)
proof cases
  case (call c info req ctx r)
  from enter_call_cases [OF assms(2) call(4)] call(3) show ?thesis
    using other_update.refused other_update.enters call(1) by blast
next
  case (handler c ctx d'')
  have "set (remove1 (c, ctx) (inflight d)) \<subseteq> set (inflight d)" by (rule set_remove1_subset)
  from handler_update [OF handler(4) this] handler show ?thesis by blast
next
  case (monitor a n p)
  have "other_update env d d'" unfolding monitor(1)
    by (rule other_update.monitors [OF monitor(3) _ plugin_handler_quit [OF monitor(4)]])
      (rule plugin_handler_wf [OF monitor(4)])
  with monitor show ?thesis by blast
next
  case (goroutine now ev k p)
  from goroutine(3) have go: "plugin_go now ev k (manager d) = Some (Returns p)"
    by (auto split: option.splits)
  have "other_update env d d'" unfolding goroutine(1)
    by (rule other_update.goes [OF _ plugin_handler_quit [OF goroutine(3)]])
      (rule plugin_handler_wf [OF goroutine(3)], assumption, rule plugin_go_clients [OF go])
  with goroutine show ?thesis by blast
next
  case (interrupt i s)
  with other_update.interrupts [OF program_move_closed [OF interrupt(3)], where env = env] show ?thesis by blast
next
  case signal
  have "other_update env d (d\<lparr>rpc := (rpc d)\<lparr>srv_interceptor := deliver_signal (srv_interceptor (rpc d))\<rparr>,
      started_flag := started_flag d\<rparr>)"
    by (rule other_update.interrupts) (simp add: deliver_signal_def)
  with signal show ?thesis by simp
qed (use other_update.crashes in blast)+

end
