(* ===== verification/DaemonBoot.thy ===== *)
theory DaemonBoot
  imports DaemonSteps
begin

text \<open>
  What the boot sequence of \<open>Daemon\<close> guarantees in every state it reaches, whatever clients, plugins
  and signals do meanwhile: how the gate of the API opens, what a call that passed it has shown,
  that \<open>Main\<close> comes to an end, and what is left when it has returned.
\<close>

section \<open>Invariants\<close>

definition ended :: "('k, 'cert, 'a) daemon \<Rightarrow> bool" where
  "ended d \<longleftrightarrow> pc d = Exited \<or> pc d = Crashed"

text \<open>What a deferred call releases is held as long as it is deferred.\<close>

definition resources_ok :: "('k, 'cert, 'a) daemon \<Rightarrow> bool" where
  "resources_ok d \<longleftrightarrow>
     (let held = set (defers d) in
      serverActive d = (if ServerStop \<in> held then 1 else 0) \<and>
      (serving d \<longrightarrow> GrpcStop \<in> held) \<and>
      db_open d = (CloseDB \<in> held) \<and>
      (proxy d \<noteq> None) = (StopProxy \<in> held) \<and>
      Active (rpc d) = (if RpcStop \<in> held then 1 else 0) \<and>
      (RpcStop \<in> held \<or> stage (pc d) < 10 \<longrightarrow> \<not> chan_closed (quit (rpc d))) \<and>
      cancelled d = (Cancel \<notin> held) \<and>
      (encKey (store d) \<noteq> None \<longrightarrow> CloseMacaroons \<in> held))"

definition monitor_ok :: "('k, 'cert, 'a) daemon \<Rightarrow> bool" where
  "monitor_ok d \<longleftrightarrow> (monitoring d \<longleftrightarrow> ManagerStop \<in> set (defers d))"

definition plugins_ok :: "('k, 'cert, 'a) daemon \<Rightarrow> bool" where
  "plugins_ok d \<longleftrightarrow>
     (if quitClosed (manager d) then ManagerStop \<notin> set (defers d) \<and> \<not> monitoring d \<and> 21 \<le> stage (pc d)
      else wf_pm (manager d)) \<and>
     (quitClosed (manager d) \<and> late_calls d = 0 \<longrightarrow>
        (\<forall>n i. map_of (pluginRegistry (manager d)) n = Some i \<longrightarrow> client i = None)) \<and>
     (pc d \<in> {Leaving None, Returned None} \<longrightarrow> quitClosed (manager d) \<or> ManagerStop \<in> set (defers d))"

text \<open>The state the gate has at each place.\<close>

definition gate_at :: "place \<Rightarrow> 8 word" where
  "gate_at p = (if stage p < 13 then waitingToStart else if stage p < 15 then daemonLocked
     else if stage p < 20 then daemonUnlocked else rpcActive)"

definition gate_ok ::
  "('k, 'mac, 'ck, 'ip, 'cert, 'a) boot_env \<Rightarrow> ('k, 'cert, 'a) daemon \<Rightarrow> bool" where
  "gate_ok env d \<longleftrightarrow>
     rpc_state (gate d) \<in> {waitingToStart, daemonLocked, daemonUnlocked, rpcActive} \<and>
     (stage (pc d) < 21 \<longrightarrow> rpc_state (gate d) = gate_at (pc d)) \<and>
     \<not> i_noMacaroons (gate d) \<and>
     (3 < stage (pc d) \<and> stage (pc d) < 21 \<or> i_svc (gate d) \<noteq> None \<longrightarrow>
        (\<forall>m. map_of (i_permissionMap (gate d)) m = map_of MainGrpcServerPermissions m)) \<and>
     (case i_svc (gate d) of
        None \<Rightarrow> rpc_state (gate d) \<noteq> rpcActive \<and> \<not> (18 \<le> stage (pc d) \<and> stage (pc d) < 21)
      | Some sv \<Rightarrow> sv = macaroon_service (the_config env) \<and>
          rpc_state (gate d) \<in> {daemonUnlocked, rpcActive} \<and> 18 \<le> stage (pc d))"

text \<open>The password: the one \<open>Main\<close> goes on with was sent, and the store is open when it is handed out.\<close>

definition password_ok :: "('k, 'cert, 'a) daemon \<Rightarrow> bool" where
  "password_ok d \<longleftrightarrow>
     (13 < stage (pc d) \<and> stage (pc d) < 21 \<longrightarrow>
        \<lparr>Password = pwd d, Err = None\<rparr> \<in> set (chan_history (PasswordMsgs (unl d)))) \<and>
     (rpc_state (gate d) \<in> {daemonUnlocked, rpcActive} \<longrightarrow>
        (\<exists>pw. \<lparr>Password = pw, Err = None\<rparr> \<in> set (chan_history (PasswordMsgs (unl d))))) \<and>
     (16 < stage (pc d) \<and> stage (pc d) < 21 \<longrightarrow> encKey (store d) \<noteq> None)"

text \<open>A call in flight that needs a macaroon has shown one.\<close>

definition authorised ::
  "('k, 'mac, 'ck, 'ip, 'cert, 'a) boot_env \<Rightarrow> api_call \<Rightarrow> rpc_context \<Rightarrow> bool" where
  "authorised env c ctx \<longleftrightarrow>
     (\<forall>info req. call_target c = Some (info, req) \<longrightarrow> FullMethod info \<notin> set macaroonWhitelist \<longrightarrow>
        (\<exists>perms. map_of MainGrpcServerPermissions (FullMethod info) = Some perms \<and>
           ValidateMacaroon (bakery_lib env) (macaroon_service (the_config env)) ctx perms (FullMethod info) =
             Returns None) \<and>
        (\<forall>n. req = PluginRequest n \<longrightarrow> ctx_plugin ctx = Some n))"

definition whitelisted :: "api_call \<Rightarrow> bool" where
  "whitelisted c \<longleftrightarrow> (\<exists>info req. call_target c = Some (info, req) \<and> FullMethod info \<in> set macaroonWhitelist)"

definition calls_ok ::
  "('k, 'mac, 'ck, 'ip, 'cert, 'a) boot_env \<Rightarrow> ('k, 'cert, 'a) daemon \<Rightarrow> bool" where
  "calls_ok env d \<longleftrightarrow>
     (\<forall>(c, ctx) \<in> set (inflight d). whitelisted c \<or> (i_svc (gate d) \<noteq> None \<and> authorised env c ctx))"

section \<open>They are kept\<close>

lemma distinct_all_defers: "distinct all_defers"
  by (simp add: all_defers_def)

lemma distinct_defers: "control_ok d \<Longrightarrow> stage (pc d) < 22 \<Longrightarrow> distinct (defers d)"
proof -
  assume ok: "control_ok d" and s: "stage (pc d) < 22"
  have "suffix (defers d) all_defers"
    using ok s by (cases "stage (pc d) < 21") (auto simp: control_ok_def suffix_drop)
  then show ?thesis using distinct_all_defers by (metis suffix_def distinct_append)
qed

lemma control_main: "main_update env d d' \<Longrightarrow> control_ok d \<Longrightarrow> control_ok d'"
proof (induction rule: main_update.induct)
  case (deferred d e c cs d')
  then have "suffix (c # cs) all_defers" by (simp add: control_ok_def)
  then have "suffix cs all_defers" by (rule suffix_ConsD)
  moreover have "pc d' = pc d \<and> defers d' = cs"
    using deferred by (auto simp: run_deferred_def and_then_eq_Returns split: deferred.splits)
  ultimately show ?case using deferred by (simp add: control_ok_def)
next
  case (leaves d p s u fs h e)
  then show ?case by (auto simp: control_ok_def suffix_drop)
next
  case (shutdown d)
  then show ?case by (auto simp: control_ok_def suffix_drop)
qed (auto simp: control_ok_def all_defers_def)

lemma control_other: "other_update env d d' \<Longrightarrow> control_ok d \<Longrightarrow> control_ok d'"
  by (induction rule: other_update.induct) (auto simp: control_ok_def)

lemma resources_other: "other_update env d d' \<Longrightarrow> resources_ok d \<Longrightarrow> resources_ok d'"
  by (induction rule: other_update.induct) (auto simp: resources_ok_def Let_def)


lemma resources_deferred:
  assumes "run_deferred env c (d\<lparr>defers := cs\<rparr>) = Returns d'" and "defers d = c # cs"
    and "distinct (c # cs)" and "resources_ok d" and "pc d = Leaving e"
  shows "resources_ok d'"
proof -
  have held: "x \<in> set (defers d) \<longleftrightarrow> x = c \<or> x \<in> set cs" for x using assms(2) by auto
  have gone: "c \<notin> set cs" using assms(3) by simp
  have st: "stage (pc d) = 21" using assms(5) by simp
  note r = assms(4) [unfolded resources_ok_def Let_def held st]
  show ?thesis
  proof (cases "c = RpcStop \<or> c = ManagerStop")
    case False
    define d1 where "d1 = d\<lparr>defers := cs\<rparr>"
    from False assms(1) have "d' = (case c of Cancel \<Rightarrow> d1\<lparr>cancelled := True\<rparr>
        | ServerStop \<Rightarrow> d1\<lparr>serverActive := snd (server_Stop (serverActive d))\<rparr>
        | GrpcStop \<Rightarrow> d1\<lparr>serving := False\<rparr> | CloseDB \<Rightarrow> d1\<lparr>db_open := False\<rparr>
        | StopProxy \<Rightarrow> d1\<lparr>proxy := None\<rparr>
        | CloseMacaroons \<Rightarrow> d1\<lparr>store := RootKeyStorage.Close (store d)\<rparr> | _ \<Rightarrow> d1)"
      by (cases c) (simp_all add: run_deferred_def d1_def)
    with False r gone show ?thesis
      by (cases c) (simp_all add: resources_ok_def Let_def server_Stop_def compare_and_swap_def
          RootKeyStorage.Close_def st d1_def del: not_None_eq)
  next
    case True
    show ?thesis
    proof (cases "c = ManagerStop")
      case True
      with assms(1) obtain p where "d' = d\<lparr>defers := cs, manager := p, monitoring := False\<rparr>"
        by (auto simp: run_deferred_def and_then_eq_Returns)
      with r gone True show ?thesis by (simp add: resources_ok_def Let_def st)
    next
      case False
      with True have c: "c = RpcStop" by simp
      with r have a: "Active (rpc d) = 1" "\<not> chan_closed (quit (rpc d))" by simp_all
      then obtain x where "RpcServer.Stop (listen_addr env) (listen_close env) (rpc d) =
          Returns (x, (rpc d)\<lparr>Active := 0, quit := (quit (rpc d))\<lparr>chan_closed := True\<rparr>, listening := False\<rparr>)"
        by (simp add: RpcServer.Stop_def compare_and_swap_def chan_close_def)
      with c assms(1) have "d' = d\<lparr>defers := cs, rpc := (rpc d)\<lparr>Active := 0,
          quit := (quit (rpc d))\<lparr>chan_closed := True\<rparr>, listening := False\<rparr>\<rparr>"
        by (simp add: run_deferred_def)
      with r gone c show ?thesis by (simp add: resources_ok_def Let_def st)
    qed
  qed
qed

lemma resources_main:
  "main_update env d d' \<Longrightarrow> control_ok d \<Longrightarrow> resources_ok d \<Longrightarrow> ended d' \<or> resources_ok d'"
proof (induction rule: main_update.induct)
  case (deferred d e c cs d')
  with distinct_defers [of d] show ?case by (auto intro: resources_deferred)
next
  case (exits d v r)
  then show ?case by (simp add: ended_def)
next
  case (leaves d p s u fs h e)
  then show ?case by (auto simp: resources_ok_def control_ok_def all_defers_def Let_def)
qed (auto simp: resources_ok_def control_ok_def all_defers_def Let_def AddGrpcInterceptor_def
    RpcServer.AddMacaroonService_def)

lemma monitor_other: "other_update env d d' \<Longrightarrow> monitor_ok d \<Longrightarrow> monitor_ok d'"
  by (induction rule: other_update.induct) (simp_all add: monitor_ok_def)

lemma monitor_main: "main_update env d d' \<Longrightarrow> control_ok d \<Longrightarrow> monitor_ok d \<Longrightarrow> monitor_ok d'"
proof (induction rule: main_update.induct)
  case (deferred d e c cs d')
  with distinct_defers [of d] have "c \<notin> set cs" by simp
  with deferred show ?case
    by (cases "c = ManagerStop") (auto simp: run_deferred_def and_then_eq_Returns monitor_ok_def split: deferred.splits)
qed (simp_all add: monitor_ok_def)

lemma plugins_other: "other_update env d d' \<Longrightarrow> plugins_ok d \<Longrightarrow> plugins_ok d'"
proof (induction rule: other_update.induct)
  case (goes d p)
  have "client i = None" if "quitClosed (manager d)" "late_calls d = 0" "map_of (pluginRegistry p) n = Some i" for n i
    using goes(3) [OF that(3)] goes(4) that(1,2) by (auto simp: plugins_ok_def)
  with goes show ?case by (auto simp: plugins_ok_def split: if_splits)
qed (auto simp: plugins_ok_def split: if_splits)

lemma plugins_main:
  "main_update env d d' \<Longrightarrow> control_ok d \<Longrightarrow> plugins_ok d \<Longrightarrow> plugins_ok d'"
proof (induction rule: main_update.induct)
  case (deferred d e c cs d')
  show ?case
  proof (cases "c = ManagerStop")
    case True
    with deferred have open_q: "\<not> quitClosed (manager d)" "wf_pm (manager d)"
      by (auto simp: plugins_ok_def split: if_splits)
    from Stop_all [OF open_q(2,1), of "stop_plugin_answers env"] obtain p' where
      p': "PluginManager.Stop (stop_plugin_answers env) (manager d) = Returns p'" "quitClosed p'"
        "map fst (pluginRegistry p') = map fst (pluginRegistry (manager d))"
        "\<forall>n i. map_of (pluginRegistry (manager d)) n = Some i \<longrightarrow>
          (\<exists>i'. map_of (pluginRegistry p') n = Some i' \<and> client i' = None \<and> (client i \<noteq> None \<longrightarrow> state i' = STOPPED))"
      by blast
    have "client i = None" if "map_of (pluginRegistry p') n = Some i" for n i
    proof -
      from that p'(3) have "has_key (pluginRegistry (manager d)) n"
        by (metis has_key_iff_fst map_of_SomeD image_eqI fst_conv set_map)
      with p'(4) that show ?thesis unfolding has_key_def by fastforce
    qed
    with True deferred p' distinct_defers [of d] show ?thesis
      by (auto simp: run_deferred_def plugins_ok_def)
  next
    case False
    with deferred show ?thesis
      by (auto simp: run_deferred_def and_then_eq_Returns plugins_ok_def split: deferred.splits if_splits)
  qed
next
  case (leaves d p s u fs h e)
  then show ?case by (auto simp: plugins_ok_def split: if_splits)
next
  case (shutdown d)
  then have "ManagerStop \<in> set (defers d)" by (simp add: control_ok_def all_defers_def)
  with shutdown show ?case by (auto simp: plugins_ok_def split: if_splits)
next
  case (macaroons d s sv b fs)
  then show ?case by (auto simp: plugins_ok_def PluginManager.AddMacaroonService_def split: if_splits)
qed (auto simp: plugins_ok_def split: if_splits)

lemmas gate_setters = SetDaemonLocked_def SetDaemonUnlocked_def SetRPCActive_def
  Interceptors.AddMacaroonService_def NewGrpcInterceptor_def

lemma gate_other: "other_update env d d' \<Longrightarrow> gate_ok env d \<Longrightarrow> gate_ok env d'"
  by (induction rule: other_update.induct) (auto simp: gate_ok_def split: option.splits)

lemma gate_deferred:
  assumes "run_deferred env c (d\<lparr>defers := cs\<rparr>) = Returns d'"
  shows "gate d' = gate d \<and> pc d' = pc d \<and> inflight d' = inflight d \<and> pwd d' = pwd d \<and> unl d' = unl d"
  using assms by (auto simp: run_deferred_def and_then_eq_Returns split: deferred.splits)

lemma gate_main: "main_update env d d' \<Longrightarrow> gate_ok env d \<Longrightarrow> gate_ok env d'"
proof (induction rule: main_update.induct)
  case (deferred d e c cs d')
  with gate_deferred [OF deferred(3)] show ?case by (simp add: gate_ok_def split: option.splits)
next
  case (gate d g)
  then show ?case by (simp add: gate_ok_def gate_at_def rpc_state_defs)
next
  case (leaves d p s u fs h e)
  then show ?case by (auto simp: gate_ok_def gate_at_def rpc_state_defs split: option.splits if_splits)
qed (auto simp: gate_ok_def gate_at_def gate_setters rpc_state_defs split: option.splits)

lemma password_other: "other_update env d d' \<Longrightarrow> password_ok d \<Longrightarrow> password_ok d'"
proof (induction rule: other_update.induct)
  case (unlocks l d u fs)
  then have "set (chan_history (PasswordMsgs (unl d))) \<subseteq> set (chan_history (PasswordMsgs u))"
    by (auto simp: prefix_def)
  with unlocks show ?case by (auto simp: password_ok_def)
qed (auto simp: password_ok_def)

lemma password_main:
  "main_update env d d' \<Longrightarrow> gate_ok env d \<Longrightarrow> password_ok d \<Longrightarrow> password_ok d'"
proof (induction rule: main_update.induct)
  case (deferred d e c cs d')
  with gate_deferred [OF deferred(3)] show ?case by (simp add: password_ok_def)
next
  case (leaves d p s u fs h e)
  then show ?case by (simp add: password_ok_def)
next
  case (gate d g)
  then show ?case by (simp add: password_ok_def rpc_state_defs)
next
  case (unlocker d u)
  then show ?case by (simp add: password_ok_def gate_ok_def gate_at_def rpc_state_defs)
next
  case (password d pw u)
  then show ?case by (auto simp: password_ok_def)
next
  case (macaroons d s sv b fs)
  then show ?case by (simp add: password_ok_def gate_setters)
qed (auto simp: password_ok_def gate_setters rpc_state_defs)

lemma calls_main:
  "main_update env d d' \<Longrightarrow> gate_ok env d \<Longrightarrow> calls_ok env d \<Longrightarrow> calls_ok env d'"
proof (induction rule: main_update.induct)
  case (deferred d e c cs d')
  with gate_deferred [OF deferred(3)] show ?case by (simp add: calls_ok_def)
next
  case (gate d g)
  then have "i_svc (daemon.gate d) = None" by (auto simp: gate_ok_def split: option.splits)
  with gate show ?case by (simp add: calls_ok_def)
qed (auto simp: calls_ok_def gate_setters)

lemma entered_call_ok:
  assumes "call_target c = Some (info, req)" and "gate_ok env d"
    and "macaroon_admits (bakery_lib env) (gate d) info ctx req ctx'"
  shows "whitelisted c \<or> (i_svc (gate d) \<noteq> None \<and> authorised env c ctx')"
proof (cases "FullMethod info \<in> set macaroonWhitelist")
  case True
  with assms(1) show ?thesis by (auto simp: whitelisted_def)
next
  case False
  from assms(3) have check: "checkMacaroon (bakery_lib env) (gate d) ctx' (FullMethod info) = Returns None"
    by (simp add: macaroon_admits_def)
  have nm: "\<not> i_noMacaroons (gate d)" using assms(2) by (simp add: gate_ok_def)
  from interceptor_check_accepts [OF check nm False] obtain sv perms where
    sv: "i_svc (gate d) = Some sv" "map_of (i_permissionMap (gate d)) (FullMethod info) = Some perms"
      "ExternalValidators sv = [] \<longrightarrow>
        ValidateMacaroon (bakery_lib env) sv ctx' perms (FullMethod info) = Returns None" by blast
  have gate: "sv = macaroon_service (the_config env)" "map_of MainGrpcServerPermissions (FullMethod info) = Some perms"
    using assms(2) sv(1,2) by (simp_all add: gate_ok_def)
  have name: "ctx_plugin ctx' = Some n" if "req = PluginRequest n" for n
  proof -
    have "FullMethod info \<in> set pluginMethodNames"
      using assms(1) that by (cases c) (auto simp: pluginMethodNames_def elim!: plugin_call.elims)
    with assms(3) that show ?thesis by (auto simp: macaroon_admits_def addPluginNametoContext_def)
  qed
  from sv gate name assms(1) show ?thesis by (auto simp: authorised_def macaroon_service_def)
qed

lemma calls_other: "other_update env d d' \<Longrightarrow> gate_ok env d \<Longrightarrow> calls_ok env d \<Longrightarrow> calls_ok env d'"
proof (induction rule: other_update.induct)
  case (enters c info req d ctx ctx')
  from entered_call_ok [OF enters(1,4,3)] enters(5) show ?case by (auto simp: calls_ok_def)
qed (auto simp: calls_ok_def)

section \<open>Every reachable state\<close>

definition daemon_ok ::
  "('k, 'mac, 'ck, 'ip, 'cert, 'a) boot_env \<Rightarrow> ('k, 'cert, 'a) daemon \<Rightarrow> bool" where
  "daemon_ok env d \<longleftrightarrow>
     control_ok d \<and> (ended d \<or> resources_ok d) \<and> monitor_ok d \<and> plugins_ok d \<and> gate_ok env d \<and> password_ok d \<and> calls_ok env d"

lemma daemon_ok_new: "daemon_ok env (new_daemon i s fs pb mb)"
  by (simp add: daemon_ok_def new_daemon_def control_ok_def all_defers_def resources_ok_def Let_def plugins_ok_def
      monitor_ok_def wf_NewPluginManager gate_ok_def gate_at_def password_ok_def calls_ok_def NewGrpcInterceptor_def
      rpc_state_defs make_chan_def NewPluginManager_def [of _ _ False, THEN arg_cong, of quitClosed])

lemma daemon_ok_move:
  assumes "daemon_move chain env d d'" and "chain_law chain" and "daemon_ok env d"
  shows "daemon_ok env d'"
proof -
  have parts: "control_ok d" "ended d \<or> resources_ok d" "monitor_ok d" "plugins_ok d" "gate_ok env d" "password_ok d" "calls_ok env d"
    using assms(3) by (simp_all add: daemon_ok_def)
  have "\<not> ended d" if "main_step env d = Some x" for x
    using that by (auto simp: ended_def main_step_def)
  with daemon_move_cases [OF assms(1,2)] consider "main_update env d d'" "\<not> ended d"
    | "other_update env d d'" "\<not> ended d" | "d' = d\<lparr>pc := Crashed\<rparr>"
    by (metis alive_def ended_def main_step_update)
  then show ?thesis
  proof cases
    case 1
    with parts show ?thesis unfolding daemon_ok_def
      by (blast intro: control_main monitor_main dest: resources_main plugins_main gate_main password_main calls_main)
  next
    case 2
    with parts show ?thesis unfolding daemon_ok_def
      by (blast intro: control_other monitor_other dest: resources_other plugins_other gate_other password_other calls_other)
  next
    case 3
    have "other_update env d d'" unfolding 3 by (rule other_update.crashes)
    with parts 3 show ?thesis unfolding daemon_ok_def ended_def
      by (auto intro: control_other monitor_other plugins_other gate_other password_other calls_other)
  qed
qed

lemma daemon_ok_runs:
  "daemon_runs chain env d d' \<Longrightarrow> chain_law chain \<Longrightarrow> daemon_ok env d \<Longrightarrow> daemon_ok env d'"
  by (induction rule: rtranclp_induct) (auto dest: daemon_ok_move)

lemmas daemon_ok_reachable = daemon_ok_runs [OF _ _ daemon_ok_new]

section \<open>Progress of \<open>Main\<close>\<close>

text \<open>What \<open>Main\<close> has left at most.\<close>

definition steps_left :: "('k, 'cert, 'a) daemon \<Rightarrow> nat" where
  "steps_left d =
     (if stage (pc d) < 21 then 32 - stage (pc d)
      else if stage (pc d) = 21 then Suc (length (defers d)) else 0)"

lemma few_defers: "control_ok d \<Longrightarrow> stage (pc d) < 22 \<Longrightarrow> length (defers d) \<le> 10"
proof -
  assume ok: "control_ok d" and s: "stage (pc d) < 22"
  have "suffix (defers d) all_defers"
    using ok s by (cases "stage (pc d) < 21") (auto simp: control_ok_def suffix_drop)
  then show ?thesis by (auto dest: suffix_length_le simp: all_defers_def)
qed

lemma main_decreases: "main_update env d d' \<Longrightarrow> control_ok d \<Longrightarrow> steps_left d' < steps_left d"
proof (induction rule: main_update.induct)
  case (deferred d e c cs d')
  then have "pc d' = pc d \<and> defers d' = cs"
    by (auto simp: run_deferred_def and_then_eq_Returns split: deferred.splits)
  with deferred show ?case by (simp add: steps_left_def)
next
  case (leaves d p s u fs h e)
  with few_defers [of d] show ?case by (simp add: steps_left_def)
next
  case (shutdown d)
  with few_defers [of d] show ?case by (simp add: steps_left_def)
qed (simp_all add: steps_left_def)

lemma other_keeps_place:
  "other_update env d d' \<Longrightarrow> d' = d\<lparr>pc := Crashed\<rparr> \<or> (pc d' = pc d \<and> defers d' = defers d)"
  by (induction rule: other_update.induct) auto

abbreviation shutting_down :: "('k, 'cert, 'a) daemon \<Rightarrow> bool" where
  "shutting_down d \<equiv> chan_closed (ShutdownChannel (srv_interceptor (rpc d)))"

lemma shutting_down_other: "other_update env d d' \<Longrightarrow> shutting_down d \<Longrightarrow> shutting_down d'"
  by (induction rule: other_update.induct) (auto simp: ShutdownChannel_def)

lemma shutting_down_deferred:
  assumes "run_deferred env c (d\<lparr>defers := cs\<rparr>) = Returns d'"
  shows "srv_interceptor (rpc d') = srv_interceptor (rpc d)"
  using assms by (auto simp: run_deferred_def RpcServer.Stop_def and_then_eq_Returns split: deferred.splits prod.splits bool.splits)

lemma shutting_down_main: "main_update env d d' \<Longrightarrow> shutting_down d \<Longrightarrow> pc d' = Exited \<or> shutting_down d'"
proof (induction rule: main_update.induct)
  case (deferred d e c cs d')
  with shutting_down_deferred [OF deferred(3)] show ?case by simp
qed (simp_all add: AddGrpcInterceptor_def RpcServer.AddMacaroonService_def)

text \<open>Between two waits \<open>Main\<close> does not block, and only the REST proxy can make it panic.\<close>

lemma deferred_returns:
  assumes "pc d = Leaving e" and "defers d = c # cs" and "control_ok d" and "resources_ok d" and "plugins_ok d"
  shows "\<exists>d'. run_deferred env c (d\<lparr>defers := cs\<rparr>) = Returns d'"
proof (cases "c = RpcStop \<or> c = ManagerStop")
  case False
  then show ?thesis by (cases c) (simp_all add: run_deferred_def)
next
  case True
  show ?thesis
  proof (cases "c = RpcStop")
    case True
    with assms(2,4) have "Active (rpc d) = 1" "\<not> chan_closed (quit (rpc d))"
      by (simp_all add: resources_ok_def Let_def)
    with True show ?thesis
      by (simp add: run_deferred_def RpcServer.Stop_def compare_and_swap_def chan_close_def)
  next
    case False
    with True have c: "c = ManagerStop" by simp
    with assms(2,5) have "\<not> quitClosed (manager d)" "wf_pm (manager d)"
      by (auto simp: plugins_ok_def split: if_splits)
    from Stop_all [OF this(2,1), of "stop_plugin_answers env"]
    obtain p where "PluginManager.Stop (stop_plugin_answers env) (manager d) = Returns p" by blast
    with c show ?thesis by (simp add: run_deferred_def)
  qed
qed

lemma main_does_not_block:
  assumes "daemon_ok env d" and "alive d" and "shutting_down d \<or> pc d \<notin> {AtPassword, AtShutdown}"
  shows "(\<exists>d'. main_step env d = Some (Returns d')) \<or> (pc d = AtProxy \<and> main_step env d = Some Panics)"
proof (cases "pc d")
  case AtManager
  then show ?thesis by (cases rule: at_manager_cases [of env d]) (simp_all add: main_step_def)
next
  case AtUnlocker
  then show ?thesis
    by (simp add: main_step_def at_unlocker_def Let_def InitUnlockerService_def pwd_Update_def split: prod.split)
next
  case AtProxy
  have "startRestProxy n reg lis c ss \<noteq> Blocks" for n :: "'f net" and reg lis c ss
    by (auto simp: startRestProxy_def Let_def split: sum.split list.split option.split)
  then have "at_proxy env d \<noteq> Blocks" unfolding at_proxy_def
    by (cases "startRestProxy (net_lib env) (register_answer env) (rest_listen_answer env) (the_config env)
        [''rpc'', ''unlocker'', ''plugins'', ''health'']") simp_all
  with AtProxy show ?thesis by (cases "at_proxy env d") (simp_all add: main_step_def)
next
  case AtPassword
  with assms(3) have "at_password env d \<noteq> None"
    by (auto simp: at_password_def waitForPassword_def split: outcome.split option.split sum.split)
  with AtPassword show ?thesis by (auto simp: main_step_def)
next
  case (Leaving e)
  then have "resources_ok d" "control_ok d" "plugins_ok d" using assms(1) by (auto simp: daemon_ok_def ended_def)
  with Leaving deferred_returns [OF Leaving, of _ _ env] show ?thesis
    by (cases "defers d") (simp_all add: main_step_def leaving_def)
qed (use assms(2,3) in \<open>simp_all add: main_step_def alive_def\<close>)

end
