(* ===== verification/DaemonProperties.thy ===== *)
theory DaemonProperties
  imports DaemonBoot
begin

text \<open>
  The properties of the boot sequence, from the invariants of \<open>DaemonBoot\<close>. They hold in every state
  that \<open>daemon_move\<close> reaches from the one \<open>cmd_main\<close> starts in, for every answer of the libraries,
  every client, plugin and signal, and every interleaving of them.
\<close>

section \<open>The properties\<close>




text \<open>
  C8. When \<open>Main\<close> has returned, everything it took has been given back: the server is inactive and
  serves no more, the database is closed, the proxy and the monitor are stopped, the macaroon store
  has forgotten its key, and the context of the goroutines is cancelled. A return without an error has
  stopped the plugin manager, and no process of a plugin is left behind, except by a call whose
  handler ran after that.
\<close>

theorem returned_releases_everything:
  assumes "chain_law chain" and "daemon_runs chain env (new_daemon i s fs pb mb) d"
    and "pc d = Returned e"
  shows "serverActive d = 0 \<and> Active (rpc d) = 0 \<and> \<not> serving d \<and> \<not> db_open d \<and> proxy d = None \<and>
    \<not> monitoring d \<and> encKey (store d) = None \<and> cancelled d \<and>
    (e = None \<longrightarrow> quitClosed (manager d)) \<and>
    (quitClosed (manager d) \<and> late_calls d = 0 \<longrightarrow>
       (\<forall>n p. map_of (pluginRegistry (manager d)) n = Some p \<longrightarrow> client p = None))"
proof -
  have ok: "resources_ok d" "control_ok d" "plugins_ok d" "monitor_ok d"
    using daemon_ok_reachable [OF assms(2,1)] assms(3) by (auto simp: daemon_ok_def ended_def)
  then have none: "defers d = []" using assms(3) by (simp add: control_ok_def)
  have "serverActive d = 0 \<and> Active (rpc d) = 0 \<and> \<not> serving d \<and> \<not> db_open d \<and> proxy d = None \<and>
      \<not> monitoring d \<and> encKey (store d) = None \<and> cancelled d"
    using ok(1,4) by (simp add: resources_ok_def monitor_ok_def Let_def none del: not_None_eq)
  moreover have "e = None \<longrightarrow> quitClosed (manager d)" using ok(3) assms(3) none by (simp add: plugins_ok_def)
  ultimately show ?thesis using ok(3) by (simp add: plugins_ok_def)
qed


end
