(* ===== verification/DaemonRun.thy ===== *)
theory DaemonRun
  imports DaemonProperties
begin

text \<open>
  A run of the daemon from its start to its end, with one plugin and instances of the libraries: it
  boots to the place where it waits, a client sets the password, it becomes active, a call with a
  macaroon gets in, a signal arrives, and it shuts down. It shows that the hypotheses of
  \<open>DaemonProperties\<close> can hold. \<open>play\<close> makes one move of a given choice.
\<close>

section \<open>Playing moves\<close>

datatype choice =
    DoMain | DoCall api_call rpc_context | DoHandler | DoSignal | DoBranch branch

definition play ::
  "((('k, 'cert, 'a) daemon, unit) unary_interceptor list \<Rightarrow> (('k, 'cert, 'a) daemon, unit) unary_interceptor) \<Rightarrow>
   ('k, 'mac, 'ck, 'ip, 'cert, 'a) boot_env \<Rightarrow> choice \<Rightarrow> ('k, 'cert, 'a) daemon \<Rightarrow> ('k, 'cert, 'a) daemon option" where
  "play chain env m d =
     (if 22 \<le> stage (pc d) then None
      else
        (case m of
           DoMain \<Rightarrow> (case main_step env d of Some (Returns d') \<Rightarrow> Some d' | _ \<Rightarrow> None)
         | DoCall c ctx \<Rightarrow>
             (case call_target c of
                Some (info, req) \<Rightarrow>
                  if serving d
                  then (case enter_call chain env c info req ctx d of Returns (r, d') \<Rightarrow> Some d' | _ \<Rightarrow> None)
                  else None
              | None \<Rightarrow> None)
         | DoHandler \<Rightarrow>
             (case inflight d of
                [] \<Rightarrow> None
              | (c, ctx) # rest \<Rightarrow>
                  (case run_handler env c d of Returns d' \<Rightarrow> Some (d'\<lparr>inflight := rest\<rparr>) | _ \<Rightarrow> None))
         | DoSignal \<Rightarrow> Some (d\<lparr>rpc := (rpc d)\<lparr>srv_interceptor := deliver_signal (srv_interceptor (rpc d))\<rparr>\<rparr>)
         | DoBranch b \<Rightarrow>
             (case handler_branch b (srv_interceptor (rpc d), started_flag d) of
                Some (Returns (i, s)) \<Rightarrow> Some (d\<lparr>rpc := (rpc d)\<lparr>srv_interceptor := i\<rparr>, started_flag := s\<rparr>)
              | _ \<Rightarrow> None)))"

lemma play_move: 
  assumes "play chain env m d = Some d'"
  shows "daemon_move chain env d d'"
proof -
  have "alive d" using assms by (cases "pc d") (simp_all add: play_def alive_def)
  show ?thesis
  proof (cases "m = DoHandler")
    case True
    with assms obtain c ctx rest d1 where h: "inflight d = (c, ctx) # rest" "run_handler env c d = Returns d1"
        "d' = d1\<lparr>inflight := rest\<rparr>"
      by (auto simp: play_def split: if_splits list.splits outcome.splits)
    with daemon_move.handler [OF \<open>alive d\<close> _ h(2), where ctx = ctx and chain = chain] show ?thesis by simp
  next
    case False
    with assms \<open>alive d\<close> show ?thesis
      by (cases m) (auto simp: play_def split: option.splits outcome.splits if_splits prod.splits
          intro: daemon_move.intros program_move.handler)
  qed
qed

fun play_all ::
  "((('k, 'cert, 'a) daemon, unit) unary_interceptor list \<Rightarrow> (('k, 'cert, 'a) daemon, unit) unary_interceptor) \<Rightarrow>
   ('k, 'mac, 'ck, 'ip, 'cert, 'a) boot_env \<Rightarrow> choice list \<Rightarrow> ('k, 'cert, 'a) daemon \<Rightarrow> ('k, 'cert, 'a) daemon option" where
  "play_all chain env [] d = Some d"
| "play_all chain env (m # ms) d = (case play chain env m d of None \<Rightarrow> None | Some d' \<Rightarrow> play_all chain env ms d')"

lemma play_all_runs: "play_all chain env ms d = Some d' \<Longrightarrow> daemon_runs chain env d d'"
  by (induction ms arbitrary: d)
    (auto split: option.splits dest!: play_move intro: converse_rtranclp_into_rtranclp)

definition demo_net :: "string net" where
  "demo_net = \<lparr>ResolveTCPAddr = (\<lambda>_ a. Inr a), ResolveUnixAddr = (\<lambda>_ a. Inr a), ParsesAsIPv4 = (\<lambda>_. None),
     addr_String = (\<lambda>a. a), addr_Network = (\<lambda>_. ''tcp'')\<rparr>"

definition demo_config :: config where
  "demo_config = default_config ''lani''\<lparr>Plugins := [demo_cfg]\<rparr>"

definition demo_env :: "(string, string list, int, string, int, string) boot_env" where
  "demo_env =
     \<lparr>the_config = demo_config, crypto_lib = demo_crypto, gen_first = demo_gen, gen_again = demo_gen, tls_now = 0,
      Remove_answer = (\<lambda>_. None), Listen_answer = None, listen_addr = '''', listen_close = None,
      app_version = ''0.1.0'', handshakes = (\<lambda>_. good_answers), stop_plugin_answers = (\<lambda>_. stop_acknowledged),
      open_db_answer = None, bolt_lib = demo_bolt, snacl_lib = demo_snacl, sha256_lib = demo_hash, net_lib = demo_net,
      register_answer = (\<lambda>_ _. None), rest_listen_answer = (\<lambda>_. None), password_first = True,
      bakery_lib = demo_bakery None, baking_lib = demo_baking, unlock_nonce = 1, root_key_bytes = Inr ''key'',
      root_key_nonce = 2, bake_now = 0, WriteFile_answer = (\<lambda>_. None)\<rparr>"


definition demo_start_state :: "(string, int, string) daemon" where
  "demo_start_state = new_daemon new_interceptor 1 [(''lani/tls.cert'', ''five''), (''lani/tls.key'', ''key'')] None None"



definition login_ctx :: rpc_context where
  "login_ctx = \<lparr>ctx_md = None, ctx_plugin = None, ctx_root_key_id = None\<rparr>"

definition demo_disk :: "string gomap" where
  "demo_disk = [(''lani/tls.cert'', ''five''), (''lani/tls.key'', ''key'')]"

lemma demo_tls: "GetTLSConfig demo_crypto demo_gen demo_gen 0 (\<lambda>_. None) (TLSCertPath demo_config)
    (TLSKeyPath demo_config) (ExtraIPAddr demo_config) demo_disk = (Inr (5, 5), demo_disk)"
  by code_simp

definition demo_gate :: grpc_interceptor where
  "demo_gate = snd (Interceptors.AddPermissions MainGrpcServerPermissions (NewGrpcInterceptor False))"

lemma demo_gate_ok: "Interceptors.AddPermissions MainGrpcServerPermissions (NewGrpcInterceptor False) = (None, demo_gate)"
proof -
  obtain pm where "Interceptors.AddPermissions MainGrpcServerPermissions (NewGrpcInterceptor False) =
      (None, (NewGrpcInterceptor False)\<lparr>i_permissionMap := pm\<rparr>)" by (rule gate_permissions)
  then show ?thesis by (simp add: demo_gate_def)
qed

definition demo_rpc :: rpc_server where
  "demo_rpc = \<lparr>Active = 0, srv_interceptor = new_interceptor, grpcInterceptor = None, quit = make_chan 1,
     macSvc = None, listening = True\<rparr>"

lemma demo_rpc: "NewRpcServer new_interceptor None = Inr demo_rpc"
  by (simp add: NewRpcServer_def demo_rpc_def)

definition demo_health1 :: "checked_service health_service" where
  "demo_health1 = snd (RegisterHealthService ''main'' TheRpcServer NewHealthService)"

definition demo_health2 :: "checked_service health_service" where
  "demo_health2 = snd (RegisterHealthService ''plugins'' ThePluginManager demo_health1)"

lemma demo_health: "RegisterHealthService ''main'' TheRpcServer NewHealthService = (None, demo_health1)"
    "RegisterHealthService ''plugins'' ThePluginManager demo_health1 = (None, demo_health2)"
  by (simp_all add: demo_health1_def demo_health2_def RegisterHealthService_def NewHealthService_def)

definition demo_plugins :: plugin_manager where
  "demo_plugins = (demo_pm (demo_instance\<lparr>calls := [CallPushVersion ''0.1.0'', CallGetVersion]\<rparr>) [])
     \<lparr>pluginDir := ''lani'', noMacaroons := False, permissionMap := StreamingPluginAPIPermission\<rparr>"

lemma demo_config_sel: "PluginDir demo_config = ''lani''" "Plugins demo_config = [demo_cfg]"
    "AdminMacPath demo_config = ''lani/admin.macaroon''" "TestMacPath demo_config = ''lani/test.macaroon''"
    "\<not> RegenerateMacaroons demo_config" "GrpcPort demo_config = 7777" "RestPort demo_config = 8080"
  by (simp_all add: demo_config_def default_config_def default_grpc_port_def default_rest_port_def)

lemma demo_env_sel: "the_config demo_env = demo_config" "crypto_lib demo_env = demo_crypto"
    "gen_first demo_env = demo_gen" "gen_again demo_env = demo_gen" "tls_now demo_env = 0"
    "Remove_answer demo_env = (\<lambda>_. None)" "Listen_answer demo_env = None" "listen_close demo_env = None"
    "app_version demo_env = ''0.1.0''" "handshakes demo_env = (\<lambda>_. good_answers)"
    "stop_plugin_answers demo_env = (\<lambda>_. stop_acknowledged)" "open_db_answer demo_env = None"
    "bolt_lib demo_env = demo_bolt" "snacl_lib demo_env = demo_snacl" "sha256_lib demo_env = demo_hash"
    "net_lib demo_env = demo_net" "register_answer demo_env = (\<lambda>_ _. None)" "rest_listen_answer demo_env = (\<lambda>_. None)"
    "password_first demo_env" "bakery_lib demo_env = demo_bakery None" "baking_lib demo_env = demo_baking"
    "unlock_nonce demo_env = 1" "root_key_bytes demo_env = Inr ''key''" "root_key_nonce demo_env = 2"
    "bake_now demo_env = 0" "WriteFile_answer demo_env = (\<lambda>_. None)"
  by (simp_all add: demo_env_def)

lemma demo_pm_start:
  "PluginManager.AddPermissions StreamingPluginAPIPermission (NewPluginManager ''lani'' [demo_cfg] False) =
     (None, (NewPluginManager ''lani'' [demo_cfg] False)\<lparr>permissionMap := StreamingPluginAPIPermission\<rparr>)"
  "PluginManager.Start ''0.1.0'' (\<lambda>_. good_answers)
     ((NewPluginManager ''lani'' [demo_cfg] False)\<lparr>permissionMap := StreamingPluginAPIPermission\<rparr>) =
     Returns (None, demo_plugins)"
   apply (simp add: StreamingPluginAPIPermission_def PluginManager.AddPermission_def NewPluginManager_def has_key_def)
  by (simp add: PluginManager.Start_def NewPluginManager_def createPluginInstance_def demo_defs run_defs
      DATASOURCE_STR_def RegisterSource_def new_instance_def pushVersion_def getVersion_def demo_plugins_def
      put_instance_def demo_queues_def NewQueueManager_def)

definition demo_unl :: unlocker where
  "demo_unl = \<lparr>ps_pwd = Some [], ps_mac = None, PasswordMsgs = make_chan 1,
     macaroonFiles = [''lani/admin.macaroon'', ''lani/test.macaroon''], files = map fst demo_disk\<rparr>"

lemma demo_unl: "InitUnlockerService demo_bolt None None [''lani/admin.macaroon'', ''lani/test.macaroon'']
    (map fst demo_disk) = Returns (Inr demo_unl)"
  by (simp add: InitUnlockerService_def pwd_Update_def demo_bolt_def demo_unl_def)


lemma demo_ports: "FormatInt 7777 = ''7777''" "FormatInt 8080 = ''8080''" by (simp_all add: FormatInt_def Itoa.simps word_sless_alt digit_char_def char_of_def bit_0)
lemma demo_grpc_address: "NormalizeAddresses demo_net (ResolveTCPAddr demo_net) [''localhost:7777''] ''7777'' = Inr [''localhost:7777'']"
  by code_simp
lemma demo_rest_address: "NormalizeAddresses demo_net (ResolveTCPAddr demo_net) [''0.0.0.0:8080''] ''8080'' = Inr [''0.0.0.0:8080'']"
  by code_simp
lemma demo_dest: "rest_proxy_dest ''localhost:7777'' = ''localhost:7777''" by code_simp
lemma demo_proxy: "startRestProxy demo_net (\<lambda>_ _. None) (\<lambda>_. None) demo_config [''rpc'', ''unlocker'', ''plugins'', ''health''] =
    Returns (Inr (''localhost:7777'', ''0.0.0.0:8080''))"
proof -
  have a: "addr_String demo_net x = x" for x by (simp add: demo_net_def)
  show ?thesis by (simp add: startRestProxy_def demo_config_sel demo_ports demo_grpc_address demo_rest_address demo_dest a Let_def)
qed

definition demo_waiting :: "(string, int, string) daemon" where
  "demo_waiting =
     \<lparr>pc = AtPassword, defers = drop 2 all_defers, serverActive = 1, started_flag = 1, cancelled = False,
      disk = demo_disk, certificate = Some (5, 5), gate = SetDaemonLocked demo_gate,
      rpc = (AddGrpcInterceptor demo_gate demo_rpc)\<lparr>Active := 1\<rparr>, checker = demo_health2,
      manager = demo_plugins, monitoring = True, db_open = True, unl = demo_unl, serving = True,
      proxy = Some (''localhost:7777'', ''0.0.0.0:8080''), pwd = None,
      store = \<lparr>Bucket = None, encKey = None\<rparr>, inflight = [], late_calls = 0\<rparr>"

lemmas demo_stage_defs = main_step_def at_server_def server_Start_def compare_and_swap_def at_tls_def at_rpc_server_def
  at_gate_def at_health_def at_manager_def at_plugin_health_def at_database_def at_unlocker_def at_rpc_start_def
  RpcServer.Start_def at_listen_def startGrpcListen_def at_proxy_def Let_def

lemmas demo_answers = demo_env_sel demo_config_sel demo_tls demo_rpc demo_gate_ok demo_health demo_pm_start demo_unl demo_proxy

lemma demo_boots: "play_all demo_chain demo_env (replicate 13 DoMain) demo_start_state = Some demo_waiting"
  by (simp add: numeral_eq_Suc demo_start_state_def demo_disk_def [symmetric] new_daemon_def play_def demo_stage_defs demo_answers
    demo_waiting_def all_defers_def AddGrpcInterceptor_def demo_rpc_def)

definition demo_unl1 :: unlocker where
  "demo_unl1 = demo_unl\<lparr>ps_pwd := Some [(''pwd'', replicate 32 CHR ''p'')],
     PasswordMsgs := (make_chan 1)\<lparr>chan_buf := [\<lparr>Password = Some ''pw'', Err = None\<rparr>]\<rparr>\<rparr>"

lemma demo_set_password: "SetPassword demo_bolt demo_hash False True (Some ''pw'') demo_unl = Returns (Inr (), demo_unl1)"
  by (simp add: demo_change_defs SetPassword_def send_password_def can_send_def chan_send_def
        make_chan_def demo_unl_def demo_unl1_def)

abbreviation demo_set_call :: api_call where
  "demo_set_call \<equiv> CSetPassword False True (Some ''pw'')"

lemma demo_enters:
  assumes "gate d = SetDaemonLocked demo_gate"
  shows "enter_call demo_chain demo_env demo_set_call \<lparr>FullMethod = ''/lanirpc.Unlocker/SetPassword'',
    Server = UnlockerServer\<rparr> OtherRequest login_ctx d = Returns (Inr (), d\<lparr>inflight := (demo_set_call, login_ctx) # inflight d\<rparr>)"
  using assms by (simp add: enter_call_def CreateGrpcOptions_def demo_chain_def logUnaryServerInterceptor_def
      rpcStateUnaryServerInterceptor_def checkRPCState_def MacaroonUnaryServerInterceptor_def Interceptors.checkMacaroon_def
      macaroonWhitelist_def SetDaemonLocked_def rpc_state_defs accept_call_def pluginMethodNames_def)

definition demo_answered :: "(string, int, string) daemon" where
  "demo_answered = demo_waiting\<lparr>unl := demo_unl1\<rparr>"

lemma demo_files: "demo_unl\<lparr>files := map fst demo_disk\<rparr> = demo_unl"
    "filter (\<lambda>(p, _). p \<in> set (files demo_unl1)) demo_disk = demo_disk"
  by (simp_all add: demo_unl_def demo_unl1_def demo_disk_def)

lemma demo_password: "play_all demo_chain demo_env [DoCall demo_set_call login_ctx, DoHandler] demo_waiting = Some demo_answered"
  by (simp add: play_def demo_waiting_def demo_enters on_unlocker_def demo_env_sel demo_files demo_set_password demo_answered_def)

definition demo_disk1 :: "string gomap" where
  "demo_disk1 = snd (genMacaroons demo_baking 0 (\<lambda>_. None) baking_ctx ''lani/admin.macaroon'' adminPermissions 0
     [''all''] demo_disk)"

definition demo_disk2 :: "string gomap" where
  "demo_disk2 = snd (genMacaroons demo_baking 0 (\<lambda>_. None) baking_ctx ''lani/test.macaroon'' readPermissions 120
     [''p''] demo_disk1)"

lemma demo_bakes:
  "genMacaroons demo_baking 0 (\<lambda>_. None) baking_ctx ''lani/admin.macaroon'' adminPermissions 0 [''all''] demo_disk = (None, demo_disk1)"
  "genMacaroons demo_baking 0 (\<lambda>_. None) baking_ctx ''lani/test.macaroon'' readPermissions 120 [''p''] demo_disk1 = (None, demo_disk2)"
  "\<not> FileExists (exists_in demo_disk) ''lani/admin.macaroon''" "\<not> FileExists (exists_in demo_disk1) ''lani/test.macaroon''"
  by code_simp+

definition demo_store :: "string rks" where
  "demo_store = \<lparr>Bucket = Some [(''enckey'', ''mpw'')], encKey = Some ''pw''\<rparr>"

lemma demo_unlock: "CreateUnlock demo_bolt demo_snacl (Suc 0) (Some ''pw'') \<lparr>Bucket = Some [], encKey = None\<rparr> = (Inr (), demo_store)"
  by (simp add: CreateUnlock_def demo_storage demo_store_def)

lemma demo_root_key:
  "RootKey demo_bolt demo_snacl (Inr ''key'') 2 (ContextWithRootKeyId baking_ctx DefaultRootKeyID) demo_store = (Inr (''key'', ''0''), baked_store)"
  "RootKey demo_bolt demo_snacl (Inr ''key'') 2 (ContextWithRootKeyId baking_ctx DefaultRootKeyID) baked_store = (Inr (''key'', ''0''), baked_store)"
  by code_simp+

lemma demo_init: "InitRootKeyStorage demo_bolt None = (Inr \<lparr>Bucket = Some [], encKey = None\<rparr>, Some [])"
  by (simp add: InitRootKeyStorage_def demo_storage)

definition demo_active :: "(string, int, string) daemon" where
  "demo_active =
     (let sv = macaroon_service demo_config in
      demo_answered\<lparr>pc := AtShutdown, defers := all_defers, pwd := Some ''pw'',
        unl := demo_unl1\<lparr>ps_mac := Bucket baked_store, PasswordMsgs :=
          (make_chan 1)\<lparr>chan_taken := [\<lparr>Password = Some ''pw'', Err = None\<rparr>]\<rparr>\<rparr>,
        store := baked_store, disk := demo_disk2,
        gate := SetRPCActive (Interceptors.AddMacaroonService sv (SetDaemonUnlocked (SetDaemonLocked demo_gate))),
        rpc := RpcServer.AddMacaroonService sv (rpc demo_answered),
        manager := PluginManager.AddMacaroonService sv demo_plugins\<rparr>)"

lemma demo_bucket: "encKey demo_store = Some ''pw''" "demo_store\<lparr>Bucket := Bucket demo_store\<rparr> = demo_store"
    "baked_store\<lparr>Bucket := Bucket baked_store\<rparr> = baked_store"
  by (simp_all add: demo_store_def)

lemma demo_activates: "play_all demo_chain demo_env [DoMain, DoMain, DoMain, DoMain, DoMain, DoMain, DoMain] demo_answered = Some demo_active"
  by (simp add: play_def main_step_def demo_answered_def demo_waiting_def at_password_def waitForPassword_def
    demo_unl1_def demo_unl_def chan_recv_def make_chan_def demo_rpc_def ShutdownChannel_def new_interceptor_def
    AddGrpcInterceptor_def at_service_def InitService_def demo_init demo_answers at_store_def on_store_def demo_unlock
    demo_bucket bytes_def
    at_macaroons_def Let_def bake_to_file_def demo_bakes demo_root_key registered_names_def demo_cfg_def at_services_def
    demo_active_def all_defers_def)

text \<open>A client with a macaroon stops the daemon.\<close>

definition stop_ctx :: rpc_context where
  "stop_ctx = \<lparr>ctx_md = Some [hex_encode ''caveat''], ctx_plugin = None, ctx_root_key_id = None\<rparr>"

lemma demo_macaroon: "ValidateMacaroon (demo_bakery None) (macaroon_service demo_config) stop_ctx
    [\<lparr>Entity = ''laniakea'', Action = ''write''\<rparr>] ''/lanirpc.Lani/StopDaemon'' = Returns None"
  by code_simp

definition demo_called :: "(string, int, string) daemon" where
  "demo_called = demo_active\<lparr>inflight := [(CStopDaemon, stop_ctx)]\<rparr>"

lemma demo_active_gate: "gate demo_active = SetRPCActive (Interceptors.AddMacaroonService (macaroon_service demo_config)
    (SetDaemonUnlocked (SetDaemonLocked demo_gate)))" "serving demo_active" "inflight demo_active = []"
    "pc demo_active = AtShutdown"
  by (simp_all add: demo_active_def demo_answered_def demo_waiting_def Let_def)

lemma demo_permission:
  "map_of (i_permissionMap demo_gate) ''/lanirpc.Lani/StopDaemon'' = Some [\<lparr>Entity = ''laniakea'', Action = ''write''\<rparr>]"
  by code_simp

lemma demo_calls: "play_all demo_chain demo_env [DoCall CStopDaemon stop_ctx] demo_active = Some demo_called"
proof -
  have w: "''/lanirpc.Lani/StopDaemon'' \<notin> set macaroonWhitelist" "''/lanirpc.Lani/StopDaemon'' \<notin> set pluginMethodNames"
    by code_simp+
  have "Interceptors.checkMacaroon (demo_bakery None) (gate demo_active) stop_ctx ''/lanirpc.Lani/StopDaemon'' = Returns None"
    using demo_macaroon demo_permission w
    by (simp add: Interceptors.checkMacaroon_def demo_active_gate gate_setters macaroon_service_def demo_gate_def)
  moreover have "checkRPCState (gate demo_active) LaniServer = None"
    by (simp add: checkRPCState_def demo_active_gate SetRPCActive_def rpc_state_defs)
  ultimately have "enter_call demo_chain demo_env CStopDaemon
      \<lparr>FullMethod = ''/lanirpc.Lani/StopDaemon'', Server = LaniServer\<rparr> OtherRequest stop_ctx demo_active =
      Returns (Inr (), demo_called)"
    using w by (simp add: enter_call_def CreateGrpcOptions_def demo_chain_def logUnaryServerInterceptor_def
      rpcStateUnaryServerInterceptor_def MacaroonUnaryServerInterceptor_def accept_call_def demo_env_sel
      demo_called_def demo_active_gate)
  then show ?thesis by (simp add: play_def demo_active_gate)
qed

text \<open>A signal closes the channel \<open>Main\<close> waits for.\<close>

definition demo_closing :: "(string, int, string) daemon" where
  "demo_closing = demo_active\<lparr>started_flag := 0, rpc := (rpc demo_active)\<lparr>srv_interceptor := new_interceptor
     \<lparr>quit_chan := (make_chan 0)\<lparr>chan_closed := True\<rparr>, shutdown_chan := (make_chan 0)\<lparr>chan_closed := True\<rparr>,
      isShutdown := True, handler_runs := False\<rparr>\<rparr>\<rparr>"

lemma demo_closes: "play_all demo_chain demo_env [DoSignal, DoBranch OnSignal, DoBranch OnQuit] demo_active = Some demo_closing"
  by (simp add: play_def demo_closing_def demo_active_def demo_answered_def demo_waiting_def Let_def demo_rpc_def
      AddGrpcInterceptor_def RpcServer.AddMacaroonService_def new_interceptor_def deliver_signal_def handler_branch_def
      shutdown_def chan_close_def make_chan_def)

lemma demo_returns:
  assumes "PluginManager.Stop (\<lambda>_. stop_acknowledged) (manager demo_closing) = Returns p"
  shows "\<exists>d. play_all demo_chain demo_env [DoMain, DoMain, DoMain, DoMain, DoMain, DoMain, DoMain, DoMain,
      DoMain, DoMain, DoMain, DoMain] demo_closing = Some d \<and> pc d = Returned None \<and> manager d = p \<and> late_calls d = 0"
  using assms by (simp add: play_def demo_closing_def demo_active_def demo_answered_def demo_waiting_def Let_def
      main_step_def leaving_def run_deferred_def all_defers_def demo_rpc_def AddGrpcInterceptor_def
      RpcServer.AddMacaroonService_def RpcServer.Stop_def compare_and_swap_def chan_close_def make_chan_def
      ShutdownChannel_def demo_env_sel)

section \<open>Witnesses\<close>

lemma demo_starts: "demo_start_state = new_daemon new_interceptor 1 demo_disk None None"
  by (simp add: demo_start_state_def demo_disk_def)

lemma demo_runs:
  "daemon_runs demo_chain demo_env (new_daemon new_interceptor 1 demo_disk None None) demo_active"
  unfolding demo_starts [symmetric]
  using play_all_runs [OF demo_boots] play_all_runs [OF demo_password] play_all_runs [OF demo_activates] by simp

lemmas demo_runs_on = rtranclp_trans [OF demo_runs play_all_runs]
lemmas demo_closing_runs = demo_runs_on [OF demo_closes]




theorem returned_releases_everything_witness:
  "\<exists>d. daemon_runs demo_chain demo_env demo_start_state d \<and> pc d = Returned None \<and> quitClosed (manager d) \<and>
     (\<forall>n p. map_of (pluginRegistry (manager d)) n = Some p \<longrightarrow> client p = None)"
proof -
  have m: "plugins_ok demo_active" using daemon_ok_reachable [OF demo_runs demo_chain] by (simp add: daemon_ok_def)
  have "\<not> quitClosed (manager demo_closing)"
    by (simp add: demo_closing_def demo_active_def Let_def PluginManager.AddMacaroonService_def demo_plugins_def demo_pm_def)
  moreover from this m have "wf_pm (manager demo_closing)"
    by (simp add: plugins_ok_def demo_closing_def)
  ultimately obtain p where "PluginManager.Stop (\<lambda>_. stop_acknowledged) (manager demo_closing) = Returns p"
    using Stop_all by blast
  from demo_returns [OF this] obtain d where d: "play_all demo_chain demo_env [DoMain, DoMain, DoMain, DoMain, DoMain,
      DoMain, DoMain, DoMain, DoMain, DoMain, DoMain, DoMain] demo_closing = Some d" "pc d = Returned None" "late_calls d = 0"
    by blast
  note run = rtranclp_trans [OF demo_closing_runs play_all_runs [OF d(1)]]
  from returned_releases_everything [OF demo_chain run d(2)] run d show ?thesis unfolding demo_starts by blast
qed


end
