(* ===== verification/CommandLine.thy ===== *)
theory CommandLine
  imports ClientAuth Unlocker Cert
begin

text \<open>
  The client \<^verbatim>\<open>cmd/lanicli\<close>: \<^verbatim>\<open>main.go\<close>, \<^verbatim>\<open>commands.go\<close>, \<^verbatim>\<open>commands_plugins.go\<close> and
  \<^verbatim>\<open>commands_unlocker.go\<close>. A command reads its arguments, connects, makes one call and prints the
  answer as JSON. The call is an argument of the command, \<open>call req w\<close>, where \<open>w\<close> is whatever the
  daemon at the other end keeps; \<open>connect\<close> is what \<open>GetClientConn\<close> answers, and the context of the
  command line library is the record \<open>cli_context\<close> of the functions the code calls.
\<close>

section \<open>Contexts and endings\<close>

record cli_context =
  cli_Args :: "string list"
  NumFlags :: nat
  cli_String :: "string \<Rightarrow> string"
  cli_Int64 :: "string \<Rightarrow> 64 word"
  cli_Bool :: "string \<Rightarrow> bool"
  GlobalString :: "string \<Rightarrow> string"

text \<open>The library answers the empty string for a flag the command does not declare.\<close>

definition string_flags :: "string list \<Rightarrow> cli_context \<Rightarrow> bool" where
  "string_flags declared ctx \<longleftrightarrow> (\<forall>n. n \<notin> set declared \<longrightarrow> cli_String ctx n = '''')"

record cli_args =
  RPCAddr :: string
  RPCPort :: string
  Args_TLSCertPath :: string
  Args_AdminMacPath :: string

datatype cli_error = Local go_error | Remote rpc_error

text \<open>How a command ends: \<open>Exits\<close> is a call of \<^verbatim>\<open>os.Exit(1)\<close>, an error returned is printed and ends the
  process as well, \<open>Prints\<close> has the messages printed.\<close>

datatype 'r ending = Exits go_error | ShowsHelp string | Fails cli_error | Prints "'r list"

record cli_env =
  cli_Started :: "32 word"
  GetClientConn :: "cli_args \<Rightarrow> bool \<Rightarrow> go_error option"

definition extractArgs :: "cli_context \<Rightarrow> cli_args" where
  "extractArgs ctx = \<lparr>RPCAddr = GlobalString ctx ''rpc_addr'', RPCPort = GlobalString ctx ''rpc_port'',
     Args_TLSCertPath = GlobalString ctx ''tlscertpath'', Args_AdminMacPath = GlobalString ctx ''macaroonpath''\<rparr>"

text \<open>\<open>getContext\<close> starts an interceptor of the process; \<open>None\<close> is its context.\<close>

definition getContext :: "cli_env \<Rightarrow> go_error option" where
  "getContext env = (case InitInterceptor (cli_Started env) of (Inl e, _) \<Rightarrow> Some e | (Inr _, _) \<Rightarrow> None)"

text \<open>The clients of the three services differ in the macaroon only.\<close>

definition getLaniClient :: "cli_env \<Rightarrow> cli_context \<Rightarrow> go_error option" where
  "getLaniClient env ctx = GetClientConn env (extractArgs ctx) False"

definition getUnlockerClient :: "cli_env \<Rightarrow> cli_context \<Rightarrow> go_error option" where
  "getUnlockerClient env ctx = GetClientConn env (extractArgs ctx) True"

definition getPluginAPIClient :: "cli_env \<Rightarrow> cli_context \<Rightarrow> go_error option" where
  "getPluginAPIClient env ctx = GetClientConn env (extractArgs ctx) False"

text \<open>What every command does before it uses its client: \<open>help\<close> is shown when the usage is wrong. \<open>None\<close>
  is that it goes on; \<open>with_client\<close> is for the commands that do not wait for anything but the call.\<close>

definition setup_client :: "cli_env \<Rightarrow> string option \<Rightarrow> go_error option \<Rightarrow> 'r ending option" where
  "setup_client env help conn =
     (case getContext env of
        Some e \<Rightarrow> Some (Exits e)
      | None \<Rightarrow>
          (case help of
             Some h \<Rightarrow> Some (ShowsHelp h)
           | None \<Rightarrow> map_option Exits conn))"

definition with_client ::
  "cli_env \<Rightarrow> string option \<Rightarrow> go_error option \<Rightarrow> ('s \<Rightarrow> 'r ending \<times> 's) \<Rightarrow> 's \<Rightarrow> 'r ending \<times> 's" where
  "with_client env help conn body s =
     (case setup_client env help conn of Some x \<Rightarrow> (x, s) | None \<Rightarrow> body s)"

definition printed :: "(rpc_error + 'r) \<times> 's \<Rightarrow> 'r ending \<times> 's" where
  "printed x = (case x of (Inl e, s) \<Rightarrow> (Fails (Remote e), s) | (Inr r, s) \<Rightarrow> (Prints [r], s))"

definition silent :: "(rpc_error + 'q) \<times> 's \<Rightarrow> 'r ending \<times> 's" where
  "silent x = (case x of (Inl e, s) \<Rightarrow> (Fails (Remote e), s) | (Inr _, s) \<Rightarrow> (Prints [], s))"

section \<open>The daemon\<close>

definition stopDaemon :: "cli_env \<Rightarrow> cli_context \<Rightarrow> ('s \<Rightarrow> (rpc_error + unit) \<times> 's) \<Rightarrow> 's \<Rightarrow> 'r ending \<times> 's" where
  "stopDaemon env ctx call = with_client env None (getLaniClient env ctx) (\<lambda>s. silent (call s))"

definition adminTest :: "cli_env \<Rightarrow> cli_context \<Rightarrow> ('s \<Rightarrow> (rpc_error + 'r) \<times> 's) \<Rightarrow> 's \<Rightarrow> 'r ending \<times> 's" where
  "adminTest env ctx call = with_client env None (getLaniClient env ctx) (\<lambda>s. printed (call s))"

definition test :: "cli_env \<Rightarrow> cli_context \<Rightarrow> ('s \<Rightarrow> (rpc_error + 'r) \<times> 's) \<Rightarrow> 's \<Rightarrow> 'r ending \<times> 's" where
  "test env ctx call = with_client env None (getLaniClient env ctx) (\<lambda>s. printed (call s))"

section \<open>Plugins\<close>

text \<open>A command whose only argument is the name of a plugin.\<close>

definition one_argument :: "cli_context \<Rightarrow> string \<Rightarrow> string option" where
  "one_argument ctx name = (if length (cli_Args ctx) \<noteq> 1 then Some name else None)"

definition First :: "cli_context \<Rightarrow> string" where
  "First ctx = (case cli_Args ctx of [] \<Rightarrow> '''' | a # _ \<Rightarrow> a)"

definition on_plugin ::
  "string \<Rightarrow> cli_env \<Rightarrow> cli_context \<Rightarrow> (request \<Rightarrow> 's \<Rightarrow> (rpc_error + 'r) \<times> 's) \<Rightarrow> 's \<Rightarrow> 'r ending \<times> 's" where
  "on_plugin name env ctx call =
     with_client env (one_argument ctx name) (getPluginAPIClient env ctx)
       (\<lambda>s. printed (call (PluginRequest (First ctx)) s))"

definition pluginStartRecord ::
  "cli_env \<Rightarrow> cli_context \<Rightarrow> (request \<Rightarrow> 's \<Rightarrow> (rpc_error + 'r) \<times> 's) \<Rightarrow> 's \<Rightarrow> 'r ending \<times> 's" where
  "pluginStartRecord = on_plugin ''plugin-startrecord''"

definition pluginStopRecord ::
  "cli_env \<Rightarrow> cli_context \<Rightarrow> (request \<Rightarrow> 's \<Rightarrow> (rpc_error + 'r) \<times> 's) \<Rightarrow> 's \<Rightarrow> 'r ending \<times> 's" where
  "pluginStopRecord = on_plugin ''plugin-stoprecord''"

definition pluginStart ::
  "cli_env \<Rightarrow> cli_context \<Rightarrow> (request \<Rightarrow> 's \<Rightarrow> (rpc_error + 'r) \<times> 's) \<Rightarrow> 's \<Rightarrow> 'r ending \<times> 's" where
  "pluginStart = on_plugin ''plugin-start''"

definition pluginStop ::
  "cli_env \<Rightarrow> cli_context \<Rightarrow> (request \<Rightarrow> 's \<Rightarrow> (rpc_error + 'r) \<times> 's) \<Rightarrow> 's \<Rightarrow> 'r ending \<times> 's" where
  "pluginStop = on_plugin ''plugin-stop''"

definition getPlugin ::
  "cli_env \<Rightarrow> cli_context \<Rightarrow> (request \<Rightarrow> 's \<Rightarrow> (rpc_error + 'r) \<times> 's) \<Rightarrow> 's \<Rightarrow> 'r ending \<times> 's" where
  "getPlugin = on_plugin ''plugin-info''"

definition listPlugins :: "cli_env \<Rightarrow> cli_context \<Rightarrow> ('s \<Rightarrow> (rpc_error + 'r) \<times> 's) \<Rightarrow> 's \<Rightarrow> 'r ending \<times> 's" where
  "listPlugins env ctx call = with_client env None (getPluginAPIClient env ctx) (\<lambda>s. printed (call s))"

definition addPlugin ::
  "cli_env \<Rightarrow> cli_context \<Rightarrow> (plugin_config \<Rightarrow> 's \<Rightarrow> (rpc_error + 'r) \<times> 's) \<Rightarrow> 's \<Rightarrow> 'r ending \<times> 's" where
  "addPlugin env ctx call =
     with_client env (one_argument ctx ''plugin-add'') (getPluginAPIClient env ctx) (\<lambda>s.
       if cli_String ctx ''type'' \<noteq> ''datasource'' \<and> cli_String ctx ''type'' \<noteq> ''controller''
       then (ShowsHelp ''plugin-add'', s)
       else if cli_String ctx ''exec'' = '''' then (ShowsHelp ''plugin-add'', s)
       else printed (call \<lparr>Name = First ctx, Type = cli_String ctx ''type'', ExecName = cli_String ctx ''exec'',
         Timeout = sint (cli_Int64 ctx ''timeout''), MaxTimeouts = sint (cli_Int64 ctx ''maxtimeouts'')\<rparr> s))"

text \<open>The stream of answers to a command: what each \<^verbatim>\<open>Recv\<close> gives. \<open>None\<close> while the next one is still
  awaited. An answer is \<^verbatim>\<open>nil\<close> with every error, which the loop takes for the end.\<close>

datatype 'r received = Received 'r | EOF | ReceiveFails rpc_error

fun recv_loop :: "'r received list \<Rightarrow> 'r list option" where
  "recv_loop [] = None"
| "recv_loop (Received r # rs) = map_option (Cons r) (recv_loop rs)"
| "recv_loop (EOF # _) = Some []"
| "recv_loop (ReceiveFails _ # _) = Some []"

definition EOF_error :: rpc_error where
  "EOF_error = Bare (Foreign ''EOF'')"

definition command_frame :: "int \<Rightarrow> cli_context \<Rightarrow> frame" where
  "command_frame now ctx =
     \<lparr>Source = ''lanicli'',
      FrameType = (if cli_String ctx ''frametype'' \<noteq> '''' then cli_String ctx ''frametype'' else ''application/string''),
      Timestamp = now, Payload = cli_String ctx ''command''\<rparr>"

definition pluginCommand ::
  "cli_env \<Rightarrow> int \<Rightarrow> cli_context \<Rightarrow> (request \<Rightarrow> 's \<Rightarrow> (rpc_error + 'r received list) \<times> 's) \<Rightarrow>
     's \<Rightarrow> ('r ending \<times> 's) option" where
  "pluginCommand env now ctx call s =
     (case setup_client env (if length (cli_Args ctx) \<noteq> 1 \<or> NumFlags ctx = 0 then Some ''plugin-command'' else None)
         (getPluginAPIClient env ctx) of
        Some x \<Rightarrow> Some (x, s)
      | None \<Rightarrow>
          (case call (ControllerPluginRequest (First ctx) (Some (command_frame now ctx))) s of
             (Inl e, s) \<Rightarrow> Some (Fails (Remote e), s)
           | (Inr [], s) \<Rightarrow> None
           | (Inr (EOF # _), s) \<Rightarrow> Some (Fails (Remote EOF_error), s)
           | (Inr (ReceiveFails e # _), s) \<Rightarrow> Some (Fails (Remote e), s)
           | (Inr (Received r # rs), s) \<Rightarrow> map_option (\<lambda>resps. (Prints (r # resps), s)) (recv_loop rs)))"

section \<open>Baking\<close>

definition ErrParsingPermissionTuple :: go_error where
  "ErrParsingPermissionTuple = Foreign ''unable to parse permission tuple''"

definition ErrEmptyAction :: go_error where
  "ErrEmptyAction = Foreign ''action cannot be empty''"

definition ErrEmptyEntity :: go_error where
  "ErrEmptyEntity = Foreign ''entity cannot be empty''"

fun parse_permissions :: "string list \<Rightarrow> go_error + op list" where
  "parse_permissions [] = Inr []"
| "parse_permissions (perm # perms) =
     (case split CHR '':'' perm of
        [entity, action] \<Rightarrow>
          if entity = '''' then Wrap ''invalid permission'' (Inl ErrEmptyEntity)
          else if action = '''' then Wrap ''invalid permission'' (Inl ErrEmptyAction)
          else and_try (parse_permissions perms) (\<lambda>ps. Inr (\<lparr>Entity = entity, Action = action\<rparr> # ps))
      | _ \<Rightarrow> Inl ErrParsingPermissionTuple)"

text \<open>The string flags \<^verbatim>\<open>bake-macaroon\<close> declares.\<close>

definition bakeMacaroon_flags :: "string list" where
  "bakeMacaroon_flags = [''timeout_unit'', ''save_to'', ''plugins'']"

definition chosen_unit :: "cli_context \<Rightarrow> timeout_type" where
  "chosen_unit ctx =
     (let ttype = cli_String ctx ''timeout_type'' in
      if ttype = ''day'' then DAY else if ttype = ''hour'' then HOUR
      else if ttype = ''minute'' then MINUTE else SECOND)"

definition bake_request_of :: "cli_context \<Rightarrow> op list \<Rightarrow> bake_request" where
  "bake_request_of ctx perms =
     \<lparr>req_Timeout = cli_Int64 ctx ''timeout'', req_TimeoutType = chosen_unit ctx,
      req_Plugins = (if cli_String ctx ''plugins'' \<noteq> '''' then split CHR '':'' (cli_String ctx ''plugins'') else []),
      req_Permissions = perms\<rparr>"

text \<open>Saving creates the file when it is not there; a failed write removes it. The files are beside the
  state of the daemon.\<close>

record file_answers =
  Create_answer :: "string \<Rightarrow> go_error option"
  Write_answer :: "string \<Rightarrow> go_error option"
  RemoveFile_answer :: "string \<Rightarrow> go_error option"

definition save_macaroon ::
  "file_answers \<Rightarrow> string \<Rightarrow> string \<Rightarrow> string gomap \<Rightarrow> go_error option \<times> string gomap" where
  "save_macaroon a path hex fs =
     (case hex_decode hex of
        Inl e \<Rightarrow> (Some e, fs)
      | Inr macBytes \<Rightarrow>
          (case (if \<not> FileExists (exists_in fs) path then
                   (case Create_answer a path of Some e \<Rightarrow> (Some e, fs) | None \<Rightarrow> (None, AList.update path '''' fs))
                 else (None, fs)) of
             (Some e, fs) \<Rightarrow> (Some e, fs)
           | (None, fs) \<Rightarrow>
               (case Write_answer a path of
                  None \<Rightarrow> (None, AList.update path macBytes fs)
                | Some e \<Rightarrow>
                    (Some e, (case RemoveFile_answer a path of Some _ \<Rightarrow> fs | None \<Rightarrow> AList.delete path fs)))))"

definition bakeMac ::
  "cli_env \<Rightarrow> file_answers \<Rightarrow> cli_context \<Rightarrow> (bake_request \<Rightarrow> 's \<Rightarrow> (rpc_error + string) \<times> 's) \<Rightarrow>
     's \<times> string gomap \<Rightarrow> string ending \<times> 's \<times> string gomap" where
  "bakeMac env a ctx call =
     with_client env (if length (cli_Args ctx) < 1 \<or> 4 < NumFlags ctx then Some ''bake-macaroon'' else None)
       (getLaniClient env ctx) (\<lambda>(s, fs).
       case parse_permissions (cli_Args ctx) of
         Inl e \<Rightarrow> (Fails (Local e), s, fs)
       | Inr perms \<Rightarrow>
           (case call (bake_request_of ctx perms) s of
              (Inl e, s) \<Rightarrow> (Fails (Remote e), s, fs)
            | (Inr mac, s) \<Rightarrow>
                if cli_String ctx ''save_to'' \<noteq> '''' then
                  (case save_macaroon a (cli_String ctx ''save_to'') mac fs of
                     (Some e, fs) \<Rightarrow> (Fails (Local e), s, fs)
                   | (None, fs) \<Rightarrow> (Prints [mac], s, fs))
                else (Prints [mac], s, fs)))"

section \<open>The unlocker\<close>

text \<open>The terminal answers each prompt with what was typed and perhaps an error; \<open>None\<close> while it is
  waiting. The error of the confirmation is not looked at. The prompts left over are returned.\<close>

type_synonym typed = "string \<times> go_error option"

fun capturePassword :: "typed list \<Rightarrow> ((go_error + string) \<times> typed list) option" where
  "capturePassword ((password, Some e) # as) = Some (Inl e, as)"
| "capturePassword ((password, None) # (pwdConfirmed, err) # as) =
     (if password = pwdConfirmed then Some (Inr password, as) else capturePassword as)"
| "capturePassword _ = None"

text \<open>An empty field of a message arrives as \<^verbatim>\<open>nil\<close>.\<close>

definition on_wire :: "string \<Rightarrow> string option" where
  "on_wire s = (if s = '''' then None else Some s)"

definition setPwd ::
  "cli_env \<Rightarrow> cli_context \<Rightarrow> typed list \<Rightarrow> (string option \<Rightarrow> 's \<Rightarrow> (rpc_error + unit) \<times> 's) \<Rightarrow>
     's \<Rightarrow> ('r ending \<times> 's) option" where
  "setPwd env ctx prompts call s =
     (case setup_client env None (getUnlockerClient env ctx) of
        Some x \<Rightarrow> Some (x, s)
      | None \<Rightarrow>
          (case capturePassword prompts of
             None \<Rightarrow> None
           | Some (Inl e, _) \<Rightarrow> Some (Fails (Local e), s)
           | Some (Inr pwd, _) \<Rightarrow> Some (silent (call (on_wire pwd) s))))"

definition login ::
  "cli_env \<Rightarrow> cli_context \<Rightarrow> typed list \<Rightarrow> (string option \<Rightarrow> 's \<Rightarrow> (rpc_error + unit) \<times> 's) \<Rightarrow>
     's \<Rightarrow> ('r ending \<times> 's) option" where
  "login env ctx prompts call s =
     (case setup_client env None (getUnlockerClient env ctx) of
        Some x \<Rightarrow> Some (x, s)
      | None \<Rightarrow>
          (case prompts of
             [] \<Rightarrow> None
           | (pwd, Some e) # _ \<Rightarrow> Some (Fails (Local e), s)
           | (pwd, None) # _ \<Rightarrow> Some (silent (call (on_wire pwd) s))))"

text \<open>\<open>changePwd\<close> overwrites the error of the new password with that of the call: what was not read
  is \<^verbatim>\<open>nil\<close>.\<close>

definition changePwd ::
  "cli_env \<Rightarrow> cli_context \<Rightarrow> typed list \<Rightarrow> (change_request \<Rightarrow> 's \<Rightarrow> (rpc_error + unit) \<times> 's) \<Rightarrow>
     's \<Rightarrow> ('r ending \<times> 's) option" where
  "changePwd env ctx prompts call s =
     (case setup_client env None (getUnlockerClient env ctx) of
        Some x \<Rightarrow> Some (x, s)
      | None \<Rightarrow>
          (case prompts of
             [] \<Rightarrow> None
           | (oldPwd, Some e) # _ \<Rightarrow> Some (Fails (Local e), s)
           | (oldPwd, None) # prompts \<Rightarrow>
               (case capturePassword prompts of
                  None \<Rightarrow> None
                | Some (r, _) \<Rightarrow>
                    let newPwd = (case r of Inl e \<Rightarrow> '''' | Inr p \<Rightarrow> p) in
                    Some (silent (call \<lparr>CurrentPassword = on_wire oldPwd, NewPassword = on_wire newPwd,
                      NewMacaroonRootKey = cli_Bool ctx ''new_mac_root_key''\<rparr> s)))))"

section \<open>What the commands do\<close>

definition show_permission :: "op \<Rightarrow> string" where
  "show_permission q = Entity q @ CHR '':'' # Action q"

definition plain_permission :: "op \<Rightarrow> bool" where
  "plain_permission q \<longleftrightarrow> Entity q \<noteq> '''' \<and> Action q \<noteq> '''' \<and> CHR '':'' \<notin> set (Entity q) \<and> CHR '':'' \<notin> set (Action q)"

lemma split_two: "split sep s = [a, b] \<longleftrightarrow> s = a @ sep # b \<and> sep \<notin> set a \<and> sep \<notin> set b"
proof
  assume h: "split sep s = [a, b]"
  then have "s = join sep [a, b]" by (metis join_split)
  with split_elem [of a sep s] split_elem [of b sep s] h show "s = a @ sep # b \<and> sep \<notin> set a \<and> sep \<notin> set b"
    by simp
qed (simp add: split_append split_word)

text \<open>The arguments accepted are exactly the permissions written \<open>entity:action\<close>.\<close>

lemma parse_permissions_iff:
  "parse_permissions args = Inr perms \<longleftrightarrow>
     args = map show_permission perms \<and> (\<forall>q \<in> set perms. plain_permission q)"
proof (induction args arbitrary: perms)
  case Nil
  then show ?case by auto
next
  case (Cons arg args)
  show ?case
  proof (cases "\<exists>a b. split CHR '':'' arg = [a, b]")
    case True
    then obtain a b where ab: "split CHR '':'' arg = [a, b]" by blast
    then have arg: "arg = a @ CHR '':'' # b" "CHR '':'' \<notin> set a" "CHR '':'' \<notin> set b" by (simp_all add: split_two)
    have eq: "arg = show_permission q \<and> plain_permission q \<longleftrightarrow>
        q = \<lparr>Entity = a, Action = b\<rparr> \<and> a \<noteq> '''' \<and> b \<noteq> ''''" for q :: op
    proof -
      have "Entity q = a \<and> Action q = b" if "arg = show_permission q" "plain_permission q"
      proof -
        from that have "split CHR '':'' arg = [Entity q, Action q]"
          by (simp add: split_two show_permission_def plain_permission_def)
        with ab show ?thesis by simp
      qed
      with arg show ?thesis by (cases q) (auto simp: show_permission_def plain_permission_def)
    qed
    have tail: "parse_permissions (arg # args) = Inr (q # qs) \<longleftrightarrow>
        (q = \<lparr>Entity = a, Action = b\<rparr> \<and> a \<noteq> [] \<and> b \<noteq> []) \<and> parse_permissions args = Inr qs" for q qs
      using ab by (auto simp: Wrap_def)
    show ?thesis
    proof (cases perms)
      case Nil
      with ab show ?thesis by (auto simp: Wrap_def)
    next
      case (Cons q qs)
      show ?thesis unfolding Cons tail Cons.IH eq [symmetric] by auto
    qed
  next
    case False
    then have none: "arg \<noteq> show_permission q" if "plain_permission q" for q
      using that by (metis plain_permission_def show_permission_def split_two)
    have "parse_permissions (arg # args) = Inl ErrParsingPermissionTuple"
      using False by (simp split: list.split)
    moreover have "\<not> (arg # args = map show_permission perms \<and> (\<forall>q \<in> set perms. plain_permission q))"
    proof (cases perms)
      case (Cons q qs)
      with none [of q] show ?thesis by auto
    qed simp
    ultimately show ?thesis by simp
  qed
qed

lemma save_macaroon_saved:
  assumes "save_macaroon a path hex fs = (None, fs')"
  shows "\<exists>bs. hex_decode hex = Inr bs \<and> map_of fs' path = Some bs \<and> (\<forall>p. p \<noteq> path \<longrightarrow> map_of fs' p = map_of fs p)"
  using assms by (auto simp: save_macaroon_def update_conv' split: sum.splits option.splits if_splits prod.splits)

lemma unit_is_second: "string_flags flags ctx \<Longrightarrow> ''timeout_type'' \<notin> set flags \<Longrightarrow> chosen_unit ctx = SECOND"
  by (simp add: string_flags_def chosen_unit_def)


text \<open>A command to a plugin prints the answers up to the first end or failure of the stream, of which
  only a failure before the first answer is reported: a stream that breaks off looks like one that
  has ended.\<close>

lemma recv_loop_Some:
  "recv_loop stream = Some rs \<longleftrightarrow>
     (\<exists>e rest. stream = map Received rs @ e # rest \<and> (e = EOF \<or> (\<exists>err. e = ReceiveFails err)))"
proof (induction stream arbitrary: rs)
  case (Cons x stream)
  then show ?case by (cases x; cases rs) (auto simp: Cons_eq_append_conv)
qed simp

lemma broken_stream_is_not_reported:
  fixes rs :: "'r list"
  assumes "pluginCommand env now ctx call s = Some (Prints rs, s')"
  shows "\<exists>e rest. call (ControllerPluginRequest (First ctx) (Some (command_frame now ctx))) s =
      (Inr (map Received rs @ e # rest), s') \<and> rs \<noteq> [] \<and> (e = EOF \<or> (\<exists>err. e = ReceiveFails err))"
proof -
  let ?call = "call (ControllerPluginRequest (First ctx) (Some (command_frame now ctx))) s"
  from assms have "setup_client env (if length (cli_Args ctx) \<noteq> 1 \<or> NumFlags ctx = 0 then Some ''plugin-command'' else None)
      (getPluginAPIClient env ctx) = (None :: 'r ending option)"
    by (auto simp: pluginCommand_def setup_client_def split: option.splits if_splits)
  with assms obtain r stream resps where "?call = (Inr (Received r # stream), s')" "recv_loop stream = Some resps"
      "rs = r # resps"
    by (auto simp: pluginCommand_def split: prod.splits sum.splits list.splits received.splits option.splits)
  then show ?thesis by (auto simp: recv_loop_Some)
qed

text \<open>When the terminal fails while the new password is asked for, \<open>changepassword\<close> goes on with an empty
  one, and the daemon accepts it as the new password.\<close>

lemma unread_password_becomes_empty:
  assumes "setup_client env None (getUnlockerClient env ctx) = (None :: 'r ending option)"
  shows "changePwd env ctx ((oldPwd, None) # (part, Some e) # prompts) call s =
    Some (silent (call \<lparr>CurrentPassword = on_wire oldPwd, NewPassword = None,
      NewMacaroonRootKey = cli_Bool ctx ''new_mac_root_key''\<rparr> s) :: 'r ending \<times> 's)"
  using assms by (simp add: changePwd_def on_wire_def)

text \<open>A failed confirmation counts as an empty one.\<close>

lemma failed_confirmation: "capturePassword [([], None), ([], Some e)] = Some (Inr [], [])"
  by simp

section \<open>Witness\<close>

definition demo_cli :: cli_context where
  "demo_cli = \<lparr>cli_Args = [''plugins:write''], NumFlags = 3,
     cli_String = (\<lambda>n. if n = ''timeout_unit'' then ''day'' else if n = ''save_to'' then ''my.macaroon''
       else if n = ''plugins'' then ''rsync:fluke'' else ''''),
     cli_Int64 = (\<lambda>n. if n = ''timeout'' then 7 else 0), cli_Bool = (\<lambda>_. False), GlobalString = (\<lambda>_. '''')\<rparr>"

definition demo_cli_env :: cli_env where
  "demo_cli_env = \<lparr>cli_Started = 0, GetClientConn = (\<lambda>_ _. None)\<rparr>"

definition demo_files :: file_answers where
  "demo_files = \<lparr>Create_answer = (\<lambda>_. None), Write_answer = (\<lambda>_. None), RemoveFile_answer = (\<lambda>_. None)\<rparr>"

definition demo_cli_request :: bake_request where
  "demo_cli_request = demo_bake_request\<lparr>req_TimeoutType := SECOND\<rparr>"


end
