(* ===== verification/Spec2Isabelle.thy ===== *)
theory Spec2Isabelle
  imports QueueProtocol QueueManager PluginInstance RootKeyStorage PluginLifecycle PluginStreams
    Interceptors Shutdown Unlocker RpcServer Config Logging PluginLog FileNames Health Address Cert
    FramePath WebsocketEnd DemoPlugins ClientAuth PluginShutdown Daemon DaemonSteps
    DaemonBoot DaemonProperties DaemonRun CommandLine
begin

text \<open>
  The verification development of Laniakea, a daemon that starts plugins as processes, passes the
  frames they produce on to the clients of a gRPC API, and guards this API by a password and by
  macaroons. This header says which theory models which part of the program, what its lemmas show,
  what the bounds are, and what is left out.

  \<^bold>\<open>How the program is put together.\<close> \<^verbatim>\<open>cmd/laniakea/main.go\<close> calls \<open>Main\<close> (\<^verbatim>\<open>core/laniakea.go\<close>), which
  loads the certificate, creates the RPC server with its interceptors, starts the plugin manager,
  opens the database, serves the unlocker until a client has sent the password, opens the macaroon
  store, bakes the first macaroons, and waits for the shutdown channel; then the deferred calls run in
  reverse order. A call passes three interceptors (logging, the state of the daemon, the macaroon
  check) before its handler. The plugin manager keeps the plugins and a queue manager that copies the
  frames of a plugin to the queue of every listener; a monitor restarts plugins that do not respond.

  \<^bold>\<open>The conventions\<close> are those of \<open>Prelude\<close>, \<open>GoErrors\<close> and \<open>Channel\<close>. A function that may panic or block
  for ever is a function into \<open>outcome\<close>; an error is a value of \<open>go_error\<close> or \<open>rpc_error\<close>, each sentinel
  a constructor of its own; a function that returns a value and an error returns a sum; a map is an
  association list in the order of insertion; the state of a component is a record that every operation
  takes and returns; integers of the program are \<open>32 word\<close>, \<open>64 word\<close> or \<open>int\<close> where they stay in range.
  What the libraries, the plugins, the clock and the operating system answer is an argument; where a
  property rests on it, its documented behaviour is a named predicate (\<open>bolt_laws\<close>, \<open>snacl_laws\<close>,
  \<open>baking_laws\<close>, \<open>codec_laws\<close>, \<open>crypto_laws\<close>, \<open>chain_law\<close>), with an instance that has it.

  \<^bold>\<open>Data of plugins.\<close>
  \<open>Queue\<close> (\<^verbatim>\<open>queue/queue.go\<close>) is the bounded queue, an instance of the locales \<open>fifo\<close> and \<open>bounded_fifo\<close>;
  \<open>QueueProtocol\<close> runs a producer and a subscriber on it as a step relation at the granularity of its lock:
  frames arrive in order and at most once, and the deadlock and the missing frame that are possible.
  \<open>QueueManager\<close> (\<^verbatim>\<open>queue/manager.go\<close>) has the registration of sources and listeners and the forwarding
  goroutine, with its invariant \<open>wf_manager\<close>.

  \<^bold>\<open>Plugins.\<close>
  \<open>Regexes\<close>, \<open>GoStrings\<close>, \<open>GoNumbers\<close> and \<open>FileNames\<close> are what is used of the packages for text, and
  \<^verbatim>\<open>utils/general.go\<close>. \<open>PluginConfig\<close> (\<^verbatim>\<open>plugins/config.go\<close>) validates configurations. \<open>PluginInstance\<close>
  (\<^verbatim>\<open>plugins/instance.go\<close>) has every method of a plugin and the goroutines a method leaves behind; the methods
  share the contract of the locale \<open>plugin_method\<close>. \<open>PluginManager\<close> (\<^verbatim>\<open>plugins/service.go\<close>) has the handlers,
  the start and the monitor, \<open>PluginStreams\<close> the three streaming handlers, \<open>PluginLifecycle\<close> the
  interleaving of all of them with the invariant \<open>wf_pm\<close> and the refinement to an automaton of plugin states,
  \<open>PluginShutdown\<close> what \<open>Stop\<close> achieves. \<open>FramePath\<close> composes the goroutine of a recording, the forwarder and a
  stream: the way of a frame from the plugin to a client. \<open>PluginLog\<close> (\<^verbatim>\<open>plugins/log.go\<close>) is the logger the plugins get.
  \<open>DemoPlugins\<close> (\<^verbatim>\<open>plugins/plugins/_demo\<close>) is the other side of those calls, the two example plugins, and when
  their \<open>Stop\<close> returns.

  \<^bold>\<open>Authorisation.\<close>
  \<open>MacaroonService\<close> (\<^verbatim>\<open>macaroons/service.go\<close>, \<^verbatim>\<open>constraints.go\<close>) validates macaroons and makes caveats,
  \<open>RootKeyStorage\<close> (\<^verbatim>\<open>macaroons/storage.go\<close>) keeps the root keys in a bucket, encrypted, \<open>Interceptors\<close>
  (\<^verbatim>\<open>intercept/grpc_intercept.go\<close>) is the gate: the locale \<open>mediator\<close> says that an outcome that depends on
  the handler was admitted, and composes. \<open>RpcServer\<close> (\<^verbatim>\<open>core/rpcserver.go\<close>) has the permission tables and
  \<open>BakeMacaroon\<close>, \<open>ClientAuth\<close> (\<^verbatim>\<open>auth\<close>, \<^verbatim>\<open>macaroons/auth.go\<close>) the side of the client, \<open>Unlocker\<close>
  (\<^verbatim>\<open>unlocker/unlocker.go\<close>) the password.

  \<^bold>\<open>The rest of the daemon.\<close>
  \<open>Shutdown\<close> (\<^verbatim>\<open>intercept/intercept.go\<close>) is the interrupt handler as a step relation, \<open>Config\<close>
  (\<^verbatim>\<open>core/config.go\<close>, \<^verbatim>\<open>utils/appdata.go\<close>) the configuration, \<open>Logging\<close> (\<^verbatim>\<open>core/log.go\<close>) the rotating log,
  \<open>Health\<close> (\<^verbatim>\<open>health/service.go\<close>), \<open>Address\<close> (\<^verbatim>\<open>utils/address.go\<close>) and \<open>Cert\<close> (\<^verbatim>\<open>cert/tls.go\<close>) are
  named after theirs. \<open>WebsocketProxy\<close> (\<^verbatim>\<open>lanirpc/websocket_proxy.go\<close>) has the headers and the loops of the
  WebSocket proxy, \<open>WebsocketConnection\<close> one connection as its goroutines over two pipes, a channel, a
  context and a shared variable, \<open>WebsocketMessages\<close> the invariants by which these carry out the loops, and
  \<open>WebsocketEnd\<close> that a cancelled connection comes to an end. \<open>CommandLine\<close> is the client
  \<^verbatim>\<open>cmd/lanicli\<close>, whose commands take the call they make as an argument, so that \<open>bakeMac\<close> is composed with
  the daemon's \<open>BakeMacaroon\<close>.

  \<^bold>\<open>The whole.\<close>
  \<open>Daemon\<close> (\<^verbatim>\<open>core/laniakea.go\<close>, \<^verbatim>\<open>core/server.go\<close>, \<^verbatim>\<open>cmd/laniakea/main.go\<close>) is \<open>Main\<close> as a step function over
  the components above, interleaved by \<open>daemon_move\<close> with calls, their handlers, the monitor, goroutines and
  signals. \<open>DaemonSteps\<close> sums up what a move can change, \<open>DaemonBoot\<close> proves the invariants over that, and
  \<open>DaemonProperties\<close> states what follows: the gate opens in step with the boot, every call in flight is
  authorised, \<open>Main\<close> comes to an end, and returning it has released what it took. \<open>DaemonRun\<close> plays a
  run from the start to the end, as the witness that the hypotheses can hold.

  \<^bold>\<open>Bounds.\<close> Loops over lists and maps are structural recursions. Loops that may not end are
  options: \<open>unique_loop\<close> of \<open>FileNames\<close> is a partial function, and it is shown when it returns;
  \<open>capturePassword\<close>, \<open>recv_loop\<close> and the turns of the streams consume a list of what arrives, and are
  \<open>None\<close> or unfinished where the list ends. No definition takes fuel. \<open>steps_left\<close> bounds the steps of
  \<open>Main\<close> by 32, \<open>work\<close> those of the interrupt handler, \<open>effort\<close> those of a WebSocket connection whose
  pipes are closed, \<open>task_effort\<close> and \<open>ds_effort\<close> those of a goroutine of a demo plugin that is told to stop.

  \<^bold>\<open>Not modelled.\<close> The generated gRPC code (\<^verbatim>\<open>lanirpc/*.pb.go\<close>, \<^verbatim>\<open>*.pb.gw.go\<close>) but for the service
  descriptors; \<^verbatim>\<open>kvdb/db.go\<close>, which only opens the database file; interface and version declarations;
  zerolog and the formatting of log lines beyond what the adapters do; floating-point arithmetic,
  which is a parameter where it occurs; the plugins of the Go tests (\<^verbatim>\<open>plugins/plugins/_testing\<close>); the scheduling
  inside the gRPC library, whose calls are atomic up to the point where the handler starts. Data races of
  unsynchronised fields are not represented but for the variable \<^verbatim>\<open>err\<close> of the WebSocket proxy: a handler
  is one move.
\<close>

end
